(* ===== verification/Jc_Prelude.thy ===== *)
theory Jc_Prelude
  imports "HOL-Library.Word"
begin

text \<open>
  Shared vocabulary of the development: the machine integers of the Rust code as words, results
  as sums, the big-endian conversions the code uses everywhere, and the interface locales that
  several components share:

  \<^item> \<open>prefix_codec\<close>: an encoder together with a decoder that reads one value from the front of a
    byte list and returns what is left (BER tags, BER lengths, length-prefixed RSA integers);
  \<^item> \<open>state_machine\<close>: a step function with an invariant that every step keeps, lifted to runs;
  \<^item> \<open>retry_guard\<close>: a secret guarded by a retry counter (the five PINs of the two applets).
\<close>

unbundle bit_operations_syntax

section \<open>Types of the code\<close>

type_synonym byte = "8 word"
type_synonym u16 = "16 word"
type_synonym u32 = "32 word"

text \<open>\<open>Result<T, E>\<close> of Rust is the sum \<open>E + T\<close>.\<close>

abbreviation Ok :: "'a \<Rightarrow> 'e + 'a" where "Ok \<equiv> Inr"
abbreviation Err :: "'e \<Rightarrow> 'e + 'a" where "Err \<equiv> Inl"

text \<open>Collections: conversions between bytes and wider integers; handler definitions; frame facts.\<close>

named_theorems byte_simps
named_theorems handler_defs
named_theorems frame_simps

text \<open>
  A long chain of conditionals is taken apart branch by branch; that the earlier conditions failed
  is dropped, which keeps the cases of a match on a 16-bit tag small.
\<close>

lemma if_eqE:
  "(if b then x else y) = z \<Longrightarrow> (b \<Longrightarrow> x = z \<Longrightarrow> P) \<Longrightarrow> (y = z \<Longrightarrow> P) \<Longrightarrow> P"
  by (simp split: if_splits)

section \<open>Big-endian integers (\<open>to_be_bytes\<close>, \<open>from_be_bytes\<close>)\<close>

definition be_bytes16 :: "u16 \<Rightarrow> byte list" where
  "be_bytes16 w = [ucast (drop_bit 8 w), ucast w]"

definition from_be16 :: "byte \<Rightarrow> byte \<Rightarrow> u16" where
  "from_be16 a b = push_bit 8 (ucast a) OR ucast b"

definition be_bytes32 :: "u32 \<Rightarrow> byte list" where
  "be_bytes32 w = [ucast (drop_bit 24 w), ucast (drop_bit 16 w), ucast (drop_bit 8 w), ucast w]"

definition from_be32 :: "byte \<Rightarrow> byte \<Rightarrow> byte \<Rightarrow> byte \<Rightarrow> u32" where
  "from_be32 a b c d =
     push_bit 24 (ucast a) OR push_bit 16 (ucast b) OR push_bit 8 (ucast c) OR ucast d"

lemma length_be_bytes [simp]: "length (be_bytes16 w) = 2" "length (be_bytes32 v) = 4"
  by (simp_all add: be_bytes16_def be_bytes32_def)

lemma from_be16_bytes [byte_simps]: "from_be16 (ucast (drop_bit 8 w)) (ucast w) = w"
  unfolding from_be16_def
  by (rule bit_word_eqI) (auto simp: bit_simps)

lemma bytes_from_be16 [byte_simps]:
  "ucast (drop_bit 8 (from_be16 a b)) = a" "ucast (from_be16 a b) = b"
  unfolding from_be16_def
  by (rule bit_word_eqI; auto simp: bit_simps dest: bit_imp_le_length)+

lemma from_be16_eq_iff: "from_be16 a b = from_be16 c d \<longleftrightarrow> a = c \<and> b = d"
  by (metis bytes_from_be16)

lemma from_be32_bytes [byte_simps]:
  "from_be32 (ucast (drop_bit 24 w)) (ucast (drop_bit 16 w)) (ucast (drop_bit 8 w)) (ucast w) = w"
proof (rule bit_word_eqI)
  fix n assume "n < LENGTH(32)"
  then show "bit (from_be32 (ucast (drop_bit 24 w)) (ucast (drop_bit 16 w))
      (ucast (drop_bit 8 w)) (ucast w)) n = bit w n"
    by (cases "n < 8"; cases "n < 16"; cases "n < 24") (auto simp: from_be32_def bit_simps)
qed

lemma bytes_from_be32 [byte_simps]:
  "ucast (drop_bit 24 (from_be32 a b c d)) = a" "ucast (drop_bit 16 (from_be32 a b c d)) = b"
  "ucast (drop_bit 8 (from_be32 a b c d)) = c" "ucast (from_be32 a b c d) = d"
  unfolding from_be32_def
  by (rule bit_word_eqI; auto simp: bit_simps dest: bit_imp_le_length)+


text \<open>The bits of an integer are read as its decimal value where the code widens with \<open>as usize\<close>.\<close>

lemma unat_u8_less: "unat (b :: byte) < 256"
  using unsigned_less [of b] by simp

lemma unat_byte_u16: "unat (ucast b :: u16) = unat (b :: byte)"
  using unat_u8_less [of b] by (simp add: unsigned_ucast_eq take_bit_eq_mod)

lemma unat_byte_u32: "unat (ucast b :: u32) = unat (b :: byte)"
  using unat_u8_less [of b] by (simp add: unsigned_ucast_eq take_bit_eq_mod)

lemma unat_from_be16 [byte_simps]: "unat (from_be16 a b) = 256 * unat a + unat b"
proof -
  have "from_be16 a b = push_bit 8 (ucast a) + ucast b"
    unfolding from_be16_def
    by (rule disjunctive_add [symmetric]) (auto simp: bit_simps dest: bit_imp_le_length)
  moreover have "unat (push_bit 8 (ucast a :: u16)) = 256 * unat a"
    using unat_u8_less [of a]
    by (simp add: push_bit_eq_mult unat_word_ariths unsigned_ucast_eq take_bit_eq_mod)
  ultimately show ?thesis
    using unat_u8_less [of a] unat_u8_less [of b]
    by (simp add: unat_word_ariths unsigned_ucast_eq take_bit_eq_mod)
qed

lemma unat_of_nat_u8: "unat (of_nat n :: byte) = n mod 256"
  by (simp add: unat_of_nat)

lemma unat_of_nat_u16: "unat (of_nat n :: u16) = n mod 65536"
  by (simp add: unat_of_nat)

lemma be_bytes16_of_nat:
  "n < 65536 \<Longrightarrow> be_bytes16 (of_nat n) = [of_nat (n div 256), of_nat n]"
proof -
  assume n: "n < 65536"
  have "unat (drop_bit 8 (of_nat n :: u16)) = n div 256"
    using n by (subst unat_drop_bit_eq) (simp add: unat_of_nat drop_bit_eq_div)
  then have "unat (ucast (drop_bit 8 (of_nat n :: u16)) :: byte) = unat (of_nat (n div 256) :: byte)"
    unfolding unsigned_ucast_eq by (simp only: unat_of_nat take_bit_eq_mod)
  moreover have "unat (ucast (of_nat n :: u16) :: byte) = unat (of_nat n :: byte)"
    using n by (simp add: unsigned_ucast_eq unat_of_nat take_bit_eq_mod)
  ultimately show ?thesis
    unfolding be_bytes16_def by (simp only: list.inject word_unat_eq_iff simp_thms)
qed

text \<open>The loop \<open>value = (value << 8) | byte\<close> over a byte list, on integers wide enough not to wrap.\<close>

definition be_value :: "byte list \<Rightarrow> nat" where
  "be_value bs = foldl (\<lambda>acc b. acc * 256 + unat b) 0 bs"

lemma be_value_Nil [simp]: "be_value [] = 0"
  by (simp add: be_value_def)

lemma be_value_snoc [simp]: "be_value (bs @ [b]) = be_value bs * 256 + unat b"
  by (simp add: be_value_def)

lemma be_value_Cons_0 [simp]: "be_value (0 # bs) = be_value bs"
  by (simp add: be_value_def)

lemma be_value_zeros [simp]: "be_value (replicate n 0 @ bs) = be_value bs"
  by (induction n) simp_all

lemma be_value_append: "be_value (xs @ ys) = be_value xs * 256 ^ length ys + be_value ys"
proof (induction ys rule: rev_induct)
  case (snoc y ys)
  have "be_value (xs @ ys @ [y]) = be_value ((xs @ ys) @ [y])" by simp
  then show ?case using snoc by (simp only: be_value_snoc) (simp add: algebra_simps)
qed simp

lemma be_value_less: "be_value bs < 256 ^ length bs"
proof (induction bs rule: rev_induct)
  case (snoc b bs)
  then show ?case using unat_u8_less [of b] by simp
qed simp

section \<open>Reading one value from the front of a byte list\<close>

text \<open>
  \<open>dec\<close> reads one value and returns it with the unread bytes. The law says that it reads back
  exactly what \<open>enc\<close> wrote, whatever follows.
\<close>

locale prefix_codec =
  fixes enc :: "'a \<Rightarrow> byte list"
    and dec :: "byte list \<Rightarrow> ('a \<times> byte list) option"
    and wf :: "'a \<Rightarrow> bool"
  assumes dec_enc: "wf x \<Longrightarrow> dec (enc x @ rest) = Some (x, rest)"
begin

text \<open>Two encodings followed by anything agree only if the values and the rests do.\<close>

lemma enc_unique:
  assumes "wf x" "wf y" "enc x @ r = enc y @ s"
  shows "x = y \<and> r = s"
proof -
  have "Some (x, r) = Some (y, s)"
    unfolding dec_enc [OF assms(1), of r, symmetric] dec_enc [OF assms(2), of s, symmetric]
    by (rule arg_cong [where f = dec], rule assms(3))
  then show ?thesis by simp
qed

lemma enc_inj: "wf x \<Longrightarrow> wf y \<Longrightarrow> enc x = enc y \<Longrightarrow> x = y"
  using enc_unique [of x y "[]" "[]"] by simp

lemma dec_enc_alone: "wf x \<Longrightarrow> dec (enc x) = Some (x, [])"
  using dec_enc [of x "[]"] by simp

end

text \<open>Reading a fixed number of values one after the other.\<close>

fun read_seq :: "(byte list \<Rightarrow> ('a \<times> byte list) option) \<Rightarrow> nat \<Rightarrow> byte list \<Rightarrow> ('a list \<times> byte list) option" where
  "read_seq dec 0 bs = Some ([], bs)"
| "read_seq dec (Suc n) bs =
     (case dec bs of
        None \<Rightarrow> None
      | Some (x, r) \<Rightarrow>
          (case read_seq dec n r of None \<Rightarrow> None | Some (xs, r') \<Rightarrow> Some (x # xs, r')))"

context prefix_codec begin

lemma read_seq_concat:
  "list_all wf xs \<Longrightarrow> read_seq dec (length xs) (concat (map enc xs) @ rest) = Some (xs, rest)"
  by (induction xs) (simp_all add: dec_enc)

lemma concat_unique:
  assumes "list_all wf xs" "list_all wf ys" "length xs = length ys"
    and "concat (map enc xs) = concat (map enc ys)"
  shows "xs = ys"
proof -
  have "Some (xs, [] :: byte list) = Some (ys, [])"
    unfolding read_seq_concat [OF assms(1), symmetric] read_seq_concat [OF assms(2), symmetric]
    by (simp only: assms(3,4))
  then show ?thesis by simp
qed

end

section \<open>State machines with an invariant\<close>

text \<open>A component is driven by one step function; \<open>run\<close> feeds it a list of commands.\<close>

fun run :: "('s \<Rightarrow> 'c \<Rightarrow> 's \<times> 'r) \<Rightarrow> 's \<Rightarrow> 'c list \<Rightarrow> 's \<times> 'r list" where
  "run f s [] = (s, [])"
| "run f s (c # cs) = (let (s', r) = f s c; (s'', rs) = run f s' cs in (s'', r # rs))"

lemma run_append:
  "run f s (cs @ ds) =
     (let (s', rs) = run f s cs; (s'', rs') = run f s' ds in (s'', rs @ rs'))"
  by (induction cs arbitrary: s) (auto simp: Let_def split: prod.splits)

lemma length_run [simp]: "length (snd (run f s cs)) = length cs"
  by (induction cs arbitrary: s) (simp_all add: Let_def split_beta)

locale state_machine =
  fixes next_state :: "'s \<Rightarrow> 'c \<Rightarrow> 's \<times> 'r"
    and inv :: "'s \<Rightarrow> bool"
  assumes inv_step: "inv s \<Longrightarrow> inv (fst (next_state s c))"
begin

lemma inv_run: "inv s \<Longrightarrow> inv (fst (run next_state s cs))"
proof (induction cs arbitrary: s)
  case (Cons c cs)
  then have "inv (fst (run next_state (fst (next_state s c)) cs))"
    by (blast intro: inv_step)
  then show ?case by (simp add: Let_def split_beta)
qed simp

end

section \<open>Saturating counters (\<open>u8::saturating_sub(1)\<close>)\<close>

definition saturating_dec :: "byte \<Rightarrow> byte" where
  "saturating_dec n = (if n = 0 then 0 else n - 1)"

lemma unat_saturating_dec [simp]: "unat (saturating_dec n) = unat n - 1"
  by (simp add: saturating_dec_def unat_minus_one)

lemma saturating_dec_le: "n \<le> m \<Longrightarrow> saturating_dec n \<le> m"
  by (simp add: word_le_nat_alt)

section \<open>Secrets guarded by a retry counter\<close>

text \<open>
  \<open>attempt\<close> presents a candidate; \<open>counter\<close> is the number of tries left, \<open>limit\<close> what it is
  reset to on success, \<open>good\<close> the candidates that are accepted while tries are left.
\<close>

fun attempts :: "('s \<Rightarrow> 'p \<Rightarrow> bool \<times> 's) \<Rightarrow> 's \<Rightarrow> 'p list \<Rightarrow> 's" where
  "attempts f s [] = s"
| "attempts f s (p # ps) = attempts f (snd (f s p)) ps"

lemma attempts_append: "attempts f s (ps @ qs) = attempts f (attempts f s ps) qs"
  by (induction ps arbitrary: s) simp_all

locale retry_guard =
  fixes attempt :: "'s \<Rightarrow> 'p \<Rightarrow> bool \<times> 's"
    and counter :: "'s \<Rightarrow> nat"
    and limit :: "'s \<Rightarrow> nat"
    and good :: "'s \<Rightarrow> 'p \<Rightarrow> bool"
  assumes attempt_blocked: "counter s = 0 \<Longrightarrow> attempt s p = (False, s)"
    and attempt_result: "counter s \<noteq> 0 \<Longrightarrow> fst (attempt s p) = good s p"
    and attempt_good: "counter s \<noteq> 0 \<Longrightarrow> good s p \<Longrightarrow> counter (snd (attempt s p)) = limit s"
    and attempt_bad: "counter s \<noteq> 0 \<Longrightarrow> \<not> good s p \<Longrightarrow> counter (snd (attempt s p)) = counter s - 1"
    and attempt_same: "good (snd (attempt s p)) = good s" "limit (snd (attempt s p)) = limit s"
begin

text \<open>A correct secret is the only way to a success, and only while tries are left.\<close>

lemma success_iff: "fst (attempt s p) \<longleftrightarrow> counter s \<noteq> 0 \<and> good s p"
  by (cases "counter s = 0") (simp_all add: attempt_blocked attempt_result)

lemma counter_bounded: "counter s \<le> limit s \<Longrightarrow> counter (snd (attempt s p)) \<le> limit s"
  by (cases "counter s = 0"; cases "good s p")
    (simp_all add: attempt_blocked attempt_good attempt_bad)

lemma wrong_attempt: "\<not> good s p \<Longrightarrow> counter (snd (attempt s p)) = counter s - 1"
  by (cases "counter s = 0") (simp_all add: attempt_blocked attempt_bad)

lemma wrong_attempts:
  "list_all (\<lambda>p. \<not> good s p) ps \<Longrightarrow>
     counter (attempts attempt s ps) = counter s - length ps \<and> good (attempts attempt s ps) = good s"
proof (induction ps arbitrary: s)
  case (Cons p ps)
  then have "\<not> good s p" and "list_all (\<lambda>q. \<not> good (snd (attempt s p)) q) ps"
    by (auto simp: attempt_same)
  with Cons.IH [of "snd (attempt s p)"] show ?case
    by (simp add: wrong_attempt attempt_same)
qed simp

lemma blocked_stays: "counter s = 0 \<Longrightarrow> attempts attempt s ps = s"
  by (induction ps arbitrary: s) (simp_all add: attempt_blocked)

text \<open>The brute-force bound: as many wrong tries as the counter shows block the secret for good.\<close>

lemma exhaust:
  assumes "list_all (\<lambda>p. \<not> good s p) ps" and "counter s \<le> length ps"
  shows "\<not> fst (attempt (attempts attempt (attempts attempt s ps) qs) p)"
proof -
  have "counter (attempts attempt s ps) = 0"
    using wrong_attempts [OF assms(1)] assms(2) by simp
  then show ?thesis
    by (simp add: blocked_stays success_iff)
qed

end

end
