(* ===== verification/Tlv.thy ===== *)
theory Tlv
  imports Jc_Prelude
begin

text \<open>
  BER-TLV data objects: \<^verbatim>\<open>ifd-jcecard/src/tlv/parser.rs\<close> (the type \<open>TLV\<close>, its searches, the
  parser) and \<^verbatim>\<open>ifd-jcecard/src/tlv/encoder.rs\<close> (\<open>TLVEncoder\<close>, \<open>TLVBuilder\<close>). Tags are the
  \<open>u32\<close> of the code. Lengths are \<open>usize\<close> in the code and \<open>nat\<close> here: a parsed length has at most
  four bytes, so no addition of an offset and a length can overflow on a 64-bit target.

  The lemmas show that tags and lengths form prefix codecs, that a well-formed tree is read back
  from its encoding, that the parser splits its input without losing a byte, and what the
  depth-first searches return.
\<close>

unbundle bit_operations_syntax

section \<open>Errors and the type of data objects\<close>

datatype tlv_error =
    UnexpectedEndTag
  | UnexpectedEndLength
  | UnexpectedEndValue
  | InvalidLength
  | LengthTooLarge nat
  | TagTooLong

datatype TLV = TLV (tlv_tag: u32) (tlv_value: "byte list") (tlv_subs: "TLV list")

definition tlv_new :: "u32 \<Rightarrow> byte list \<Rightarrow> TLV" where
  "tlv_new tag value = TLV tag value []"

definition tlv_constructed :: "u32 \<Rightarrow> TLV list \<Rightarrow> TLV" where
  "tlv_constructed tag children = TLV tag [] children"

definition get_t :: "TLV \<Rightarrow> u16" where
  "get_t t = ucast (tlv_tag t)"

definition get_l :: "TLV \<Rightarrow> u16" where
  "get_l t = of_nat (length (tlv_value t))"

definition get_v :: "TLV \<Rightarrow> byte list" where
  "get_v t = tlv_value t"

definition if_recursive :: "TLV \<Rightarrow> bool" where
  "if_recursive t \<longleftrightarrow> tlv_subs t \<noteq> []"

text \<open>The first byte of a tag, by the number of bytes the tag needs.\<close>

definition first_tag_byte :: "u32 \<Rightarrow> byte" where
  "first_tag_byte tag =
     (if tag > 0xFFFF then ucast (drop_bit 16 tag AND 0xFF)
      else if tag > 0xFF then ucast (drop_bit 8 tag AND 0xFF)
      else ucast (tag AND 0xFF))"

definition is_constructed :: "TLV \<Rightarrow> bool" where
  "is_constructed t \<longleftrightarrow> first_tag_byte (tlv_tag t) AND 0x20 \<noteq> 0"

section \<open>Searches\<close>

text \<open>\<open>find_tag\<close> and \<open>find\<close> look at the object itself, then at each child in turn.\<close>

fun tlv_find :: "u32 \<Rightarrow> TLV \<Rightarrow> TLV option"
  and tlv_find_in :: "u32 \<Rightarrow> TLV list \<Rightarrow> TLV option" where
  "tlv_find tag (TLV t v ss) = (if t = tag then Some (TLV t v ss) else tlv_find_in tag ss)"
| "tlv_find_in tag [] = None"
| "tlv_find_in tag (s # ss) =
     (case tlv_find tag s of Some found \<Rightarrow> Some found | None \<Rightarrow> tlv_find_in tag ss)"

definition find_tag :: "u16 \<Rightarrow> TLV \<Rightarrow> TLV option" where
  "find_tag tag t = tlv_find (ucast tag) t"

definition find_child :: "u32 \<Rightarrow> TLV \<Rightarrow> TLV option" where
  "find_child tag t = List.find (\<lambda>c. tlv_tag c = tag) (tlv_subs t)"

definition get_aid_tlv :: "TLV \<Rightarrow> byte list option" where
  "get_aid_tlv t = map_option tlv_value (find_tag 0x4F t)"

definition get_historical_bytes_tlv :: "TLV \<Rightarrow> byte list option" where
  "get_historical_bytes_tlv t = map_option tlv_value (find_tag 0x5F52 t)"

definition get_fingerprints_tlv :: "TLV \<Rightarrow> byte list option" where
  "get_fingerprints_tlv t = map_option tlv_value (find_tag 0xC5 t)"

definition get_name_tlv :: "TLV \<Rightarrow> byte list option" where
  "get_name_tlv t = map_option tlv_value (find_tag 0x5B t)"

definition get_signature_algo_attributes :: "TLV \<Rightarrow> byte list option" where
  "get_signature_algo_attributes t = map_option tlv_value (find_tag 0xC1 t)"

definition get_encryption_algo_attributes :: "TLV \<Rightarrow> byte list option" where
  "get_encryption_algo_attributes t = map_option tlv_value (find_tag 0xC2 t)"

definition get_authentication_algo_attributes :: "TLV \<Rightarrow> byte list option" where
  "get_authentication_algo_attributes t = map_option tlv_value (find_tag 0xC3 t)"

definition get_pin_tries :: "TLV \<Rightarrow> byte list option" where
  "get_pin_tries t = map_option tlv_value (find_tag 0xC4 t)"

definition get_key_information :: "TLV \<Rightarrow> byte list option" where
  "get_key_information t = map_option tlv_value (find_tag 0xDE t)"

definition get_number_of_signatures :: "TLV \<Rightarrow> byte list option" where
  "get_number_of_signatures t = map_option tlv_value (find_tag 0x93 t)"

section \<open>Parser\<close>

definition parse_tag :: "byte list \<Rightarrow> tlv_error + u32 \<times> nat" where
  "parse_tag data =
     (if data = [] then Err UnexpectedEndTag
      else let first = data ! 0 in
        if first AND 0x1F \<noteq> 0x1F then Ok (ucast first, 1)
        else if length data < 2 then Err UnexpectedEndTag
        else let second = data ! 1 in
          if second AND 0x80 = 0
          then Ok (push_bit 8 (ucast first) OR ucast second, 2)
          else if length data < 3 then Err UnexpectedEndTag
          else let third = data ! 2 in
            Ok (push_bit 16 (ucast first) OR push_bit 8 (ucast second) OR ucast third, 3))"

definition parse_length :: "byte list \<Rightarrow> tlv_error + nat \<times> nat" where
  "parse_length data =
     (if data = [] then Err UnexpectedEndLength
      else let first = data ! 0 in
        if first AND 0x80 = 0 then Ok (unat first, 1)
        else let num_bytes = unat (first AND 0x7F) in
          if num_bytes = 0 then Err InvalidLength
          else if num_bytes > 4 then Err (LengthTooLarge num_bytes)
          else if length data < 1 + num_bytes then Err UnexpectedEndLength
          else Ok (be_value (take num_bytes (drop 1 data)), 1 + num_bytes))"

text \<open>
  \<open>read_single\<close> reports its errors as strings; the constructors below stand for them: the three
  literals of the function and the text of a \<open>TLVError\<close>.
\<close>

datatype read_error =
    EmptyData
  | EndWhileParsingLength
  | EndWhileParsingValue
  | FromTLVError tlv_error

text \<open>The part of \<open>read_single\<close> before the children: tag, value and the unread bytes.\<close>

definition read_head :: "byte list \<Rightarrow> read_error + u32 \<times> byte list \<times> byte list" where
  "read_head data =
     (if data = [] then Err EmptyData
      else case parse_tag data of
        Err e \<Rightarrow> Err (FromTLVError e)
      | Ok (tag, tag_len) \<Rightarrow>
          (let offset = tag_len in
           if offset \<ge> length data then Err EndWhileParsingLength
           else case parse_length (drop offset data) of
             Err e \<Rightarrow> Err (FromTLVError e)
           | Ok (len, len_len) \<Rightarrow>
               (let offset = offset + len_len in
                if offset + len > length data then Err EndWhileParsingValue
                else Ok (tag, take len (drop offset data), drop (offset + len) data))))"

lemma read_head_shorter:
  assumes "read_head data = Ok (t, v, rest)"
  shows "length v < length data" "length rest < length data"
  using assms
  by (auto simp: read_head_def parse_tag_def parse_length_def Let_def split: if_splits sum.splits)

function (sequential) read_list :: "byte list \<Rightarrow> bool \<Rightarrow> TLV list" where
  "read_list [] recursive = []"
| "read_list (b # bs) recursive =
     (if b = 0x00 \<or> b = 0xFF then read_list bs recursive
      else case read_head (b # bs) of
        Err _ \<Rightarrow> []
      | Ok (tag, value, rest) \<Rightarrow>
          TLV tag value
            (if recursive \<and> first_tag_byte tag AND 0x20 \<noteq> 0 \<and> value \<noteq> []
             then read_list value True else [])
          # read_list rest recursive)"
  by pat_completeness auto
termination
  by (relation "measure (\<lambda>(d, r). length d)") (auto dest: read_head_shorter)

declare read_list.simps(2) [simp del]

definition read_single :: "byte list \<Rightarrow> bool \<Rightarrow> read_error + TLV \<times> byte list" where
  "read_single data recursive =
     (case read_head data of
        Err e \<Rightarrow> Err e
      | Ok (tag, value, remaining) \<Rightarrow>
          Ok (TLV tag value
               (if recursive \<and> first_tag_byte tag AND 0x20 \<noteq> 0 \<and> value \<noteq> []
                then read_list value True else []), remaining))"

text \<open>The loop of \<open>read_list\<close>, as the code writes it: skip fillers, read one, stop at an error.\<close>

lemma read_list_loop:
  "read_list data recursive =
     (case data of
        [] \<Rightarrow> []
      | b # bs \<Rightarrow>
          if b = 0x00 \<or> b = 0xFF then read_list bs recursive
          else case read_single data recursive of
            Ok (tlv, rest) \<Rightarrow> tlv # read_list rest recursive
          | Err _ \<Rightarrow> [])"
  by (cases data)
    (simp_all add: read_list.simps(2) read_single_def split: sum.split prod.split)

definition tlv_parser_parse :: "byte list \<Rightarrow> tlv_error + TLV list" where
  "tlv_parser_parse data = Ok (read_list data True)"

definition tlv_parser_parse_one :: "byte list \<Rightarrow> tlv_error + TLV \<times> nat" where
  "tlv_parser_parse_one data =
     (case read_single data True of
        Ok (tlv, remaining) \<Rightarrow> Ok (tlv, length data - length remaining)
      | Err _ \<Rightarrow> Err InvalidLength)"

section \<open>Encoder\<close>

definition encode_tag :: "u32 \<Rightarrow> byte list" where
  "encode_tag tag =
     (if tag > 0xFFFF then
        [ucast (drop_bit 16 tag AND 0xFF), ucast (drop_bit 8 tag AND 0xFF), ucast (tag AND 0xFF)]
      else if tag > 0xFF then [ucast (drop_bit 8 tag AND 0xFF), ucast (tag AND 0xFF)]
      else [ucast (tag AND 0xFF)])"

definition encode_length :: "nat \<Rightarrow> byte list" where
  "encode_length n =
     (if n < 128 then [of_nat n]
      else if n < 256 then [0x81, of_nat n]
      else if n < 65536 then [0x82, of_nat (n div 256), of_nat (n mod 256)]
      else if n < 16777216 then
        [0x83, of_nat (n div 65536), of_nat (n div 256 mod 256), of_nat (n mod 256)]
      else [0x84, of_nat (n div 16777216), of_nat (n div 65536 mod 256),
            of_nat (n div 256 mod 256), of_nat (n mod 256)])"

definition tlv_encode :: "u32 \<Rightarrow> byte list \<Rightarrow> byte list" where
  "tlv_encode tag value = encode_tag tag @ encode_length (length value) @ value"

fun encode_tlv :: "TLV \<Rightarrow> byte list" where
  "encode_tlv (TLV tag value ss) =
     tlv_encode tag (if ss \<noteq> [] then concat (map encode_tlv ss) else value)"

definition build_constructed :: "u32 \<Rightarrow> byte list list \<Rightarrow> byte list" where
  "build_constructed tag children = tlv_encode tag (concat children)"

text \<open>\<open>TLVBuilder\<close> holds one byte vector; its methods take and return it.\<close>

definition builder_new :: "byte list" where
  "builder_new = []"

definition builder_add :: "u32 \<Rightarrow> byte list \<Rightarrow> byte list \<Rightarrow> byte list" where
  "builder_add tag value self = self @ tlv_encode tag value"

definition builder_add_raw :: "byte list \<Rightarrow> byte list \<Rightarrow> byte list" where
  "builder_add_raw d self = self @ d"

definition builder_wrap :: "u32 \<Rightarrow> byte list \<Rightarrow> byte list" where
  "builder_wrap tag self = tlv_encode tag self"

definition builder_build :: "byte list \<Rightarrow> byte list" where
  "builder_build self = self"

lemmas builder_defs = builder_new_def builder_add_def builder_add_raw_def builder_wrap_def
  builder_build_def


section \<open>Tags as a prefix codec\<close>

text \<open>A tag is well formed when its first bytes announce exactly the number of bytes it has.\<close>

definition wf_tag :: "u32 \<Rightarrow> bool" where
  "wf_tag t \<longleftrightarrow> t \<le> 0xFFFFFF \<and>
     (let bs = encode_tag t in
        if length bs = 1 then bs ! 0 AND 0x1F \<noteq> 0x1F
        else bs ! 0 AND 0x1F = 0x1F \<and> (bs ! 1 AND 0x80 = 0 \<longleftrightarrow> length bs = 2))"

lemma ucast_low_byte: "(ucast (x AND 0xFF) :: byte) = ucast (x :: u32)"
proof -
  have "(0xFF :: u32) = mask 8" by (simp add: mask_eq_decr_exp)
  then have "x AND 0xFF = take_bit 8 x" by (simp only: take_bit_eq_mask)
  then show ?thesis
    by (simp only:) (rule bit_word_eqI, simp add: bit_simps)
qed

lemma first_tag_byte_encode: "first_tag_byte t = encode_tag t ! 0"
  by (simp add: first_tag_byte_def encode_tag_def)

lemma encode_tag_not_Nil [simp]: "encode_tag t \<noteq> []"
  by (simp add: encode_tag_def)

lemma less_exp_take_bit: "w < 2 ^ n \<Longrightarrow> take_bit n w = (w :: 'a :: len word)"
  by (cases "n < LENGTH('a)")
    (simp_all add: take_bit_word_eq_self less_mask_eq word_less_nat_alt take_bit_eq_mask)

lemma tag_bytes3:
  fixes t :: u32
  assumes "t \<le> 0xFFFFFF"
  shows "push_bit 16 (ucast (ucast (drop_bit 16 t) :: byte)) OR
     push_bit 8 (ucast (ucast (drop_bit 8 t) :: byte)) OR ucast (ucast t :: byte) = (t :: u32)"
proof (rule bit_word_eqI)
  fix n assume n: "n < LENGTH(32)"
  have "t < 2 ^ 24" using assms by (simp add: word_le_nat_alt word_less_nat_alt)
  then have "take_bit 24 t = t" by (rule less_exp_take_bit)
  then have "24 \<le> n \<Longrightarrow> \<not> bit t n" by (metis bit_take_bit_iff not_le)
  then show "bit (push_bit 16 (ucast (ucast (drop_bit 16 t) :: byte)) OR
     push_bit 8 (ucast (ucast (drop_bit 8 t) :: byte)) OR ucast (ucast t :: byte) :: u32) n = bit t n"
    using n by (cases "n < 8"; cases "n < 16"; cases "n < 24") (auto simp: bit_simps)
qed

lemma tag_bytes2:
  fixes t :: u32
  assumes "t \<le> 0xFFFF"
  shows "push_bit 8 (ucast (ucast (drop_bit 8 t) :: byte)) OR ucast (ucast t :: byte) = (t :: u32)"
proof (rule bit_word_eqI)
  fix n assume n: "n < LENGTH(32)"
  have "t < 2 ^ 16" using assms by (simp add: word_le_nat_alt word_less_nat_alt)
  then have "take_bit 16 t = t" by (rule less_exp_take_bit)
  then have "16 \<le> n \<Longrightarrow> \<not> bit t n" by (metis bit_take_bit_iff not_le)
  then show "bit (push_bit 8 (ucast (ucast (drop_bit 8 t) :: byte)) OR
      ucast (ucast t :: byte) :: u32) n = bit t n"
    using n by (cases "n < 8"; cases "n < 16") (auto simp: bit_simps)
qed

lemma tag_bytes1:
  fixes t :: u32
  assumes "t \<le> 0xFF"
  shows "ucast (ucast t :: byte) = (t :: u32)"
proof (rule bit_word_eqI)
  fix n assume n: "n < LENGTH(32)"
  have "t < 2 ^ 8" using assms by (simp add: word_le_nat_alt word_less_nat_alt)
  then have "take_bit 8 t = t" by (rule less_exp_take_bit)
  then have "8 \<le> n \<Longrightarrow> \<not> bit t n" by (metis bit_take_bit_iff not_le)
  then show "bit (ucast (ucast t :: byte) :: u32) n = bit t n"
    using n by (cases "n < 8") (auto simp: bit_simps)
qed

lemma parse_tag_encode:
  assumes "wf_tag t"
  shows "parse_tag (encode_tag t @ rest) = Ok (t, length (encode_tag t))"
proof -
  consider "t \<le> 0xFF" | "0xFF < t" "t \<le> 0xFFFF" | "0xFFFF < t" "0xFF < t" "t \<le> 0xFFFFFF"
    using assms by (fastforce simp: wf_tag_def word_less_nat_alt word_le_nat_alt)
  then show ?thesis
  proof cases
    case 1
    then have "encode_tag t = [ucast t]"
      by (simp add: encode_tag_def ucast_low_byte leD order.strict_trans2 word_less_nat_alt word_le_nat_alt)
    then show ?thesis
      using assms by (simp add: wf_tag_def parse_tag_def tag_bytes1 [OF 1])
  next
    case 2
    then have "encode_tag t = [ucast (drop_bit 8 t), ucast t]"
      by (simp add: encode_tag_def ucast_low_byte leD)
    then show ?thesis
      using assms by (simp add: wf_tag_def parse_tag_def Let_def tag_bytes2 [OF 2(2)])
  next
    case 3
    then have "encode_tag t = [ucast (drop_bit 16 t), ucast (drop_bit 8 t), ucast t]"
      by (simp add: encode_tag_def ucast_low_byte)
    then show ?thesis
      using assms by (simp add: wf_tag_def parse_tag_def Let_def tag_bytes3 [OF 3(3)])
  qed
qed

definition tag_dec :: "byte list \<Rightarrow> (u32 \<times> byte list) option" where
  "tag_dec d = (case parse_tag d of Ok (t, n) \<Rightarrow> Some (t, drop n d) | Err _ \<Rightarrow> None)"

interpretation tag_codec: prefix_codec encode_tag tag_dec wf_tag
  by unfold_locales (simp add: tag_dec_def parse_tag_encode)

section \<open>Lengths as a prefix codec\<close>

lemma and_80_iff: "(b :: byte) AND 0x80 = 0 \<longleftrightarrow> unat b < 128"
proof -
  have "b AND 0x80 = 0 \<longleftrightarrow> \<not> bit b 7"
    using and_exp_eq_0_iff_not_bit [of b 7] by simp
  also have "bit b 7 \<longleftrightarrow> bit (unat b) 7"
    by (simp add: bit_unsigned_iff)
  also have "\<dots> \<longleftrightarrow> odd (unat b div 128)"
    by (simp add: bit_iff_odd)
  also have "\<dots> \<longleftrightarrow> \<not> unat b < 128"
  proof -
    have "unat b div 128 < 2"
      using unat_u8_less [of b] by (simp add: less_mult_imp_div_less)
    then show ?thesis
      by (cases "unat b < 128") (auto simp: div_eq_0_iff less_2_cases_iff)
  qed
  finally show ?thesis by simp
qed

lemma parse_length_encode:
  assumes "n < 2 ^ 32"
  shows "parse_length (encode_length n @ rest) = Ok (n, length (encode_length n))"
proof -
  have d: "n div 65536 = n div 256 div 256" "n div 16777216 = n div 256 div 256 div 256"
    by (simp_all flip: div_mult2_eq)
  have b3: "65536 * (n div 65536) + n div 256 mod 256 * 256 + n mod 256 = n"
    unfolding d using mult_div_mod_eq [of 256 n] mult_div_mod_eq [of 256 "n div 256"]
    by linarith
  have b4: "16777216 * (n div 16777216) + 65536 * (n div 65536 mod 256) +
      n div 256 mod 256 * 256 + n mod 256 = n"
    unfolding d using mult_div_mod_eq [of 256 n] mult_div_mod_eq [of 256 "n div 256"]
      mult_div_mod_eq [of 256 "n div 256 div 256"]
    by linarith
  consider "n < 128" | "128 \<le> n" "n < 256" | "256 \<le> n" "n < 65536"
    | "65536 \<le> n" "n < 16777216" | "16777216 \<le> n"
    by linarith
  then show ?thesis
    using assms
    by cases (simp_all add: parse_length_def encode_length_def and_80_iff unat_of_nat_u8
        be_value_def Let_def b3 b4)
qed

definition length_dec :: "byte list \<Rightarrow> (nat \<times> byte list) option" where
  "length_dec d = (case parse_length d of Ok (n, k) \<Rightarrow> Some (n, drop k d) | Err _ \<Rightarrow> None)"

interpretation length_codec: prefix_codec encode_length length_dec "\<lambda>n. n < 2 ^ 32"
  by unfold_locales (simp add: length_dec_def parse_length_encode)


section \<open>The header and whole objects\<close>

lemma encode_length_not_Nil [simp]: "encode_length n \<noteq> []"
  by (simp add: encode_length_def)

lemma read_head_encode:
  assumes "wf_tag t" "length v < 2 ^ 32"
  shows "read_head (tlv_encode t v @ rest) = Ok (t, v, rest)"
proof -
  have "parse_tag (tlv_encode t v @ rest) = Ok (t, length (encode_tag t))"
    using parse_tag_encode [OF assms(1)] by (simp add: tlv_encode_def)
  moreover have "parse_length (encode_length (length v) @ v @ rest) =
      Ok (length v, length (encode_length (length v)))"
    by (rule parse_length_encode [OF assms(2)])
  ultimately show ?thesis
    by (simp add: read_head_def tlv_encode_def Let_def)
qed

text \<open>The parser only splits its input: what it returns are consecutive parts of it.\<close>

lemma parse_tag_consumes:
  "parse_tag d = Ok (t, n) \<Longrightarrow> 1 \<le> n \<and> n \<le> 3 \<and> n \<le> length d"
  by (auto simp: parse_tag_def Let_def Suc_le_eq split: if_splits)

lemma parse_length_consumes:
  "parse_length d = Ok (n, k) \<Longrightarrow> 1 \<le> k \<and> k \<le> 5 \<and> k \<le> length d"
  by (auto simp: parse_length_def Let_def Suc_le_eq split: if_splits)

lemma parse_length_bound: "parse_length d = Ok (n, k) \<Longrightarrow> n < 2 ^ 32"
proof -
  assume p: "parse_length d = Ok (n, k)"
  show ?thesis
  proof (cases "unat (d ! 0) < 128")
    case True
    with p show ?thesis
      by (auto simp: parse_length_def Let_def and_80_iff split: if_splits)
  next
    case False
    define m where "m = unat (d ! 0 AND 0x7F)"
    from p False have n: "n = be_value (take m (drop 1 d))" and m: "m \<le> 4"
      by (auto simp: parse_length_def Let_def and_80_iff m_def split: if_splits)
    have "n < 256 ^ length (take m (drop 1 d))"
      unfolding n by (rule be_value_less)
    also have "\<dots> \<le> 256 ^ 4"
      using m by (intro power_increasing) auto
    finally show ?thesis by simp
  qed
qed

lemma read_head_split:
  assumes "read_head d = Ok (t, v, rest)"
  shows "\<exists>hdr. d = hdr @ v @ rest \<and> 2 \<le> length hdr \<and> length hdr \<le> 8 \<and> length v < 2 ^ 32"
proof -
  from assms obtain n k len where pt: "parse_tag d = Ok (t, n)"
    and pl: "parse_length (drop n d) = Ok (len, k)" and le: "n + k + len \<le> length d"
    and v: "v = take len (drop (n + k) d)" and rest: "rest = drop (n + k + len) d"
    by (auto simp: read_head_def Let_def split: if_splits sum.splits)
  have n: "1 \<le> n \<and> n \<le> 3" and k: "1 \<le> k \<and> k \<le> 5"
    using parse_tag_consumes [OF pt] parse_length_consumes [OF pl] by auto
  have "d = take (n + k) d @ v @ rest"
    unfolding v rest by (metis append_take_drop_id add.commute drop_drop)
  moreover have "2 \<le> length (take (n + k) d) \<and> length (take (n + k) d) \<le> 8"
    using n k le by auto
  moreover have "length v < 2 ^ 32"
    using parse_length_bound [OF pl] v by simp
  ultimately show ?thesis by blast
qed

section \<open>Reading a tree back\<close>

text \<open>
  The parser decides by bit 6 of the tag whether an object has children and skips the bytes 00
  and FF between objects, so a tree is well formed when its tags agree with its shape and no tag
  starts with a filler byte.
\<close>

fun wf_tlv :: "TLV \<Rightarrow> bool" where
  "wf_tlv (TLV t v ss) \<longleftrightarrow>
     wf_tag t \<and> first_tag_byte t \<noteq> 0x00 \<and> first_tag_byte t \<noteq> 0xFF \<and>
     (if ss = [] then first_tag_byte t AND 0x20 = 0 \<or> v = [] else first_tag_byte t AND 0x20 \<noteq> 0) \<and>
     length (if ss \<noteq> [] then concat (map encode_tlv ss) else v) < 2 ^ 32 \<and> list_all wf_tlv ss"

text \<open>A parsed composite object carries the bytes of its children as its value.\<close>

fun tlv_filled :: "TLV \<Rightarrow> TLV" where
  "tlv_filled (TLV t v ss) =
     TLV t (if ss \<noteq> [] then concat (map encode_tlv ss) else v) (map tlv_filled ss)"

lemma tlv_encode_first: "\<exists>bs. tlv_encode t v = first_tag_byte t # bs"
  by (simp add: tlv_encode_def encode_tag_def first_tag_byte_def)

lemma encode_tlv_not_Nil [simp]: "encode_tlv t \<noteq> []"
  by (cases t) (simp add: tlv_encode_def)

lemma read_list_encode_step:
  assumes "wf_tag t" "first_tag_byte t \<noteq> 0x00" "first_tag_byte t \<noteq> 0xFF" "length v < 2 ^ 32"
  shows "read_list (tlv_encode t v @ rest) r =
     TLV t v (if r \<and> first_tag_byte t AND 0x20 \<noteq> 0 \<and> v \<noteq> [] then read_list v True else [])
     # read_list rest r"
proof -
  obtain bs where bs: "tlv_encode t v @ rest = first_tag_byte t # bs"
    using tlv_encode_first by (metis append_Cons)
  have "read_head (first_tag_byte t # bs) = Ok (t, v, rest)"
    using read_head_encode [OF assms(1,4), of rest] bs by simp
  then show ?thesis
    unfolding bs using assms(2,3) by (simp add: read_list.simps(2))
qed

lemma read_list_concat:
  assumes "\<And>t rest. t \<in> set ts \<Longrightarrow> read_list (encode_tlv t @ rest) True = tlv_filled t # read_list rest True"
  shows "read_list (concat (map encode_tlv ts) @ rest) True = map tlv_filled ts @ read_list rest True"
  using assms by (induction ts) simp_all

lemma read_list_encode_tlv:
  "wf_tlv t \<Longrightarrow> read_list (encode_tlv t @ rest) True = tlv_filled t # read_list rest True"
proof (induction t arbitrary: rest)
  case (TLV t v ss)
  let ?body = "if ss \<noteq> [] then concat (map encode_tlv ss) else v"
  have kids: "read_list (concat (map encode_tlv ss)) True = map tlv_filled ss"
    using read_list_concat [of ss "[]"] TLV by (simp add: list_all_iff)
  have "concat (map encode_tlv ss) \<noteq> []" if "ss \<noteq> []"
    using that by (cases ss) simp_all
  moreover have "read_list (tlv_encode t ?body @ rest) True =
      TLV t ?body (if first_tag_byte t AND 0x20 \<noteq> 0 \<and> ?body \<noteq> [] then read_list ?body True else [])
      # read_list rest True"
    using TLV.prems by (subst read_list_encode_step) simp_all
  ultimately show ?case
    using TLV.prems kids by (cases "ss = []") auto
qed

lemma read_list_encode_all:
  "list_all wf_tlv ts \<Longrightarrow> read_list (concat (map encode_tlv ts)) True = map tlv_filled ts"
  using read_list_concat [of ts "[]"] by (simp add: read_list_encode_tlv list_all_iff)

text \<open>One object at the front of any bytes.\<close>

lemma read_single_encode_tlv:
  assumes "wf_tlv t"
  shows "read_single (encode_tlv t @ rest) True = Ok (tlv_filled t, rest)"
proof (cases t)
  case (TLV tag v ss)
  let ?body = "if ss \<noteq> [] then concat (map encode_tlv ss) else v"
  have head: "read_head (tlv_encode tag ?body @ rest) = Ok (tag, ?body, rest)"
    using assms TLV by (intro read_head_encode) simp_all
  have "read_list (concat (map encode_tlv ss)) True = map tlv_filled ss"
    using assms TLV by (intro read_list_encode_all) simp
  moreover have "concat (map encode_tlv ss) \<noteq> []" if "ss \<noteq> []"
    using that by (cases ss) simp_all
  ultimately show ?thesis
    using assms TLV head by (cases "ss = []") (auto simp: read_single_def)
qed

section \<open>Searches are depth first\<close>

fun tlv_preorder :: "TLV \<Rightarrow> TLV list" where
  "tlv_preorder (TLV t v ss) = TLV t v ss # concat (map tlv_preorder ss)"

lemma find_append:
  "List.find P (xs @ ys) = (case List.find P xs of Some x \<Rightarrow> Some x | None \<Rightarrow> List.find P ys)"
  by (induction xs) simp_all

lemma tlv_find_preorder:
  "tlv_find tag t = List.find (\<lambda>x. tlv_tag x = tag) (tlv_preorder t)"
  "tlv_find_in tag ts = List.find (\<lambda>x. tlv_tag x = tag) (concat (map tlv_preorder ts))"
  by (induction tag t and tag ts rule: tlv_find_tlv_find_in.induct)
    (simp_all add: find_append split: option.splits)

section \<open>Properties\<close>

text \<open>
  C18: a list of well-formed trees is read back from its encoding, in order, with the encoded children
  as the value of each composite object (\<open>tlv_filled\<close>); when other bytes follow, the trees come
  first and what is read of the other bytes after them; and \<open>read_single\<close> on the encoding of one of
  the trees with any bytes behind it returns the tree and exactly these bytes. Well formed
  (\<open>wf_tlv\<close>) means: every tag is one the tag codec reads back and does not start with the filler
  bytes 00 or FF, exactly the objects with children have a constructed tag (one without children and
  without a value may have it too), and the encoded contents are shorter than 2^32 bytes.
\<close>

theorem tlv_roundtrip:
  assumes "list_all wf_tlv ts"
  shows "tlv_parser_parse (concat (map encode_tlv ts)) = Ok (map tlv_filled ts) \<and>
    (\<exists>us. tlv_parser_parse rest = Ok us \<and>
       tlv_parser_parse (concat (map encode_tlv ts) @ rest) = Ok (map tlv_filled ts @ us)) \<and>
    list_all (\<lambda>t. read_single (encode_tlv t @ rest) True = Ok (tlv_filled t, rest)) ts"
  using assms read_list_concat [of ts rest]
  by (simp add: tlv_parser_parse_def read_list_encode_all read_list_encode_tlv read_single_encode_tlv list_all_iff)

theorem tlv_roundtrip_witness:
  "tlv_parser_parse (encode_tlv (TLV 0x65 [] [TLV 0x5B [1, 2] [], TLV 0x5F2D [3] []])) =
     Ok [TLV 0x65 [0x5B, 2, 1, 2, 0x5F, 0x2D, 1, 3] [TLV 0x5B [1, 2] [], TLV 0x5F2D [3] []]] \<and>
   read_single (encode_tlv (TLV 0x65 [] [TLV 0x5B [1, 2] [], TLV 0x5F2D [3] []]) @ [0x90, 0x00]) True =
     Ok (TLV 0x65 [0x5B, 2, 1, 2, 0x5F, 0x2D, 1, 3] [TLV 0x5B [1, 2] [], TLV 0x5F2D [3] []], [0x90, 0x00])"
proof -
  let ?t = "TLV 0x65 [] [TLV 0x5B [1, 2] [], TLV 0x5F2D [3] []]"
  have "list_all wf_tlv [?t]"
    by (simp add: wf_tag_def first_tag_byte_def encode_tag_def encode_length_def tlv_encode_def Let_def)
  from tlv_roundtrip [OF this, of "[0x90, 0x00]"]
  have "tlv_parser_parse (encode_tlv ?t) = Ok [tlv_filled ?t]"
    "read_single (encode_tlv ?t @ [0x90, 0x00]) True = Ok (tlv_filled ?t, [0x90, 0x00])" by simp_all
  then show ?thesis
    by (simp add: encode_tag_def encode_length_def tlv_encode_def Let_def)
qed

text \<open>
  The parser invents nothing: a parsed object is a header of two to eight bytes, its value and
  the unread rest, which together are the input; so it never reads past the end of its input.
\<close>

theorem read_single_splits_input:
  assumes "read_single d r = Ok (t, rest)"
  shows "\<exists>hdr. d = hdr @ tlv_value t @ rest \<and> 2 \<le> length hdr \<and> length hdr \<le> 8"
  using assms read_head_split
  by (fastforce simp: read_single_def split: sum.splits prod.splits)

theorem read_single_splits_input_witness:
  "\<exists>t rest hdr. read_single [0x5B, 2, 7, 8, 9] True = Ok (t, rest) \<and>
     [0x5B, 2, 7, 8, 9] = hdr @ tlv_value t @ rest \<and> length hdr \<le> 8"
proof -
  have "read_single [0x5B, 2, 7, 8, 9] True = Ok (TLV 0x5B [7, 8] [], [9])"
    by (simp add: read_single_def read_head_def parse_tag_def parse_length_def first_tag_byte_def Let_def)
  with read_single_splits_input [OF this] show ?thesis by blast
qed

text \<open>\<open>find_tag\<close> returns the first object with the tag in depth-first order, the root included.\<close>

theorem find_tag_is_first_in_preorder:
  "find_tag tag t = List.find (\<lambda>x. tlv_tag x = ucast tag) (tlv_preorder t)"
  by (simp add: find_tag_def tlv_find_preorder)

end
