(* ===== verification/Apdu.thy ===== *)
theory Apdu
  imports Jc_Prelude
begin

text \<open>
  Command and response APDUs: \<^verbatim>\<open>ifd-jcecard/src/apdu/mod.rs\<close> (the struct \<open>APDU\<close> and its parser),
  \<^verbatim>\<open>response.rs\<close> (the struct \<open>Response\<close>) and \<^verbatim>\<open>status.rs\<close> (status words). Slices are only taken
  after the length tests of the code, which are kept, so \<open>take\<close>, \<open>drop\<close> and \<open>!\<close> never read past
  the end.

  The lemmas show that the parser reads every ISO 7816-4 encoding of a command (all four cases,
  short and extended) back, and that responses and status words agree with each other.
\<close>

unbundle bit_operations_syntax

section \<open>Status words\<close>

definition SW_SUCCESS :: u16 where "SW_SUCCESS = 0x9000"
definition SW_EXEC_ERROR :: u16 where "SW_EXEC_ERROR = 0x6400"
definition SW_WRONG_LENGTH :: u16 where "SW_WRONG_LENGTH = 0x6700"
definition SW_SECURITY_STATUS_NOT_SATISFIED :: u16 where "SW_SECURITY_STATUS_NOT_SATISFIED = 0x6982"
definition SW_AUTH_METHOD_BLOCKED :: u16 where "SW_AUTH_METHOD_BLOCKED = 0x6983"
definition SW_CONDITIONS_NOT_SATISFIED :: u16 where "SW_CONDITIONS_NOT_SATISFIED = 0x6985"
definition SW_WRONG_DATA :: u16 where "SW_WRONG_DATA = 0x6A80"
definition SW_FUNCTION_NOT_SUPPORTED :: u16 where "SW_FUNCTION_NOT_SUPPORTED = 0x6A81"
definition SW_FILE_NOT_FOUND :: u16 where "SW_FILE_NOT_FOUND = 0x6A82"
definition SW_REFERENCED_DATA_NOT_FOUND :: u16 where "SW_REFERENCED_DATA_NOT_FOUND = 0x6A88"
definition SW_WRONG_P1_P2 :: u16 where "SW_WRONG_P1_P2 = 0x6B00"
definition SW_INS_NOT_SUPPORTED :: u16 where "SW_INS_NOT_SUPPORTED = 0x6D00"

lemmas SW_defs = SW_SUCCESS_def SW_EXEC_ERROR_def SW_WRONG_LENGTH_def
  SW_SECURITY_STATUS_NOT_SATISFIED_def SW_AUTH_METHOD_BLOCKED_def SW_CONDITIONS_NOT_SATISFIED_def
  SW_WRONG_DATA_def SW_FUNCTION_NOT_SUPPORTED_def SW_FILE_NOT_FOUND_def
  SW_REFERENCED_DATA_NOT_FOUND_def SW_WRONG_P1_P2_def SW_INS_NOT_SUPPORTED_def

definition sw_bytes_remaining :: "byte \<Rightarrow> u16" where
  "sw_bytes_remaining remaining = 0x6100 OR ucast remaining"

definition sw_counter_warning :: "byte \<Rightarrow> u16" where
  "sw_counter_warning retries = 0x63C0 OR ucast (retries AND 0x0F)"

definition sw_wrong_le :: "byte \<Rightarrow> u16" where
  "sw_wrong_le correct_le = 0x6C00 OR ucast correct_le"

definition sw_is_success :: "u16 \<Rightarrow> bool" where
  "sw_is_success w \<longleftrightarrow> w = SW_SUCCESS \<or> w AND 0xFF00 = 0x6100"

definition sw_is_more_data :: "u16 \<Rightarrow> bool" where
  "sw_is_more_data w \<longleftrightarrow> w AND 0xFF00 = 0x6100"

definition sw_is_counter_warning :: "u16 \<Rightarrow> bool" where
  "sw_is_counter_warning w \<longleftrightarrow> w AND 0xFFF0 = 0x63C0"

definition sw_get_retry_count :: "u16 \<Rightarrow> byte option" where
  "sw_get_retry_count w = (if sw_is_counter_warning w then Some (ucast (w AND 0x0F)) else None)"

section \<open>Responses\<close>

record response =
  resp_data :: "byte list"
  resp_sw1 :: byte
  resp_sw2 :: byte

definition response_new :: "byte list \<Rightarrow> u16 \<Rightarrow> response" where
  "response_new d w = \<lparr>resp_data = d, resp_sw1 = ucast (drop_bit 8 w), resp_sw2 = ucast w\<rparr>"

definition response_success :: "byte list \<Rightarrow> response" where
  "response_success d = response_new d SW_SUCCESS"

definition response_ok :: response where
  "response_ok = response_success []"

definition response_error :: "u16 \<Rightarrow> response" where
  "response_error w = response_new [] w"

definition response_more_data :: "byte list \<Rightarrow> byte \<Rightarrow> response" where
  "response_more_data d remaining = response_new d (sw_bytes_remaining remaining)"

definition response_counter_warning :: "byte \<Rightarrow> response" where
  "response_counter_warning retries = response_error (sw_counter_warning retries)"

definition is_okay :: "response \<Rightarrow> bool" where
  "is_okay r \<longleftrightarrow> (resp_sw1 r = 0x90 \<and> resp_sw2 r = 0x00) \<or> resp_sw1 r = 0x61"

definition resp_sw :: "response \<Rightarrow> u16" where
  "resp_sw r = push_bit 8 (ucast (resp_sw1 r)) OR ucast (resp_sw2 r)"

definition available_response :: "response \<Rightarrow> byte option" where
  "available_response r = (if resp_sw1 r = 0x61 then Some (resp_sw2 r) else None)"

definition get_data :: "response \<Rightarrow> byte list" where
  "get_data r = resp_data r"

definition to_bytes :: "response \<Rightarrow> byte list" where
  "to_bytes r = resp_data r @ [resp_sw1 r] @ [resp_sw2 r]"

definition response_len :: "response \<Rightarrow> nat" where
  "response_len r = length (resp_data r) + 2"

definition response_is_empty :: "response \<Rightarrow> bool" where
  "response_is_empty r \<longleftrightarrow> resp_data r = []"

section \<open>Commands\<close>

datatype apdu_error =
    TooShort nat
  | InvalidApduLength
  | InvalidExtendedFormat

record apdu =
  cla :: byte
  ins :: byte
  p1 :: byte
  p2 :: byte
  cmd_data :: "byte list"
  le :: "u32 option"

definition apdu_new :: "byte \<Rightarrow> byte \<Rightarrow> byte \<Rightarrow> byte \<Rightarrow> apdu" where
  "apdu_new c i a b = \<lparr>cla = c, ins = i, p1 = a, p2 = b, cmd_data = [], le = None\<rparr>"

definition apdu_with_data :: "byte \<Rightarrow> byte \<Rightarrow> byte \<Rightarrow> byte \<Rightarrow> byte list \<Rightarrow> apdu" where
  "apdu_with_data c i a b d = \<lparr>cla = c, ins = i, p1 = a, p2 = b, cmd_data = d, le = None\<rparr>"

definition is_chained :: "apdu \<Rightarrow> bool" where
  "is_chained cmd \<longleftrightarrow> cla cmd AND 0x10 \<noteq> 0"

definition p1p2 :: "apdu \<Rightarrow> u16" where
  "p1p2 cmd = push_bit 8 (ucast (p1 cmd)) OR ucast (p2 cmd)"

section \<open>Parser\<close>

text \<open>A Le of zero stands for the largest value its field can express.\<close>

definition le_of_byte :: "byte \<Rightarrow> u32" where
  "le_of_byte b = (if b = 0 then 256 else ucast b)"

definition le_of_word :: "u32 \<Rightarrow> u32" where
  "le_of_word w = (if w = 0 then 65536 else w)"

definition parse_short_apdu ::
  "byte \<Rightarrow> byte \<Rightarrow> byte \<Rightarrow> byte \<Rightarrow> byte list \<Rightarrow> apdu_error + apdu" where
  "parse_short_apdu c i a b remaining =
     (if remaining = [] then Ok (apdu_new c i a b)
      else let first_byte = remaining ! 0 in
        if length remaining = 1 then
          (let l = le_of_byte first_byte in
           Ok \<lparr>cla = c, ins = i, p1 = a, p2 = b, cmd_data = [], le = Some l\<rparr>)
        else let lc = unat first_byte in
          if length remaining = 1 + lc then
            Ok \<lparr>cla = c, ins = i, p1 = a, p2 = b, cmd_data = take lc (drop 1 remaining), le = None\<rparr>
          else if length remaining = 1 + lc + 1 then
            (let le_byte = remaining ! (1 + lc);
                 l = le_of_byte le_byte in
             Ok \<lparr>cla = c, ins = i, p1 = a, p2 = b, cmd_data = take lc (drop 1 remaining), le = Some l\<rparr>)
          else Err InvalidApduLength)"

definition be_word :: "byte \<Rightarrow> byte \<Rightarrow> u32" where
  "be_word x y = push_bit 8 (ucast x) OR ucast y"

definition parse_extended_apdu ::
  "byte \<Rightarrow> byte \<Rightarrow> byte \<Rightarrow> byte \<Rightarrow> byte list \<Rightarrow> apdu_error + apdu" where
  "parse_extended_apdu c i a b remaining =
     (if length remaining < 2 then Err InvalidExtendedFormat
      else let first_word = be_word (remaining ! 0) (remaining ! 1) in
        if length remaining = 2 then
          (let l = le_of_word first_word in
           Ok \<lparr>cla = c, ins = i, p1 = a, p2 = b, cmd_data = [], le = Some l\<rparr>)
        else let lc = unat first_word in
          if length remaining < 2 + lc then Err InvalidApduLength
          else let d = take lc (drop 2 remaining) in
            if length remaining = 2 + lc then
              Ok \<lparr>cla = c, ins = i, p1 = a, p2 = b, cmd_data = d, le = None\<rparr>
            else if length remaining = 2 + lc + 2 then
              (let le_word = be_word (remaining ! (2 + lc)) (remaining ! (2 + lc + 1));
                   l = le_of_word le_word in
               Ok \<lparr>cla = c, ins = i, p1 = a, p2 = b, cmd_data = d, le = Some l\<rparr>)
            else Err InvalidExtendedFormat)"

definition parse_apdu :: "byte list \<Rightarrow> apdu_error + apdu" where
  "parse_apdu d =
     (if length d < 4 then Err (TooShort (length d))
      else let c = d ! 0; i = d ! 1; a = d ! 2; b = d ! 3 in
        if length d = 4 then Ok (apdu_new c i a b)
        else let remaining = drop 4 d in
          if remaining \<noteq> [] \<and> remaining ! 0 = 0x00 \<and> length remaining > 2 then
            (let ext_remaining = drop 1 remaining in
             if length ext_remaining \<ge> 2 then
               (let potential_lc = unat (be_word (ext_remaining ! 0) (ext_remaining ! 1));
                    is_valid_extended =
                      (length ext_remaining = 2
                       \<or> length ext_remaining = 2 + potential_lc
                       \<or> length ext_remaining = 2 + potential_lc + 2) in
                if is_valid_extended then parse_extended_apdu c i a b ext_remaining
                else case parse_short_apdu c i a b ext_remaining of
                  Ok cmd \<Rightarrow> Ok cmd
                | Err _ \<Rightarrow> parse_short_apdu c i a b remaining)
             else parse_short_apdu c i a b remaining)
          else parse_short_apdu c i a b remaining)"

section \<open>Instruction bytes\<close>

definition INS_SELECT :: byte where "INS_SELECT = 0xA4"
definition INS_GET_DATA :: byte where "INS_GET_DATA = 0xCA"
definition INS_VERIFY :: byte where "INS_VERIFY = 0x20"
definition INS_CHANGE_REFERENCE_DATA :: byte where "INS_CHANGE_REFERENCE_DATA = 0x24"
definition INS_RESET_RETRY_COUNTER :: byte where "INS_RESET_RETRY_COUNTER = 0x2C"
definition INS_PUT_DATA :: byte where "INS_PUT_DATA = 0xDA"
definition INS_PUT_DATA_ODD :: byte where "INS_PUT_DATA_ODD = 0xDB"
definition INS_GENERATE_ASYMMETRIC_KEY_PAIR :: byte where "INS_GENERATE_ASYMMETRIC_KEY_PAIR = 0x47"
definition INS_PSO :: byte where "INS_PSO = 0x2A"
definition INS_INTERNAL_AUTHENTICATE :: byte where "INS_INTERNAL_AUTHENTICATE = 0x88"
definition INS_GET_CHALLENGE :: byte where "INS_GET_CHALLENGE = 0x84"
definition INS_GET_RESPONSE :: byte where "INS_GET_RESPONSE = 0xC0"
definition INS_TERMINATE_DF :: byte where "INS_TERMINATE_DF = 0xE6"
definition INS_ACTIVATE_FILE :: byte where "INS_ACTIVATE_FILE = 0x44"

lemmas INS_defs = INS_SELECT_def INS_GET_DATA_def INS_VERIFY_def INS_CHANGE_REFERENCE_DATA_def
  INS_RESET_RETRY_COUNTER_def INS_PUT_DATA_def INS_PUT_DATA_ODD_def
  INS_GENERATE_ASYMMETRIC_KEY_PAIR_def INS_PSO_def INS_INTERNAL_AUTHENTICATE_def
  INS_GET_CHALLENGE_def INS_GET_RESPONSE_def INS_TERMINATE_DF_def INS_ACTIVATE_FILE_def

definition PSO_CDS :: u16 where "PSO_CDS = 0x9E9A"
definition PSO_DECIPHER :: u16 where "PSO_DECIPHER = 0x8086"


section \<open>ISO 7816-4 encodings of a command\<close>

text \<open>
  The encodings the standard defines: \<open>ext\<close> chooses extended length fields. A command without
  data and without Le has no length field. Le 256 (short) and 65536 (extended) are sent as 0.
\<close>

definition iso_body :: "bool \<Rightarrow> byte list \<Rightarrow> u32 option \<Rightarrow> byte list" where
  "iso_body ext d l =
     (if d = [] then []
      else (if ext then 0 # be_bytes16 (of_nat (length d)) else [of_nat (length d)]) @ d) @
     (case l of
        None \<Rightarrow> []
      | Some x \<Rightarrow>
          (if ext then (if d = [] then [0] else []) @ be_bytes16 (ucast x) else [ucast x]))"

definition iso_encode :: "bool \<Rightarrow> apdu \<Rightarrow> byte list" where
  "iso_encode ext c = [cla c, ins c, p1 c, p2 c] @ iso_body ext (cmd_data c) (le c)"

definition iso_fits :: "bool \<Rightarrow> apdu \<Rightarrow> bool" where
  "iso_fits ext c \<longleftrightarrow>
     length (cmd_data c) \<le> (if ext then 65535 else 255) \<and>
     (case le c of None \<Rightarrow> True | Some x \<Rightarrow> 1 \<le> x \<and> x \<le> (if ext then 65536 else 256))"

lemma unat_be_word: "unat (be_word a b) = 256 * unat a + unat b"
proof -
  have "be_word a b = push_bit 8 (ucast a) + ucast b"
    unfolding be_word_def
    by (rule disjunctive_add [symmetric]) (auto simp: bit_simps dest: bit_imp_le_length)
  then show ?thesis
    using unat_u8_less [of a] unat_u8_less [of b]
    by (simp add: push_bit_eq_mult unat_word_ariths unsigned_ucast_eq take_bit_eq_mod)
qed

lemma unat_be_word_bytes: "unat (be_word (ucast (drop_bit 8 w)) (ucast w)) = unat (w :: u16)"
  using unat_from_be16 [of "ucast (drop_bit 8 w)" "ucast w"]
  by (simp add: unat_be_word from_be16_bytes)

lemma le_of_byte_ucast: "1 \<le> x \<Longrightarrow> x \<le> 256 \<Longrightarrow> le_of_byte (ucast x) = x"
proof -
  assume x: "1 \<le> x" "x \<le> 256"
  have b: "unat (ucast x :: byte) = unat x mod 256"
    by (simp only: unsigned_ucast_eq take_bit_eq_mod) simp
  have w: "unat (ucast (ucast x :: byte) :: u32) = unat x mod 256"
    by (simp only: unat_byte_u32 b)
  show ?thesis
  proof (cases "unat x = 256")
    case True
    then have "x = 256" by (simp add: word_unat_eq_iff)
    then show ?thesis by (simp add: le_of_byte_def)
  next
    case False
    then have "unat x mod 256 = unat x" "unat x \<noteq> 0"
      using x by (simp_all add: word_le_nat_alt)
    then have "(ucast x :: byte) \<noteq> 0" "(ucast (ucast x :: byte) :: u32) = x"
      using b w by (metis unsigned_0, simp only: word_unat_eq_iff)
    then show ?thesis by (simp only: le_of_byte_def if_False)
  qed
qed

lemma le_of_word_bytes:
  assumes "1 \<le> x" "x \<le> 65536"
  shows "le_of_word (be_word (ucast (drop_bit 8 (ucast x :: u16))) (ucast (ucast x :: u16))) = x"
proof -
  have w: "unat (be_word (ucast (drop_bit 8 (ucast x :: u16))) (ucast (ucast x :: u16))) = unat x mod 65536"
    unfolding unat_be_word_bytes by (simp only: unsigned_ucast_eq take_bit_eq_mod) simp
  show ?thesis
  proof (cases "unat x = 65536")
    case True
    with w show ?thesis by (simp add: le_of_word_def word_unat_eq_iff)
  next
    case False
    then have "unat x mod 65536 = unat x" "unat x \<noteq> 0"
      using assms by (simp_all add: word_le_nat_alt)
    with w show ?thesis by (simp add: le_of_word_def word_unat_eq_iff)
  qed
qed

lemma parse_short_iso:
  assumes "length d \<le> 255" "case l of None \<Rightarrow> True | Some x \<Rightarrow> 1 \<le> x \<and> x \<le> 256"
  shows "parse_short_apdu c i a b (iso_body False d l) =
     Ok \<lparr>cla = c, ins = i, p1 = a, p2 = b, cmd_data = d, le = l\<rparr>"
proof (cases "d = []")
  case True
  with assms show ?thesis
    by (auto simp: parse_short_apdu_def iso_body_def apdu_new_def Let_def le_of_byte_ucast
        split: option.splits)
next
  case False
  have "unat (of_nat (length d) :: byte) = length d"
    using assms(1) by (simp add: unat_of_nat_u8)
  with False assms show ?thesis
    by (auto simp: parse_short_apdu_def iso_body_def Let_def nth_append le_of_byte_ucast
        split: option.splits)
qed

lemma parse_extended_iso:
  assumes "length d \<le> 65535" "case l of None \<Rightarrow> d \<noteq> [] | Some x \<Rightarrow> 1 \<le> x \<and> x \<le> 65536"
  shows "parse_extended_apdu c i a b (tl (iso_body True d l)) =
     Ok \<lparr>cla = c, ins = i, p1 = a, p2 = b, cmd_data = d, le = l\<rparr>"
proof (cases "d = []")
  case True
  with assms obtain x where "l = Some x" "1 \<le> x" "x \<le> 65536" by (auto split: option.splits)
  with True show ?thesis
    by (simp add: parse_extended_apdu_def iso_body_def Let_def be_bytes16_def le_of_word_bytes)
next
  case False
  have "unat (of_nat (length d) :: u16) = length d"
    using assms(1) by (simp add: unat_of_nat_u16)
  with False assms show ?thesis
    by (auto simp: parse_extended_apdu_def iso_body_def Let_def nth_append be_bytes16_def
        unat_be_word_bytes le_of_word_bytes split: option.splits)
qed


lemma parse_apdu_iso:
  assumes "iso_fits ext c"
  shows "parse_apdu (iso_encode ext c) = Ok c"
proof -
  define body where "body = iso_body ext (cmd_data c) (le c)"
  have enc: "iso_encode ext c = [cla c, ins c, p1 c, p2 c] @ body"
    by (simp add: iso_encode_def body_def)
  have fields: "\<lparr>cla = cla c, ins = ins c, p1 = p1 c, p2 = p2 c, cmd_data = cmd_data c, le = le c\<rparr> = c"
    by simp
  show ?thesis
  proof (cases "body = []")
    case True
    then have "cmd_data c = []" "le c = None"
      by (auto simp: body_def iso_body_def be_bytes16_def split: if_splits option.splits)
    then show ?thesis
      using fields by (simp add: enc True parse_apdu_def apdu_new_def)
  next
    case body: False
    show ?thesis
    proof (cases ext)
      case False
      have "(body ! 0 = 0 \<and> length body > 2) = False"
        using assms False
        by (auto simp: body_def iso_body_def iso_fits_def word_unat_eq_iff unat_of_nat_u8
            split: if_splits option.splits)
      moreover have "parse_short_apdu (cla c) (ins c) (p1 c) (p2 c) body = Ok c"
        using parse_short_iso [of "cmd_data c" "le c"] assms False fields
        by (simp add: body_def iso_fits_def cong: option.case_cong)
      ultimately show ?thesis
        using body by (cases body) (auto simp: enc parse_apdu_def Let_def)
    next
      case True
      have n: "unat (of_nat (length (cmd_data c)) :: u16) = length (cmd_data c)"
        using assms True by (simp add: iso_fits_def unat_of_nat_u16)
      have "body ! 0 = 0" "length body > 2"
        and valid: "length (tl body) = 2 \<or> length (tl body) = 2 + unat (be_word (tl body ! 0) (tl body ! 1))
          \<or> length (tl body) = 2 + unat (be_word (tl body ! 0) (tl body ! 1)) + 2"
        using body True n
        by (auto simp: body_def iso_body_def be_bytes16_def unat_be_word_bytes
            split: if_splits option.splits)
      moreover have "le c = None \<Longrightarrow> cmd_data c \<noteq> []"
        using body by (auto simp: body_def iso_body_def)
      then have "parse_extended_apdu (cla c) (ins c) (p1 c) (p2 c) (tl body) = Ok c"
        using parse_extended_iso [of "cmd_data c" "le c"] assms True fields
        by (auto simp: body_def iso_fits_def split: option.splits)
      ultimately show ?thesis
        using body by (auto simp: enc parse_apdu_def Let_def drop_Suc)
    qed
  qed
qed

section \<open>What a parsed command can be\<close>

lemma le_of_byte_bounds: "1 \<le> le_of_byte b \<and> le_of_byte b \<le> 65536"
proof (cases "b = 0")
  case False
  then have "unat b \<noteq> 0" by (simp add: unsigned_eq_0_iff)
  with False show ?thesis
    using unat_u8_less [of b] unat_byte_u32 [of b]
    by (simp add: le_of_byte_def word_le_nat_alt)
qed (simp add: le_of_byte_def)

lemma le_of_word_bounds: "1 \<le> le_of_word (be_word a b) \<and> le_of_word (be_word a b) \<le> 65536"
  using unat_be_word [of a b] unat_u8_less [of a] unat_u8_less [of b]
  by (auto simp: le_of_word_def word_le_nat_alt word_unat_eq_iff)

lemma parse_short_result:
  assumes "parse_short_apdu c i a b r = Ok cmd"
  shows "cla cmd = c \<and> ins cmd = i \<and> p1 cmd = a \<and> p2 cmd = b \<and> length (cmd_data cmd) \<le> 65535 \<and>
    pred_option (\<lambda>l. 1 \<le> l \<and> l \<le> 65536) (le cmd)"
proof -
  have "unat x \<le> 65535" for x :: byte
    using unat_u8_less [of x] by simp
  with assms show ?thesis
    using le_of_byte_bounds
    by (auto simp: parse_short_apdu_def apdu_new_def Let_def split: if_splits)
qed

lemma parse_extended_result:
  assumes "parse_extended_apdu c i a b r = Ok cmd"
  shows "cla cmd = c \<and> ins cmd = i \<and> p1 cmd = a \<and> p2 cmd = b \<and> length (cmd_data cmd) \<le> 65535 \<and>
    pred_option (\<lambda>l. 1 \<le> l \<and> l \<le> 65536) (le cmd)"
proof -
  have "unat (be_word x y) \<le> 65535" for x y
    using unat_u8_less [of x] unat_u8_less [of y] by (simp add: unat_be_word)
  with assms show ?thesis
    using le_of_word_bounds
    by (auto simp: parse_extended_apdu_def Let_def split: if_splits)
qed

lemma parse_apdu_result:
  assumes "parse_apdu d = Ok cmd"
  shows "4 \<le> length d \<and> [cla cmd, ins cmd, p1 cmd, p2 cmd] = take 4 d \<and>
    length (cmd_data cmd) \<le> 65535 \<and> pred_option (\<lambda>l. 1 \<le> l \<and> l \<le> 65536) (le cmd)"
proof -
  have len: "4 \<le> length d"
    using assms by (auto simp: parse_apdu_def split: if_splits)
  then obtain c i a b r where d: "d = c # i # a # b # r"
    by (auto simp: numeral_eq_Suc Suc_le_length_iff)
  have "cla cmd = c \<and> ins cmd = i \<and> p1 cmd = a \<and> p2 cmd = b \<and> length (cmd_data cmd) \<le> 65535 \<and>
    pred_option (\<lambda>l. 1 \<le> l \<and> l \<le> 65536) (le cmd)"
    using assms unfolding d
    by (auto simp: parse_apdu_def Let_def apdu_new_def split: if_splits sum.splits
        dest: parse_short_result parse_extended_result)
  with len show ?thesis by (simp add: d)
qed

text \<open>Extended parsing is only entered when the lengths agree, so its format error never appears.\<close>

lemma parse_extended_valid:
  assumes "length r = 2 \<or> length r = 2 + unat (be_word (r ! 0) (r ! 1))
    \<or> length r = 2 + unat (be_word (r ! 0) (r ! 1)) + 2"
  shows "\<exists>cmd. parse_extended_apdu c i a b r = Ok cmd"
  using assms by (auto simp: parse_extended_apdu_def Let_def)

lemma parse_short_error: "parse_short_apdu c i a b r = Err e \<Longrightarrow> e = InvalidApduLength"
  by (auto simp: parse_short_apdu_def Let_def split: if_splits)

lemma parse_apdu_error:
  assumes "parse_apdu d = Err e"
  shows "(length d < 4 \<and> e = TooShort (length d)) \<or> (5 \<le> length d \<and> e = InvalidApduLength)"
proof (cases "length d < 4")
  case True
  with assms show ?thesis by (simp add: parse_apdu_def)
next
  case False
  then obtain c i a b r where d: "d = c # i # a # b # r"
    by (auto simp: numeral_eq_Suc Suc_le_length_iff not_less)
  show ?thesis
  proof (cases r)
    case Nil
    with assms d show ?thesis by (simp add: parse_apdu_def)
  next
    case (Cons x xs)
    have "parse_extended_apdu c i a b q \<noteq> Err e"
      if "length q = 2 \<or> length q = 2 + unat (be_word (q ! 0) (q ! 1))
        \<or> length q = 2 + unat (be_word (q ! 0) (q ! 1)) + 2" for q
      using parse_extended_valid [OF that, of c i a b] by auto
    then have "parse_short_apdu c i a b (x # xs) = Err e"
      using assms by (auto simp: d Cons parse_apdu_def Let_def split: if_splits sum.splits)
    then show ?thesis
      by (auto simp: d Cons dest: parse_short_error)
  qed
qed

section \<open>Responses and status words\<close>

lemma resp_sw_new: "resp_sw (response_new d w) = w"
  using from_be16_bytes [of w] by (simp add: resp_sw_def response_new_def from_be16_def)

lemma resp_sw_from_be16: "resp_sw r = from_be16 (resp_sw1 r) (resp_sw2 r)"
  by (simp add: resp_sw_def from_be16_def)

lemma high_byte_mask: "from_be16 a b AND 0xFF00 = from_be16 a 0"
proof -
  have m: "(0xFF00 :: u16) = push_bit 8 (mask 8)"
    by (simp add: mask_eq_decr_exp)
  show ?thesis
    unfolding m from_be16_def
    by (rule bit_word_eqI) (auto simp: bit_simps dest: bit_imp_le_length)
qed

lemma is_okay_iff: "is_okay r \<longleftrightarrow> sw_is_success (resp_sw r)"
proof -
  have s: "(0x9000 :: u16) = from_be16 0x90 0" "(0x6100 :: u16) = from_be16 0x61 0"
    by (simp_all add: from_be16_def)
  show ?thesis
    unfolding is_okay_def sw_is_success_def SW_SUCCESS_def resp_sw_from_be16 high_byte_mask s
      from_be16_eq_iff
    by simp
qed

lemma to_bytes_new: "to_bytes (response_new d w) = d @ be_bytes16 w"
  by (simp add: to_bytes_def response_new_def be_bytes16_def)

lemma to_bytes_eq_iff: "to_bytes r = to_bytes s \<longleftrightarrow> r = s"
  by (cases r; cases s) (auto simp: to_bytes_def)

lemma resp_sw_simps [simp]:
  "resp_sw response_ok = SW_SUCCESS" "resp_sw (response_error w) = w"
  "resp_sw (response_success d) = SW_SUCCESS"
  "resp_sw (response_more_data d r) = sw_bytes_remaining r"
  "resp_sw (response_counter_warning n) = sw_counter_warning n"
  by (simp_all add: response_ok_def response_success_def response_error_def response_more_data_def
      response_counter_warning_def resp_sw_new)

lemma response_success_inj [simp]: "response_success c = response_success d \<longleftrightarrow> c = d"
  by (simp add: response_success_def response_new_def)

lemma counter_warning_not_success [simp]: "sw_counter_warning n \<noteq> SW_SUCCESS"
proof
  assume "sw_counter_warning n = SW_SUCCESS"
  then have "bit (sw_counter_warning n) 14 = bit SW_SUCCESS 14" by simp
  then show False
    by (simp add: sw_counter_warning_def SW_SUCCESS_def bit_simps)
qed

section \<open>Properties\<close>

text \<open>
  C19: every command that fits the chosen length fields is parsed back from its ISO 7816-4 encoding,
  short or extended, with or without data and Le: the seven cases of the standard.
\<close>

theorem apdu_roundtrip:
  assumes "iso_fits ext c"
  shows "parse_apdu (iso_encode ext c) = Ok c"
  by (rule parse_apdu_iso [OF assms])

theorem apdu_roundtrip_witness:
  "parse_apdu [0x00, 0xDA, 0x01, 0x02, 0x00, 0x00, 0x02, 0xAA, 0xBB, 0x00, 0x03] =
     Ok \<lparr>cla = 0x00, ins = 0xDA, p1 = 0x01, p2 = 0x02, cmd_data = [0xAA, 0xBB], le = Some 3\<rparr>"
  using apdu_roundtrip [of True "\<lparr>cla = 0x00, ins = 0xDA, p1 = 0x01, p2 = 0x02, cmd_data = [0xAA, 0xBB], le = Some 3\<rparr>"]
  by (simp add: iso_fits_def iso_encode_def iso_body_def be_bytes16_def)

text \<open>
  A parsed command has the header of its input, at most 65535 bytes of data, and an expected
  length between 1 and 65536 when it has one.
\<close>

theorem parsed_apdu_bounds:
  assumes "parse_apdu d = Ok cmd"
  shows "4 \<le> length d \<and> [cla cmd, ins cmd, p1 cmd, p2 cmd] = take 4 d \<and>
    length (cmd_data cmd) \<le> 65535 \<and> pred_option (\<lambda>l. 1 \<le> l \<and> l \<le> 65536) (le cmd)"
  by (rule parse_apdu_result [OF assms])

theorem parsed_apdu_bounds_witness:
  "\<exists>cmd. parse_apdu [0, 0xCA, 0, 0x6E, 0] = Ok cmd \<and> pred_option (\<lambda>l. 1 \<le> l \<and> l \<le> 65536) (le cmd)"
proof -
  have "parse_apdu [0, 0xCA, 0, 0x6E, 0] =
      Ok \<lparr>cla = 0, ins = 0xCA, p1 = 0, p2 = 0x6E, cmd_data = [], le = Some 256\<rparr>"
    by (simp add: parse_apdu_def parse_short_apdu_def le_of_byte_def Let_def)
  with parsed_apdu_bounds [OF this] show ?thesis by blast
qed

text \<open>
  C38: the parser fails in two ways only: fewer than four bytes give \<open>TooShort\<close> with the length, and
  longer inputs whose length fields do not fit give \<open>InvalidApduLength\<close>; the extended-format error of
  the code is never returned.
\<close>

theorem apdu_errors:
  assumes "parse_apdu d = Err e"
  shows "(length d < 4 \<and> e = TooShort (length d)) \<or> (5 \<le> length d \<and> e = InvalidApduLength)"
  by (rule parse_apdu_error [OF assms])

theorem apdu_errors_witness:
  "parse_apdu [1, 2, 3] = Err (TooShort 3) \<and>
   (length [1, 2, 3 :: byte] < 4 \<and> TooShort 3 = TooShort (length [1, 2, 3 :: byte]) \<or>
    5 \<le> length [1, 2, 3 :: byte] \<and> TooShort 3 = InvalidApduLength)"
proof -
  have "parse_apdu [1, 2, 3] = Err (TooShort 3)" by (simp add: parse_apdu_def)
  with apdu_errors [OF this] show ?thesis by blast
qed

text \<open>\<open>is_okay\<close> agrees with \<open>is_success\<close> of the status word: both accept exactly 9000 and 61xx.\<close>

lemma okay_is_success: "is_okay r \<longleftrightarrow> sw_is_success (resp_sw r)"
  by (rule is_okay_iff)

end
