(* ===== verification/Utf8.thy ===== *)
theory Utf8
  imports Jc_Prelude
begin

text \<open>
  Rust strings as the byte lists of their UTF-8 encoding, and the standard library's
  \<open>String::from_utf8_lossy\<close>, through which every string data object of the card passes when it is
  written (\<open>handle_put_data\<close>). \<open>utf8_next\<close> is one round of the library's decoder: whether the
  next sequence is well formed and how many bytes it takes. An ill-formed sequence is replaced,
  as a whole, by the encoding EF BF BD of the replacement character.
\<close>

definition is_cont :: "byte \<Rightarrow> bool" where
  "is_cont b \<longleftrightarrow> b AND 0xC0 = 0x80"

definition safe_get :: "byte list \<Rightarrow> nat \<Rightarrow> byte" where
  "safe_get bs i = (if i < length bs then bs ! i else 0)"

definition utf8_char_width :: "byte \<Rightarrow> nat" where
  "utf8_char_width b =
     (if b < 0x80 then 1
      else if b < 0xC2 then 0
      else if b < 0xE0 then 2
      else if b < 0xF0 then 3
      else if b < 0xF5 then 4
      else 0)"

definition second_of_3 :: "byte \<Rightarrow> byte \<Rightarrow> bool" where
  "second_of_3 b c \<longleftrightarrow>
     (b = 0xE0 \<and> 0xA0 \<le> c \<and> c \<le> 0xBF) \<or>
     (0xE1 \<le> b \<and> b \<le> 0xEC \<and> 0x80 \<le> c \<and> c \<le> 0xBF) \<or>
     (b = 0xED \<and> 0x80 \<le> c \<and> c \<le> 0x9F) \<or>
     (0xEE \<le> b \<and> b \<le> 0xEF \<and> 0x80 \<le> c \<and> c \<le> 0xBF)"

definition second_of_4 :: "byte \<Rightarrow> byte \<Rightarrow> bool" where
  "second_of_4 b c \<longleftrightarrow>
     (b = 0xF0 \<and> 0x90 \<le> c \<and> c \<le> 0xBF) \<or>
     (0xF1 \<le> b \<and> b \<le> 0xF3 \<and> 0x80 \<le> c \<and> c \<le> 0xBF) \<or>
     (b = 0xF4 \<and> 0x80 \<le> c \<and> c \<le> 0x8F)"

text \<open>\<open>bs\<close> are the bytes after the first byte \<open>b\<close>; the count excludes \<open>b\<close>.\<close>

definition utf8_next :: "byte \<Rightarrow> byte list \<Rightarrow> bool \<times> nat" where
  "utf8_next b bs =
     (if b < 0x80 then (True, 0)
      else if utf8_char_width b = 2 then
        (if is_cont (safe_get bs 0) then (True, 1) else (False, 0))
      else if utf8_char_width b = 3 then
        (if \<not> second_of_3 b (safe_get bs 0) then (False, 0)
         else if is_cont (safe_get bs 1) then (True, 2) else (False, 1))
      else if utf8_char_width b = 4 then
        (if \<not> second_of_4 b (safe_get bs 0) then (False, 0)
         else if \<not> is_cont (safe_get bs 1) then (False, 1)
         else if is_cont (safe_get bs 2) then (True, 3) else (False, 2))
      else (False, 0))"

definition REPLACEMENT :: "byte list" where
  "REPLACEMENT = [0xEF, 0xBF, 0xBD]"

function from_utf8_lossy :: "byte list \<Rightarrow> byte list" where
  "from_utf8_lossy [] = []"
| "from_utf8_lossy (b # bs) =
     (case utf8_next b bs of (ok, n) \<Rightarrow>
        (if ok then b # take n bs else REPLACEMENT) @ from_utf8_lossy (drop n bs))"
  by pat_completeness auto
termination by (relation "measure length") auto

function valid_utf8 :: "byte list \<Rightarrow> bool" where
  "valid_utf8 [] = True"
| "valid_utf8 (b # bs) =
     (case utf8_next b bs of (ok, n) \<Rightarrow> ok \<and> valid_utf8 (drop n bs))"
  by pat_completeness auto
termination by (relation "measure length") auto

section \<open>What the conversion keeps\<close>

lemma not_cont_0 [simp]: "\<not> is_cont 0" "\<not> second_of_3 b 0" "\<not> second_of_4 b 0"
  by (auto simp: is_cont_def second_of_3_def second_of_4_def)

lemma get_in_range:
  "is_cont (safe_get bs i) \<Longrightarrow> Suc i \<le> length bs"
  "second_of_3 b (safe_get bs i) \<Longrightarrow> Suc i \<le> length bs"
  "second_of_4 b (safe_get bs i) \<Longrightarrow> Suc i \<le> length bs"
  by (auto simp: safe_get_def Suc_le_eq split: if_splits)

lemma utf8_next_bound: "utf8_next b bs = (ok, n) \<Longrightarrow> n \<le> length bs"
  unfolding utf8_next_def
  by (simp split: if_splits; drule get_in_range; simp)

lemma safe_get_take: "n \<le> length bs \<Longrightarrow> i < n \<Longrightarrow> safe_get (take n bs @ cs) i = safe_get bs i"
  by (simp add: safe_get_def nth_append)

text \<open>A sequence accepted in front of some bytes is accepted in front of any others.\<close>

lemma utf8_next_append:
  assumes "utf8_next b bs = (True, n)"
  shows "utf8_next b (take n bs @ cs) = (True, n)"
proof -
  note get = safe_get_take [OF utf8_next_bound [OF assms], of _ cs]
  show ?thesis
    using assms get [of 0] get [of 1] get [of 2] unfolding utf8_next_def
    by (simp split: if_splits)
qed

lemma lossy_valid: "valid_utf8 s \<Longrightarrow> from_utf8_lossy s = s"
  by (induction s rule: valid_utf8.induct) (auto split: prod.splits)

lemma valid_append_next:
  assumes "utf8_next b bs = (True, n)" "valid_utf8 cs"
  shows "valid_utf8 (b # take n bs @ cs)"
  using utf8_next_append [OF assms(1)] utf8_next_bound [OF assms(1)] assms(2) by simp

lemma valid_replacement: "valid_utf8 cs \<Longrightarrow> valid_utf8 (REPLACEMENT @ cs)"
  by (simp add: REPLACEMENT_def utf8_next_def utf8_char_width_def second_of_3_def is_cont_def safe_get_def)

lemma valid_lossy: "valid_utf8 (from_utf8_lossy s)"
proof (induction s rule: from_utf8_lossy.induct)
  case (2 b bs)
  obtain ok n where n: "utf8_next b bs = (ok, n)" by fastforce
  then have "valid_utf8 (from_utf8_lossy (drop n bs))"
    using 2 by (metis)
  with n show ?case
    by (cases ok) (simp_all del: valid_utf8.simps add: valid_append_next valid_replacement)
qed simp

lemma valid_ascii: "list_all (\<lambda>b. b < 0x80) s \<Longrightarrow> valid_utf8 s"
  by (induction s) (auto simp: utf8_next_def)

lemma lossy_ascii: "list_all (\<lambda>b. b < 0x80) s \<Longrightarrow> from_utf8_lossy s = s"
  by (simp add: lossy_valid valid_ascii)

section \<open>Properties\<close>

text \<open>
  The lossy conversion returns well-formed UTF-8 for every input and changes nothing exactly on
  input that is well formed already.
\<close>

lemma lossy_is_normal_form:
  "valid_utf8 (from_utf8_lossy d) \<and> (from_utf8_lossy d = d \<longleftrightarrow> valid_utf8 d)"
  by (metis valid_lossy lossy_valid)

end
