(* ===== verification/Card_State.thy ===== *)
theory Card_State
  imports Jc_Prelude
begin

text \<open>
  The persistent card state (\<open>src/card/state.rs\<close>): algorithm attributes with their byte format,
  key slots, PIN data, cardholder data, and the data objects computed from the state (AID,
  historical bytes, capabilities, PW status, fingerprints, timestamps, signature counter).
  Strings are the byte lists of their UTF-8 encoding. The serde derivations are generated code:
  the JSON format is a parameter of the store (theory \<open>Card_Store\<close>).
\<close>

section \<open>Algorithm identifiers and curve OIDs\<close>

definition ALG_RSA :: byte where "ALG_RSA = 0x01"
definition ALG_ECDH :: byte where "ALG_ECDH = 0x12"
definition ALG_ECDSA :: byte where "ALG_ECDSA = 0x13"
definition ALG_EDDSA :: byte where "ALG_EDDSA = 0x16"

definition OID_NIST_P256 :: "byte list" where
  "OID_NIST_P256 = [0x2A, 0x86, 0x48, 0xCE, 0x3D, 0x03, 0x01, 0x07]"
definition OID_NIST_P384 :: "byte list" where
  "OID_NIST_P384 = [0x2B, 0x81, 0x04, 0x00, 0x22]"
definition OID_NIST_P521 :: "byte list" where
  "OID_NIST_P521 = [0x2B, 0x81, 0x04, 0x00, 0x23]"
definition OID_SECP256K1 :: "byte list" where
  "OID_SECP256K1 = [0x2B, 0x81, 0x04, 0x00, 0x0A]"
definition OID_ED25519 :: "byte list" where
  "OID_ED25519 = [0x2B, 0x06, 0x01, 0x04, 0x01, 0xDA, 0x47, 0x0F, 0x01]"
definition OID_X25519 :: "byte list" where
  "OID_X25519 = [0x2B, 0x06, 0x01, 0x04, 0x01, 0x97, 0x55, 0x01, 0x05, 0x01]"

lemmas ALG_defs = ALG_RSA_def ALG_ECDH_def ALG_ECDSA_def ALG_EDDSA_def
lemmas OID_defs = OID_NIST_P256_def OID_NIST_P384_def OID_NIST_P521_def OID_SECP256K1_def
  OID_ED25519_def OID_X25519_def

definition curve_name :: "byte list \<Rightarrow> string option" where
  "curve_name oid =
     (if oid = OID_NIST_P256 then Some ''nistp256''
      else if oid = OID_NIST_P384 then Some ''nistp384''
      else if oid = OID_NIST_P521 then Some ''nistp521''
      else if oid = OID_SECP256K1 then Some ''secp256k1''
      else if oid = OID_ED25519 then Some ''ed25519''
      else if oid = OID_X25519 then Some ''cv25519''
      else None)"

section \<open>Algorithm attributes\<close>

record algorithm_attributes =
  algorithm_id :: byte
  param1 :: u16
  param2 :: u16
  param3 :: byte
  curve_oid :: "byte list"

definition attrs_rsa :: "u16 \<Rightarrow> algorithm_attributes" where
  "attrs_rsa bits = \<lparr>algorithm_id = ALG_RSA, param1 = bits, param2 = 32, param3 = 0, curve_oid = []\<rparr>"

definition attrs_default :: algorithm_attributes where
  "attrs_default = attrs_rsa 2048"

definition attrs_ed25519 :: algorithm_attributes where
  "attrs_ed25519 =
     \<lparr>algorithm_id = ALG_EDDSA, param1 = 0, param2 = 0, param3 = 0, curve_oid = OID_ED25519\<rparr>"

definition attrs_x25519 :: algorithm_attributes where
  "attrs_x25519 =
     \<lparr>algorithm_id = ALG_ECDH, param1 = 0, param2 = 0, param3 = 0, curve_oid = OID_X25519\<rparr>"

definition nistp256_ecdsa :: algorithm_attributes where
  "nistp256_ecdsa =
     \<lparr>algorithm_id = ALG_ECDSA, param1 = 0, param2 = 0, param3 = 0, curve_oid = OID_NIST_P256\<rparr>"

definition nistp256_ecdh :: algorithm_attributes where
  "nistp256_ecdh =
     \<lparr>algorithm_id = ALG_ECDH, param1 = 0, param2 = 0, param3 = 0, curve_oid = OID_NIST_P256\<rparr>"

definition nistp384_ecdsa :: algorithm_attributes where
  "nistp384_ecdsa =
     \<lparr>algorithm_id = ALG_ECDSA, param1 = 0, param2 = 0, param3 = 0, curve_oid = OID_NIST_P384\<rparr>"

definition nistp384_ecdh :: algorithm_attributes where
  "nistp384_ecdh =
     \<lparr>algorithm_id = ALG_ECDH, param1 = 0, param2 = 0, param3 = 0, curve_oid = OID_NIST_P384\<rparr>"

definition nistp521_ecdsa :: algorithm_attributes where
  "nistp521_ecdsa =
     \<lparr>algorithm_id = ALG_ECDSA, param1 = 0, param2 = 0, param3 = 0, curve_oid = OID_NIST_P521\<rparr>"

definition nistp521_ecdh :: algorithm_attributes where
  "nistp521_ecdh =
     \<lparr>algorithm_id = ALG_ECDH, param1 = 0, param2 = 0, param3 = 0, curve_oid = OID_NIST_P521\<rparr>"

definition secp256k1_ecdsa :: algorithm_attributes where
  "secp256k1_ecdsa =
     \<lparr>algorithm_id = ALG_ECDSA, param1 = 0, param2 = 0, param3 = 0, curve_oid = OID_SECP256K1\<rparr>"

definition secp256k1_ecdh :: algorithm_attributes where
  "secp256k1_ecdh =
     \<lparr>algorithm_id = ALG_ECDH, param1 = 0, param2 = 0, param3 = 0, curve_oid = OID_SECP256K1\<rparr>"

definition is_nistp256 :: "algorithm_attributes \<Rightarrow> bool" where
  "is_nistp256 a \<longleftrightarrow> curve_oid a = OID_NIST_P256"
definition is_nistp384 :: "algorithm_attributes \<Rightarrow> bool" where
  "is_nistp384 a \<longleftrightarrow> curve_oid a = OID_NIST_P384"
definition is_nistp521 :: "algorithm_attributes \<Rightarrow> bool" where
  "is_nistp521 a \<longleftrightarrow> curve_oid a = OID_NIST_P521"
definition is_secp256k1 :: "algorithm_attributes \<Rightarrow> bool" where
  "is_secp256k1 a \<longleftrightarrow> curve_oid a = OID_SECP256K1"
definition is_ed25519 :: "algorithm_attributes \<Rightarrow> bool" where
  "is_ed25519 a \<longleftrightarrow> curve_oid a = OID_ED25519"
definition is_x25519 :: "algorithm_attributes \<Rightarrow> bool" where
  "is_x25519 a \<longleftrightarrow> curve_oid a = OID_X25519"

lemmas is_curve_defs = is_nistp256_def is_nistp384_def is_nistp521_def is_secp256k1_def
  is_ed25519_def is_x25519_def

definition attrs_to_bytes :: "algorithm_attributes \<Rightarrow> byte list" where
  "attrs_to_bytes a =
     (if algorithm_id a = ALG_RSA then
        [algorithm_id a, ucast (drop_bit 8 (param1 a)), ucast (param1 a),
         ucast (drop_bit 8 (param2 a)), ucast (param2 a), param3 a]
      else algorithm_id a # curve_oid a)"

definition attrs_from_bytes :: "byte list \<Rightarrow> algorithm_attributes option" where
  "attrs_from_bytes d =
     (if d = [] then None
      else let alg = d ! 0 in
        if alg = ALG_RSA then
          (if length d \<ge> 6 then
             Some \<lparr>algorithm_id = alg, param1 = from_be16 (d ! 1) (d ! 2),
                   param2 = from_be16 (d ! 3) (d ! 4), param3 = d ! 5, curve_oid = []\<rparr>
           else None)
        else if length d \<ge> 2 then
          Some \<lparr>algorithm_id = alg, param1 = 0, param2 = 0, param3 = 0, curve_oid = drop 1 d\<rparr>
        else None)"

section \<open>Key slots, PIN data, cardholder data\<close>

record key_slot =
  fingerprint :: "byte list"
  generation_time :: u32
  ca_fingerprint :: "byte list"
  algorithm :: algorithm_attributes
  uif :: byte
  private_key_data :: "byte list"
  public_key_data :: "byte list"

definition key_slot_default :: key_slot where
  "key_slot_default =
     \<lparr>fingerprint = replicate 20 0, generation_time = 0, ca_fingerprint = replicate 20 0,
      algorithm = attrs_default, uif = 0, private_key_data = [], public_key_data = []\<rparr>"

definition has_key :: "key_slot \<Rightarrow> bool" where
  "has_key k \<longleftrightarrow> \<not> list_all (\<lambda>b. b = 0) (fingerprint k)"

text \<open>\<open>Vec::resize(n, 0)\<close>.\<close>

definition vec_resize :: "nat \<Rightarrow> byte list \<Rightarrow> byte list" where
  "vec_resize n xs = take n xs @ replicate (n - length xs) 0"

definition fingerprint_padded :: "key_slot \<Rightarrow> byte list" where
  "fingerprint_padded k = vec_resize 20 (fingerprint k)"

definition ca_fingerprint_padded :: "key_slot \<Rightarrow> byte list" where
  "ca_fingerprint_padded k = vec_resize 20 (ca_fingerprint k)"

record pin_data =
  pw1_hash :: "byte list"
  pw1_length :: byte
  pw1_min_length :: byte
  pw1_max_length :: byte
  pw1_retry_counter :: byte
  pw1_max_retries :: byte
  pw1_valid_multiple :: bool
  pw3_hash :: "byte list"
  pw3_length :: byte
  pw3_min_length :: byte
  pw3_max_length :: byte
  pw3_retry_counter :: byte
  pw3_max_retries :: byte
  rc_hash :: "byte list"
  rc_length :: byte
  rc_min_length :: byte
  rc_max_length :: byte
  rc_retry_counter :: byte
  rc_max_retries :: byte

definition pin_data_default :: pin_data where
  "pin_data_default =
     \<lparr>pw1_hash = [], pw1_length = 6, pw1_min_length = 6, pw1_max_length = 127,
      pw1_retry_counter = 3, pw1_max_retries = 3, pw1_valid_multiple = True,
      pw3_hash = [], pw3_length = 8, pw3_min_length = 8, pw3_max_length = 127,
      pw3_retry_counter = 3, pw3_max_retries = 3,
      rc_hash = [], rc_length = 0, rc_min_length = 8, rc_max_length = 127,
      rc_retry_counter = 0, rc_max_retries = 3\<rparr>"

record cardholder_data =
  ch_name :: "byte list"
  ch_language :: "byte list"
  ch_sex :: byte
  ch_login :: "byte list"
  ch_url :: "byte list"

text \<open>The language \<open>"en"\<close>.\<close>

definition cardholder_new :: cardholder_data where
  "cardholder_new = \<lparr>ch_name = [], ch_language = [0x65, 0x6E], ch_sex = 0, ch_login = [], ch_url = []\<rparr>"

section \<open>The card state\<close>

record card_state =
  manufacturer_id :: u16
  serial_number :: u32
  version_major :: byte
  version_minor :: byte
  pin_data :: pin_data
  cardholder :: cardholder_data
  key_sig :: key_slot
  key_dec :: key_slot
  key_aut :: key_slot
  signature_counter :: u32
  private_do_1 :: "byte list"
  private_do_2 :: "byte list"
  private_do_3 :: "byte list"
  private_do_4 :: "byte list"
  certificate :: "byte list"
  terminated :: bool

definition card_state_default :: card_state where
  "card_state_default =
     \<lparr>manufacturer_id = 0x0000, serial_number = 0x00000001, version_major = 3, version_minor = 4,
      pin_data = pin_data_default, cardholder = cardholder_new,
      key_sig = key_slot_default, key_dec = key_slot_default, key_aut = key_slot_default,
      signature_counter = 0, private_do_1 = [], private_do_2 = [], private_do_3 = [],
      private_do_4 = [], certificate = [], terminated = False\<rparr>"

definition get_aid :: "card_state \<Rightarrow> byte list" where
  "get_aid s =
     [0xD2, 0x76, 0x00, 0x01, 0x24, 0x01,
      version_major s, version_minor s,
      ucast (drop_bit 8 (manufacturer_id s)), ucast (manufacturer_id s),
      ucast (drop_bit 24 (serial_number s)), ucast (drop_bit 16 (serial_number s)),
      ucast (drop_bit 8 (serial_number s)), ucast (serial_number s),
      0x00, 0x00]"

definition get_historical_bytes :: "card_state \<Rightarrow> byte list" where
  "get_historical_bytes s =
     (let lifecycle_status = (if terminated s then 0x07 else 0x05) in
      [0x00, 0x73, 0x00, 0x00, 0xE0, lifecycle_status, 0x90, 0x00])"

definition get_general_feature_management :: "card_state \<Rightarrow> byte list" where
  "get_general_feature_management s = [0x81, 0x01, 0x20]"

definition get_extended_capabilities :: "card_state \<Rightarrow> byte list" where
  "get_extended_capabilities s =
     (let flags = 0x40 OR 0x20 OR 0x10 OR 0x08 OR 0x04 in
      [flags, 0x00, 0x00, 0xFF, 0x08, 0x00, 0x00, 0xFF, 0x00, 0x00])"

definition get_pw_status_bytes :: "card_state \<Rightarrow> byte list" where
  "get_pw_status_bytes s =
     [(if pw1_valid_multiple (pin_data s) then 0x01 else 0x00),
      pw1_max_length (pin_data s), rc_max_length (pin_data s), pw3_max_length (pin_data s),
      pw1_retry_counter (pin_data s), rc_retry_counter (pin_data s), pw3_retry_counter (pin_data s)]"

definition get_fingerprints :: "card_state \<Rightarrow> byte list" where
  "get_fingerprints s =
     fingerprint_padded (key_sig s) @ fingerprint_padded (key_dec s) @ fingerprint_padded (key_aut s)"

definition get_ca_fingerprints :: "card_state \<Rightarrow> byte list" where
  "get_ca_fingerprints s =
     ca_fingerprint_padded (key_sig s) @ ca_fingerprint_padded (key_dec s) @
     ca_fingerprint_padded (key_aut s)"

definition get_key_timestamps :: "card_state \<Rightarrow> byte list" where
  "get_key_timestamps s =
     concat (map (\<lambda>ts. [ucast (drop_bit 24 ts), ucast (drop_bit 16 ts), ucast (drop_bit 8 ts), ucast ts])
       [generation_time (key_sig s), generation_time (key_dec s), generation_time (key_aut s)])"

definition get_signature_counter_bytes :: "card_state \<Rightarrow> byte list" where
  "get_signature_counter_bytes s =
     [ucast (drop_bit 16 (signature_counter s)), ucast (drop_bit 8 (signature_counter s)),
      ucast (signature_counter s)]"

section \<open>The byte format of the algorithm attributes\<close>

text \<open>Attributes the byte format can carry: RSA has no OID, the others only an OID.\<close>

definition wf_attrs :: "algorithm_attributes \<Rightarrow> bool" where
  "wf_attrs a \<longleftrightarrow>
     (if algorithm_id a = ALG_RSA then curve_oid a = []
      else param1 a = 0 \<and> param2 a = 0 \<and> param3 a = 0 \<and> curve_oid a \<noteq> [])"

lemma attrs_from_to:
  assumes "wf_attrs a"
  shows "attrs_from_bytes (attrs_to_bytes a) = Some a"
proof (cases "algorithm_id a = ALG_RSA")
  case True
  with assms show ?thesis
    by (simp add: attrs_from_bytes_def attrs_to_bytes_def wf_attrs_def from_be16_bytes)
next
  case False
  with assms show ?thesis
    by (simp add: attrs_from_bytes_def attrs_to_bytes_def wf_attrs_def Suc_le_eq)
qed

lemma attrs_from_wf: "attrs_from_bytes d = Some a \<Longrightarrow> wf_attrs a"
  by (auto simp: attrs_from_bytes_def wf_attrs_def Let_def split: if_splits)

text \<open>What is read is written back, except that RSA attributes longer than six bytes are cut.\<close>

lemma attrs_to_from:
  assumes "attrs_from_bytes d = Some a"
  shows "attrs_to_bytes a = (if d ! 0 = ALG_RSA then take 6 d else d)"
proof (cases "d ! 0 = ALG_RSA")
  case True
  with assms have len: "6 \<le> length d"
    by (auto simp: attrs_from_bytes_def Let_def split: if_splits)
  then obtain a0 a1 a2 a3 a4 a5 r where "d = a0 # a1 # a2 # a3 # a4 # a5 # r"
    by (auto simp: numeral_eq_Suc Suc_le_length_iff)
  with assms True show ?thesis
    by (auto simp: attrs_from_bytes_def attrs_to_bytes_def bytes_from_be16)
next
  case False
  with assms show ?thesis
    by (cases d) (auto simp: attrs_from_bytes_def attrs_to_bytes_def Let_def split: if_splits)
qed

lemma attrs_from_none: "attrs_from_bytes d = None \<longleftrightarrow>
    length d < 2 \<or> (d ! 0 = ALG_RSA \<and> length d < 6)"
  by (cases d) (auto simp: attrs_from_bytes_def Let_def Suc_le_eq)

section \<open>Lengths of the fixed-size data objects\<close>

lemma length_vec_resize [simp]: "length (vec_resize n xs) = n"
  by (simp add: vec_resize_def)

lemma vec_resize_id [simp]: "length xs = n \<Longrightarrow> vec_resize n xs = xs"
  by (simp add: vec_resize_def)

lemma length_dos [simp]:
  "length (get_aid s) = 16" "length (get_historical_bytes s) = 8"
  "length (get_general_feature_management s) = 3" "length (get_extended_capabilities s) = 10"
  "length (get_pw_status_bytes s) = 7" "length (get_fingerprints s) = 60"
  "length (get_ca_fingerprints s) = 60" "length (get_key_timestamps s) = 12"
  "length (get_signature_counter_bytes s) = 3"
  by (simp_all add: get_aid_def get_historical_bytes_def Let_def
      get_general_feature_management_def get_extended_capabilities_def get_pw_status_bytes_def
      get_fingerprints_def get_ca_fingerprints_def get_key_timestamps_def
      get_signature_counter_bytes_def fingerprint_padded_def ca_fingerprint_padded_def)

text \<open>The AID determines version, manufacturer and serial number of the card.\<close>

lemma get_aid_eq_iff:
  "get_aid s = get_aid t \<longleftrightarrow>
     version_major s = version_major t \<and> version_minor s = version_minor t \<and>
     manufacturer_id s = manufacturer_id t \<and> serial_number s = serial_number t"
proof
  assume eq: "get_aid s = get_aid t"
  then have "from_be16 (get_aid s ! 8) (get_aid s ! 9) = from_be16 (get_aid t ! 8) (get_aid t ! 9)"
    and "from_be32 (get_aid s ! 10) (get_aid s ! 11) (get_aid s ! 12) (get_aid s ! 13) =
      from_be32 (get_aid t ! 10) (get_aid t ! 11) (get_aid t ! 12) (get_aid t ! 13)"
    by simp_all
  then have "manufacturer_id s = manufacturer_id t" "serial_number s = serial_number t"
    by (simp_all add: get_aid_def from_be16_bytes from_be32_bytes)
  moreover have "version_major s = version_major t" "version_minor s = version_minor t"
    using eq by (simp_all add: get_aid_def)
  ultimately show "version_major s = version_major t \<and> version_minor s = version_minor t \<and>
     manufacturer_id s = manufacturer_id t \<and> serial_number s = serial_number t"
    by blast
next
  assume "version_major s = version_major t \<and> version_minor s = version_minor t \<and>
     manufacturer_id s = manufacturer_id t \<and> serial_number s = serial_number t"
  then show "get_aid s = get_aid t"
    unfolding get_aid_def by simp
qed

lemma fresh_slot_no_key [simp]: "\<not> has_key key_slot_default"
  by (simp add: has_key_def key_slot_default_def list_all_length)

section \<open>Properties\<close>

text \<open>
  Algorithm attributes survive their byte format: well-formed attributes are read back, and
  bytes that are accepted are written back unchanged, RSA attributes being cut to six bytes.
\<close>

theorem attributes_roundtrip:
  "(wf_attrs a \<longrightarrow> attrs_from_bytes (attrs_to_bytes a) = Some a) \<and>
   (attrs_from_bytes d = Some b \<longrightarrow>
      wf_attrs b \<and> attrs_to_bytes b = (if d ! 0 = ALG_RSA then take 6 d else d))"
  using attrs_from_to [of a] attrs_from_wf [of d b] attrs_to_from [of d b] by blast

theorem attributes_roundtrip_witness:
  "attrs_from_bytes (attrs_to_bytes attrs_ed25519) = Some attrs_ed25519 \<and>
   attrs_to_bytes nistp256_ecdsa = ALG_ECDSA # OID_NIST_P256"
proof -
  have "wf_attrs attrs_ed25519"
    by (simp add: wf_attrs_def attrs_ed25519_def ALG_defs OID_defs)
  moreover have "attrs_from_bytes (ALG_ECDSA # OID_NIST_P256) = Some nistp256_ecdsa"
    by (simp add: attrs_from_bytes_def nistp256_ecdsa_def ALG_defs OID_defs)
  ultimately show ?thesis
    using attributes_roundtrip [of attrs_ed25519 "ALG_ECDSA # OID_NIST_P256" nistp256_ecdsa]
    by (simp add: ALG_defs)
qed

end
