(* ===== verification/Env.thy ===== *)
theory Env
  imports Card_State
begin

text \<open>
  What the program calls and does not contain: the operating system (files, environment, clock,
  random numbers), the JSON format derived by serde, and the cryptographic crates. Each is a field
  of a record that the definitions of the model take as an argument, so that every theorem holds
  for every such environment; documented laws of these functions are named predicates, assumed
  where a theorem needs them. \<open>'k\<close> is the private-key type of the rsa crate.

  One environment describes the outside during one command: \<open>ed_random\<close>, \<open>rand_bytes\<close> and the
  other random draws are whatever the generator returns during that command.
\<close>

section \<open>The host: files, variables, clock\<close>

text \<open>A path is the list of its components; \<open>PathBuf::join\<close> appends.\<close>

type_synonym path = "string list"
type_synonym files = "path \<Rightarrow> string option"

record host =
  var_storage_dir :: "path option"
  home_dir :: "path option"
  fs_exists :: "path \<Rightarrow> files \<Rightarrow> bool"
  fs_read :: "path \<Rightarrow> files \<Rightarrow> string option"
  fs_write :: "path \<Rightarrow> string \<Rightarrow> files \<Rightarrow> bool \<times> files"
  fs_rename :: "path \<Rightarrow> path \<Rightarrow> files \<Rightarrow> bool \<times> files"
  fs_create_dir :: "path \<Rightarrow> files \<Rightarrow> bool"
  to_json :: "card_state \<Rightarrow> string option"
  from_json :: "string \<Rightarrow> card_state option"
  clock_secs :: "nat option"
  rand_bytes :: "nat \<Rightarrow> byte list"

section \<open>The cryptographic crates\<close>

datatype ecc_curve = P256 | P384 | P521

text \<open>
  \<open>BigUint\<close> is a natural number; its conversions and \<open>modpow\<close> are the crate's. The public
  values of a key pair are functions of the private bytes (\<open>verifying_key\<close>, \<open>public_key\<close>).
\<close>

record 'k env = host +
  sha1 :: "byte list \<Rightarrow> byte list"
  sha256 :: "byte list \<Rightarrow> byte list"
  sha512 :: "byte list \<Rightarrow> byte list"
  big_from_bytes_be :: "byte list \<Rightarrow> nat"
  big_to_bytes_be :: "nat \<Rightarrow> byte list"
  big_modpow :: "nat \<Rightarrow> nat \<Rightarrow> nat \<Rightarrow> nat"
  rsa_new :: "nat \<Rightarrow> 'k option"
  rsa_from_components :: "nat \<Rightarrow> nat \<Rightarrow> nat \<Rightarrow> nat list \<Rightarrow> 'k option"
  rsa_n :: "'k \<Rightarrow> nat"
  rsa_e :: "'k \<Rightarrow> nat"
  rsa_d :: "'k \<Rightarrow> nat"
  rsa_primes :: "'k \<Rightarrow> nat list"
  rsa_size :: "'k \<Rightarrow> nat"
  rsa_decrypt_pkcs1v15 :: "'k \<Rightarrow> byte list \<Rightarrow> byte list option"
  ed_random :: "byte list"
  ed_verifying_key :: "byte list \<Rightarrow> byte list"
  ed_sign :: "byte list \<Rightarrow> byte list \<Rightarrow> byte list"
  x_random :: "byte list"
  x_public :: "byte list \<Rightarrow> byte list"
  x_diffie_hellman :: "byte list \<Rightarrow> byte list \<Rightarrow> byte list"
  nist_random :: "ecc_curve \<Rightarrow> byte list"
  nist_signing_key_ok :: "ecc_curve \<Rightarrow> byte list \<Rightarrow> bool"
  nist_secret_key_ok :: "ecc_curve \<Rightarrow> byte list \<Rightarrow> bool"
  nist_public_key_ok :: "ecc_curve \<Rightarrow> byte list \<Rightarrow> bool"
  nist_point :: "ecc_curve \<Rightarrow> byte list \<Rightarrow> byte list"
  nist_sign_prehash :: "ecc_curve \<Rightarrow> byte list \<Rightarrow> byte list \<Rightarrow> byte list option"
  nist_diffie_hellman :: "ecc_curve \<Rightarrow> byte list \<Rightarrow> byte list \<Rightarrow> byte list"
  k256_random :: "byte list"
  k256_signing_key_ok :: "byte list \<Rightarrow> bool"
  k256_secret_key_ok :: "byte list \<Rightarrow> bool"
  k256_public_key_ok :: "byte list \<Rightarrow> bool"
  k256_point :: "byte list \<Rightarrow> byte list"
  k256_sign :: "byte list \<Rightarrow> byte list \<Rightarrow> byte list"
  k256_diffie_hellman :: "byte list \<Rightarrow> byte list \<Rightarrow> byte list"
  tdes_encrypt :: "byte list \<Rightarrow> byte list \<Rightarrow> byte list"
  tdes_decrypt :: "byte list \<Rightarrow> byte list \<Rightarrow> byte list"

section \<open>Documented laws\<close>

text \<open>serde's derived format reads back what it wrote.\<close>

definition json_laws :: "'k env \<Rightarrow> bool" where
  "json_laws X \<longleftrightarrow> (\<forall>s j. to_json X s = Some j \<longrightarrow> from_json X j = Some s)"

text \<open>A successful write or rename has the documented effect, and what exists can be read.\<close>

definition fs_laws :: "'k env \<Rightarrow> bool" where
  "fs_laws X \<longleftrightarrow>
     (\<forall>p f. fs_exists X p f \<longleftrightarrow> f p \<noteq> None) \<and>
     (\<forall>p f. fs_read X p f = f p) \<and>
     (\<forall>p c f. fst (fs_write X p c f) \<longrightarrow> snd (fs_write X p c f) = f(p \<mapsto> c)) \<and>
     (\<forall>p q f. fst (fs_rename X p q f) \<longrightarrow> snd (fs_rename X p q f) = f(p := None, q := f p))"

text \<open>The digests have their length.\<close>

definition hash_laws :: "'k env \<Rightarrow> bool" where
  "hash_laws X \<longleftrightarrow>
     (\<forall>d. length (sha1 X d) = 20) \<and> (\<forall>d. length (sha256 X d) = 32) \<and> (\<forall>d. length (sha512 X d) = 64)"

text \<open>\<open>BigUint\<close> conversions: value of the digits in base 256, and no leading zero digits.\<close>

definition big_laws :: "'k env \<Rightarrow> bool" where
  "big_laws X \<longleftrightarrow>
     (\<forall>bs. big_from_bytes_be X bs = be_value bs) \<and>
     (\<forall>n. be_value (big_to_bytes_be X n) = n) \<and>
     (\<forall>n. big_to_bytes_be X n \<noteq> [])"

text \<open>A key built from components shows these components.\<close>

definition rsa_laws :: "'k env \<Rightarrow> bool" where
  "rsa_laws X \<longleftrightarrow>
     (\<forall>n e d ps k. rsa_from_components X n e d ps = Some k \<longrightarrow>
        rsa_n X k = n \<and> rsa_e X k = e \<and> rsa_d X k = d \<and> rsa_primes X k = ps)"

text \<open>The block cipher: decryption inverts encryption, blocks keep their length.\<close>

definition tdes_laws :: "'k env \<Rightarrow> bool" where
  "tdes_laws X \<longleftrightarrow>
     (\<forall>k b. length b = 8 \<longrightarrow> length (tdes_encrypt X k b) = 8 \<and> length (tdes_decrypt X k b) = 8 \<and>
        tdes_decrypt X k (tdes_encrypt X k b) = b)"

text \<open>The generator fills the whole buffer.\<close>

definition rng_laws :: "'k env \<Rightarrow> bool" where
  "rng_laws X \<longleftrightarrow> (\<forall>n. length (rand_bytes X n) = n)"

end
