(* ===== verification/Demo_Env.thy ===== *)
theory Demo_Env
  imports Env
begin

text \<open>
  A concrete environment in which all the documented laws of theory \<open>Env\<close> hold: the witnesses of
  the properties are evaluated in it. Files never fail,
  digests and ciphers are the simplest functions of the right lengths, keys are the tuples of
  their components.
\<close>

type_synonym demo_key = "nat \<times> nat \<times> nat \<times> nat list"

fun demo_digits :: "nat \<Rightarrow> byte list" where
  "demo_digits n = (if n < 256 then [of_nat n] else demo_digits (n div 256) @ [of_nat n])"

declare demo_digits.simps [simp del]

definition demo_env :: "demo_key env" where
  "demo_env =
     \<lparr>var_storage_dir = None, home_dir = Some [''/'', ''home''],
      fs_exists = (\<lambda>p f. f p \<noteq> None), fs_read = (\<lambda>p f. f p),
      fs_write = (\<lambda>p c f. (True, f(p \<mapsto> c))),
      fs_rename = (\<lambda>p q f. (True, f(p := None, q := f p))),
      fs_create_dir = (\<lambda>p f. True),
      to_json = (\<lambda>s. if s = card_state_default then Some ''{}'' else None),
      from_json = (\<lambda>j. if j = ''{}'' then Some card_state_default else None),
      clock_secs = Some 1000, rand_bytes = (\<lambda>n. replicate n 7),
      sha1 = vec_resize 20, sha256 = vec_resize 32, sha512 = vec_resize 64,
      big_from_bytes_be = be_value, big_to_bytes_be = demo_digits,
      big_modpow = (\<lambda>b e m. (b ^ e) mod m),
      rsa_new = (\<lambda>bits. Some (3233, 17, 2753, [61, 53])),
      rsa_from_components = (\<lambda>n e d ps. Some (n, e, d, ps)),
      rsa_n = fst, rsa_e = (\<lambda>k. fst (snd k)), rsa_d = (\<lambda>k. fst (snd (snd k))),
      rsa_primes = (\<lambda>k. snd (snd (snd k))), rsa_size = (\<lambda>k. 2),
      rsa_decrypt_pkcs1v15 = (\<lambda>k c. Some c),
      ed_random = replicate 32 1, ed_verifying_key = id, ed_sign = (\<lambda>k d. vec_resize 64 d),
      x_random = replicate 32 2, x_public = id, x_diffie_hellman = (\<lambda>k p. p),
      nist_random = (\<lambda>c. case c of P256 \<Rightarrow> replicate 32 3 | P384 \<Rightarrow> replicate 48 3 | P521 \<Rightarrow> replicate 66 3),
      nist_signing_key_ok = (\<lambda>c k. True), nist_secret_key_ok = (\<lambda>c k. True),
      nist_public_key_ok = (\<lambda>c k. True), nist_point = (\<lambda>c k. 4 # k @ k),
      nist_sign_prehash = (\<lambda>c k d. Some d), nist_diffie_hellman = (\<lambda>c k p. k),
      k256_random = replicate 32 5, k256_signing_key_ok = (\<lambda>k. True),
      k256_secret_key_ok = (\<lambda>k. True), k256_public_key_ok = (\<lambda>k. True),
      k256_point = (\<lambda>k. 4 # k @ k), k256_sign = (\<lambda>k d. d), k256_diffie_hellman = (\<lambda>k p. k),
      tdes_encrypt = (\<lambda>k b. b), tdes_decrypt = (\<lambda>k b. b)\<rparr>"

lemma be_value_digits [simp]: "be_value (demo_digits n) = n"
proof (induction n rule: demo_digits.induct)
  case (1 n)
  show ?case
  proof (cases "n < 256")
    case True
    then show ?thesis
      by (subst demo_digits.simps) (simp add: be_value_def unat_of_nat)
  next
    case False
    then show ?thesis
      using 1 by (subst demo_digits.simps) (simp add: unat_of_nat)
  qed
qed

lemma demo_digits_not_Nil [simp]: "demo_digits n \<noteq> []"
  by (subst demo_digits.simps) simp

lemma length_demo_digits: "n < 65536 \<Longrightarrow> length (demo_digits n) \<le> 2"
proof -
  assume n: "n < 65536"
  have small: "demo_digits m = [of_nat m]" if "m < 256" for m
    using that by (subst demo_digits.simps) simp
  have "n div 256 < 256" using n by simp
  then show ?thesis by (subst demo_digits.simps) (simp add: small)
qed

lemma demo_simps [simp]:
  "sha1 demo_env = vec_resize 20" "sha256 demo_env = vec_resize 32" "sha512 demo_env = vec_resize 64"
  "big_from_bytes_be demo_env = be_value" "big_to_bytes_be demo_env = demo_digits"
  "big_modpow demo_env x e m = (x ^ e) mod m" "rsa_size demo_env k = 2"
  "rsa_from_components demo_env n e d ps = Some (n, e, d, ps)"
  "fs_exists demo_env p f \<longleftrightarrow> f p \<noteq> None" "fs_read demo_env p f = f p"
  "fs_write demo_env p c f = (True, f(p \<mapsto> c))" "fs_create_dir demo_env p f"
  "fs_rename demo_env p q f = (True, f(p := None, q := f p))"
  "from_json demo_env ''{}'' = Some card_state_default"
  "to_json demo_env card_state_default = Some ''{}''"
  "clock_secs demo_env = Some 1000" "rand_bytes demo_env n = replicate n 7"
  "ed_random demo_env = replicate 32 1" "ed_verifying_key demo_env b = b"
  "rsa_new demo_env bits = Some (3233, 17, 2753, [61, 53])"
  by (simp_all add: demo_env_def)

lemma demo_laws [simp]:
  "json_laws demo_env" "fs_laws demo_env" "hash_laws demo_env" "big_laws demo_env" "rsa_laws demo_env"
  "tdes_laws demo_env" "rng_laws demo_env"
  by (auto simp: demo_env_def json_laws_def fs_laws_def hash_laws_def big_laws_def rsa_laws_def
      tdes_laws_def rng_laws_def)

end
