(* ===== verification/Card_Store.thy ===== *)
theory Card_Store
  imports Demo_Env
begin

text \<open>
  Persistent storage of the card state (\<open>src/card/storage.rs\<close>). The store holds the state in
  memory and its file name; \<open>store_fs\<close> is the file system it reads and writes, through the
  operations of the environment, with \<open>save\<close> returning whether the state reached the file.
\<close>

record card_data_store =
  storage_dir :: path
  state_file :: path
  state :: card_state
  store_fs :: files

definition DEFAULT_STATE_FILE :: string where
  "DEFAULT_STATE_FILE = ''card_state.json''"

definition path_join :: "path \<Rightarrow> string \<Rightarrow> path" where
  "path_join p c = p @ [c]"

fun nat_digits :: "nat \<Rightarrow> string" where
  "nat_digits n =
     (if n < 10 then [char_of (n + 48)] else nat_digits (n div 10) @ [char_of (n mod 10 + 48)])"

declare nat_digits.simps [simp del]

definition get_root_storage_dir :: "'k env \<Rightarrow> path" where
  "get_root_storage_dir X =
     (case var_storage_dir X of
        Some p \<Rightarrow> p
      | None \<Rightarrow>
          (case home_dir X of
             Some h \<Rightarrow> path_join h ''.jcecard''
           | None \<Rightarrow> [''/'', ''var'', ''lib'', ''jcecard'']))"

definition get_slot_storage_dir :: "'k env \<Rightarrow> nat \<Rightarrow> path" where
  "get_slot_storage_dir X slot = path_join (get_root_storage_dir X) (''slot-'' @ nat_digits slot)"

definition store_new_for_slot :: "'k env \<Rightarrow> files \<Rightarrow> path option \<Rightarrow> nat \<Rightarrow> card_data_store" where
  "store_new_for_slot X fs storage_path slot =
     (let dir = (case storage_path of Some p \<Rightarrow> p | None \<Rightarrow> get_slot_storage_dir X slot) in
      \<lparr>storage_dir = dir, state_file = path_join dir DEFAULT_STATE_FILE,
       state = card_state_default, store_fs = fs\<rparr>)"

definition store_new :: "'k env \<Rightarrow> files \<Rightarrow> path option \<Rightarrow> card_data_store" where
  "store_new X fs storage_path = store_new_for_slot X fs storage_path 0"

definition ensure_storage_dir :: "'k env \<Rightarrow> card_data_store \<Rightarrow> bool" where
  "ensure_storage_dir X s = fs_create_dir X (storage_dir s) (store_fs s)"

text \<open>\<open>hash_pin("123456")\<close>: the bytes of the string.\<close>

definition store_hash_pin :: "'k env \<Rightarrow> byte list \<Rightarrow> byte list" where
  "store_hash_pin X pin = sha256 X pin"

definition DEFAULT_PW1 :: "byte list" where
  "DEFAULT_PW1 = [0x31, 0x32, 0x33, 0x34, 0x35, 0x36]"

definition DEFAULT_PW3 :: "byte list" where
  "DEFAULT_PW3 = [0x31, 0x32, 0x33, 0x34, 0x35, 0x36, 0x37, 0x38]"

definition initialize_default_pins :: "'k env \<Rightarrow> card_data_store \<Rightarrow> card_data_store" where
  "initialize_default_pins X s =
     s\<lparr>state := (state s)\<lparr>pin_data := (pin_data (state s))
         \<lparr>pw1_hash := store_hash_pin X DEFAULT_PW1, pw1_length := 6,
          pw3_hash := store_hash_pin X DEFAULT_PW3, pw3_length := 8\<rparr>\<rparr>\<rparr>"

definition migrate_legacy_state :: "'k env \<Rightarrow> card_data_store \<Rightarrow> card_data_store" where
  "migrate_legacy_state X s =
     (let legacy = path_join (get_root_storage_dir X) DEFAULT_STATE_FILE in
      if \<not> fs_exists X legacy (store_fs s) \<or> fs_exists X (state_file s) (store_fs s) then s
      else let slot0 = path_join (get_slot_storage_dir X 0) DEFAULT_STATE_FILE in
        if state_file s \<noteq> slot0 then s
        else if \<not> fs_create_dir X (storage_dir s) (store_fs s) then s
        else s\<lparr>store_fs := snd (fs_rename X legacy (state_file s) (store_fs s))\<rparr>)"

definition store_load :: "'k env \<Rightarrow> card_data_store \<Rightarrow> bool \<times> card_data_store" where
  "store_load X s0 =
     (let s = migrate_legacy_state X s0;
          fresh = initialize_default_pins X (s\<lparr>state := card_state_default\<rparr>) in
      if \<not> fs_exists X (state_file s) (store_fs s) then (False, fresh)
      else case fs_read X (state_file s) (store_fs s) of
          None \<Rightarrow> (False, fresh)
        | Some content \<Rightarrow>
            (case from_json X content of
               Some st \<Rightarrow> (True, s\<lparr>state := st\<rparr>)
             | None \<Rightarrow> (False, fresh)))"

definition store_save :: "'k env \<Rightarrow> card_data_store \<Rightarrow> bool \<times> card_data_store" where
  "store_save X s =
     (if \<not> ensure_storage_dir X s then (False, s)
      else case to_json X (state s) of
          None \<Rightarrow> (False, s)
        | Some json \<Rightarrow>
            (let (ok, fs) = fs_write X (state_file s) json (store_fs s) in
             (ok, s\<lparr>store_fs := fs\<rparr>)))"

text \<open>The handlers ignore the result of \<open>save\<close>.\<close>

definition saved :: "'k env \<Rightarrow> card_data_store \<Rightarrow> card_data_store" where
  "saved X s = snd (store_save X s)"

definition reset_to_factory :: "'k env \<Rightarrow> card_data_store \<Rightarrow> card_data_store" where
  "reset_to_factory X s = saved X (initialize_default_pins X (s\<lparr>state := card_state_default\<rparr>))"

section \<open>Saving touches the file only\<close>

lemma saved_frame [simp]:
  "state (saved X s) = state s" "storage_dir (saved X s) = storage_dir s"
  "state_file (saved X s) = state_file s"
  by (simp_all add: saved_def store_save_def Let_def split_beta split: option.splits)

lemma migrate_frame [simp]:
  "state (migrate_legacy_state X s) = state s" "state_file (migrate_legacy_state X s) = state_file s"
  "storage_dir (migrate_legacy_state X s) = storage_dir s"
  by (simp_all add: migrate_legacy_state_def Let_def)

text \<open>The state every card starts from: factory defaults with the default PINs.\<close>

definition factory_state :: "'k env \<Rightarrow> card_state" where
  "factory_state X = card_state_default\<lparr>pin_data := pin_data_default
     \<lparr>pw1_hash := sha256 X DEFAULT_PW1, pw3_hash := sha256 X DEFAULT_PW3\<rparr>\<rparr>"

lemma initialize_default:
  "state (initialize_default_pins X (s\<lparr>state := card_state_default\<rparr>)) = factory_state X"
  by (simp add: initialize_default_pins_def factory_state_def store_hash_pin_def
      card_state_default_def pin_data_default_def)

lemma reset_to_factory_state [simp]: "state (reset_to_factory X s) = factory_state X"
  by (simp add: reset_to_factory_def initialize_default)

section \<open>What was saved is loaded\<close>

lemma store_save_ok:
  assumes "fs_laws X" "store_save X s = (True, s')"
  shows "\<exists>j. to_json X (state s) = Some j \<and> store_fs s' = (store_fs s)(state_file s \<mapsto> j)"
  using assms
  by (auto simp: store_save_def fs_laws_def Let_def split_beta split: if_splits option.splits)

lemma load_after_save:
  assumes laws: "fs_laws X" "json_laws X"
    and save: "store_save X s = (True, s')"
    and t: "state_file t = state_file s" "store_fs t = store_fs s'"
  shows "fst (store_load X t) \<and> state (snd (store_load X t)) = state s"
proof -
  obtain j where j: "to_json X (state s) = Some j" "store_fs s' = (store_fs s)(state_file s \<mapsto> j)"
    using store_save_ok [OF laws(1) save] by blast
  then have ex: "fs_exists X (state_file t) (store_fs t)"
    using laws(1) t by (simp add: fs_laws_def)
  then have "migrate_legacy_state X t = t"
    by (simp add: migrate_legacy_state_def Let_def)
  moreover have "fs_read X (state_file t) (store_fs t) = Some j"
    using laws(1) t j by (simp add: fs_laws_def)
  moreover have "from_json X j = Some (state s)"
    using laws(2) j(1) by (simp add: json_laws_def)
  ultimately show ?thesis
    using ex by (simp add: store_load_def Let_def)
qed

text \<open>A store that cannot load its file starts from the factory state.\<close>

lemma load_fresh:
  "\<not> fst (store_load X s) \<Longrightarrow> state (snd (store_load X s)) = factory_state X"
  by (auto simp: store_load_def Let_def initialize_default split: if_splits option.splits)

text \<open>
  The legacy file of the single-slot layout is moved to slot 0, and loading then reads it.
\<close>

lemma load_legacy:
  assumes laws: "fs_laws X"
    and legacy: "store_fs s (path_join (get_root_storage_dir X) DEFAULT_STATE_FILE) = Some j"
      "store_fs s (state_file s) = None"
    and slot0: "state_file s = path_join (get_slot_storage_dir X 0) DEFAULT_STATE_FILE"
    and io: "fs_create_dir X (storage_dir s) (store_fs s)"
      "fst (fs_rename X (path_join (get_root_storage_dir X) DEFAULT_STATE_FILE) (state_file s) (store_fs s))"
    and json: "from_json X j = Some st"
  shows "fst (store_load X s) \<and> state (snd (store_load X s)) = st \<and>
    store_fs (snd (store_load X s)) =
      (store_fs s)(path_join (get_root_storage_dir X) DEFAULT_STATE_FILE := None, state_file s \<mapsto> j)"
proof -
  define old where "old = path_join (get_root_storage_dir X) DEFAULT_STATE_FILE"
  have "snd (fs_rename X old (state_file s) (store_fs s)) = (store_fs s)(old := None, state_file s \<mapsto> j)"
    using laws io(2) legacy(1) unfolding old_def fs_laws_def by simp
  then have m: "migrate_legacy_state X s = s\<lparr>store_fs := (store_fs s)(old := None, state_file s \<mapsto> j)\<rparr>"
    using laws legacy slot0 io(1)
    by (simp add: migrate_legacy_state_def Let_def fs_laws_def flip: old_def)
  show ?thesis
    using laws json unfolding old_def [symmetric]
    by (simp add: store_load_def Let_def m fs_laws_def)
qed

lemma nat_digits_inj: "nat_digits m = nat_digits n \<Longrightarrow> m = n"
proof (induction m arbitrary: n rule: less_induct)
  case (less m)
  have last: "last (nat_digits k) = char_of (k mod 10 + 48)" for k
    by (subst nat_digits.simps) simp
  have len: "length (nat_digits k) = 1 \<longleftrightarrow> k < 10" for k
    by (subst nat_digits.simps) (simp, subst nat_digits.simps, simp)
  have "m mod 10 + 48 = n mod 10 + 48"
    using arg_cong [OF less.prems, of "(of_char :: char \<Rightarrow> nat) \<circ> last"]
    by (simp add: last)
  then have mod: "m mod 10 = n mod 10" by simp
  show ?case
  proof (cases "m < 10")
    case True
    then have "n < 10" using len [of m] len [of n] less.prems by simp
    with True mod show ?thesis by simp
  next
    case False
    then have n: "\<not> n < 10" using len [of m] len [of n] less.prems by simp
    have "nat_digits (m div 10) = nat_digits (n div 10)"
      using less.prems False n
      by (subst (asm) nat_digits.simps, subst (asm) (2) nat_digits.simps) simp
    then have "m div 10 = n div 10"
      using False by (intro less.IH) auto
    with mod show ?thesis by (metis div_mult_mod_eq)
  qed
qed

text \<open>Different slots keep their state in different files.\<close>

lemma slot_files_differ:
  "i \<noteq> j \<Longrightarrow>
     state_file (store_new_for_slot X fs None i) \<noteq> state_file (store_new_for_slot X fs None j)"
  by (auto simp: store_new_for_slot_def path_join_def get_slot_storage_dir_def dest: nat_digits_inj)

section \<open>Properties\<close>

text \<open>A card with the factory state in the demonstration environment.\<close>

definition demo_store :: card_data_store where
  "demo_store = \<lparr>storage_dir = [''d''], state_file = [''d'', ''f''], state = factory_state demo_env,
     store_fs = (\<lambda>_. None)\<rparr>"

text \<open>
  What a store saved successfully, any store pointing at the same file loads back, whatever
  was in its memory.
\<close>

theorem saved_state_is_loaded:
  assumes "fs_laws X" "json_laws X" "store_save X s = (True, s')"
    and "state_file t = state_file s" "store_fs t = store_fs s'"
  shows "fst (store_load X t) \<and> state (snd (store_load X t)) = state s"
  by (rule load_after_save [OF assms])

theorem saved_state_is_loaded_witness:
  "let s = demo_store\<lparr>state := card_state_default\<rparr>; s' = snd (store_save demo_env s) in
     state (snd (store_load demo_env (s'\<lparr>state := factory_state demo_env\<rparr>))) = card_state_default"
proof -
  define s where "s = demo_store\<lparr>state := card_state_default\<rparr>"
  have "store_save demo_env s = (True, snd (store_save demo_env s))"
    by (simp add: s_def store_save_def ensure_storage_dir_def)
  from saved_state_is_loaded [OF _ _ this, of "snd (store_save demo_env s)\<lparr>state := factory_state demo_env\<rparr>"]
  have "state (snd (store_load demo_env (snd (store_save demo_env s)\<lparr>state := factory_state demo_env\<rparr>))) = state s"
    using saved_frame(3) [of demo_env s] by (simp add: saved_def)
  then show ?thesis by (simp add: s_def Let_def)
qed

text \<open>
  On first load of slot 0 the state file of the old single-slot layout is moved into the slot
  directory and its state is what is loaded; the old file is gone afterwards.
\<close>

theorem legacy_state_is_migrated:
  assumes "fs_laws X"
    and "store_fs s (path_join (get_root_storage_dir X) DEFAULT_STATE_FILE) = Some j"
      "store_fs s (state_file s) = None"
    and "state_file s = path_join (get_slot_storage_dir X 0) DEFAULT_STATE_FILE"
    and "fs_create_dir X (storage_dir s) (store_fs s)"
      "fst (fs_rename X (path_join (get_root_storage_dir X) DEFAULT_STATE_FILE) (state_file s) (store_fs s))"
    and "from_json X j = Some st"
  shows "fst (store_load X s) \<and> state (snd (store_load X s)) = st \<and>
    store_fs (snd (store_load X s)) =
      (store_fs s)(path_join (get_root_storage_dir X) DEFAULT_STATE_FILE := None, state_file s \<mapsto> j)"
  by (rule load_legacy [OF assms])

theorem legacy_state_is_migrated_witness:
  "let f = [path_join (get_root_storage_dir demo_env) DEFAULT_STATE_FILE \<mapsto> ''{}''];
       s = store_new_for_slot demo_env f None 0 in
   fst (store_load demo_env s) \<and> state (snd (store_load demo_env s)) = card_state_default"
proof -
  define f where "f = [path_join (get_root_storage_dir demo_env) DEFAULT_STATE_FILE \<mapsto> ''{}'']"
  define s where "s = store_new_for_slot demo_env f None 0"
  have p: "state_file s = path_join (get_slot_storage_dir demo_env 0) DEFAULT_STATE_FILE" "store_fs s = f"
    by (simp_all add: s_def store_new_for_slot_def Let_def)
  have d: "path_join (get_slot_storage_dir demo_env 0) DEFAULT_STATE_FILE \<noteq>
      path_join (get_root_storage_dir demo_env) DEFAULT_STATE_FILE"
    by (simp add: path_join_def get_slot_storage_dir_def)
  have "fst (store_load demo_env s) \<and> state (snd (store_load demo_env s)) = card_state_default"
    using legacy_state_is_migrated [of demo_env s "''{}''" card_state_default] p d
    by (simp add: f_def)
  then show ?thesis
    unfolding s_def f_def Let_def .
qed

text \<open>The state files of two different slots are different files.\<close>

theorem slots_have_separate_files:
  assumes "i \<noteq> j"
  shows "state_file (store_new_for_slot X fs None i) \<noteq> state_file (store_new_for_slot X fs None j)"
  by (rule slot_files_differ [OF assms])

theorem slots_have_separate_files_witness:
  "state_file (store_new_for_slot demo_env (\<lambda>_. None) None 0) \<noteq>
   state_file (store_new_for_slot demo_env (\<lambda>_. None) None 1)"
  by (rule slots_have_separate_files) simp

end
