(* ===== verification/Pin_Manager.thy ===== *)
theory Pin_Manager
  imports Card_Store
begin

text \<open>
  PIN verification, change and reset (\<open>src/openpgp/pin_manager.rs\<close>). The three secrets PW1, PW3
  and RC are each a \<open>retry_guard\<close>: the interpretation \<open>pin\<close> proves the laws for \<open>verify_pin\<close>.
  Lengths are taken with \<open>as u8\<close>, which the definitions keep as \<open>of_nat\<close>: see
  \<open>long_pin_accepted\<close>.
\<close>

datatype pin_type = PW1_81 | PW1_82 | PW3 | RC

record pin_manager =
  pm_valid_multiple :: bool

definition pin_manager_new :: pin_manager where
  "pin_manager_new = \<lparr>pm_valid_multiple = True\<rparr>"

definition hash_pin :: "'k env \<Rightarrow> byte list \<Rightarrow> byte list" where
  "hash_pin X pin = sha256 X pin"

definition get_retry_counter :: "pin_type \<Rightarrow> pin_data \<Rightarrow> byte" where
  "get_retry_counter t d =
     (case t of
        PW1_81 \<Rightarrow> pw1_retry_counter d
      | PW1_82 \<Rightarrow> pw1_retry_counter d
      | PW3 \<Rightarrow> pw3_retry_counter d
      | RC \<Rightarrow> rc_retry_counter d)"

text \<open>The tuple \<open>verify_pin\<close> selects, and the writes to the field behind \<open>retry_counter\<close>.\<close>

definition pin_fields :: "pin_type \<Rightarrow> pin_data \<Rightarrow> byte list \<times> byte \<times> byte \<times> byte" where
  "pin_fields t d =
     (case t of
        PW1_81 \<Rightarrow> (pw1_hash d, pw1_retry_counter d, pw1_min_length d, pw1_max_length d)
      | PW1_82 \<Rightarrow> (pw1_hash d, pw1_retry_counter d, pw1_min_length d, pw1_max_length d)
      | PW3 \<Rightarrow> (pw3_hash d, pw3_retry_counter d, pw3_min_length d, pw3_max_length d)
      | RC \<Rightarrow> (rc_hash d, rc_retry_counter d, rc_min_length d, rc_max_length d))"

definition set_retry_counter :: "pin_type \<Rightarrow> byte \<Rightarrow> pin_data \<Rightarrow> pin_data" where
  "set_retry_counter t n d =
     (case t of
        PW1_81 \<Rightarrow> d\<lparr>pw1_retry_counter := n\<rparr>
      | PW1_82 \<Rightarrow> d\<lparr>pw1_retry_counter := n\<rparr>
      | PW3 \<Rightarrow> d\<lparr>pw3_retry_counter := n\<rparr>
      | RC \<Rightarrow> d\<lparr>rc_retry_counter := n\<rparr>)"

definition max_retries :: "pin_type \<Rightarrow> pin_data \<Rightarrow> byte" where
  "max_retries t d =
     (case t of
        PW1_81 \<Rightarrow> pw1_max_retries d
      | PW1_82 \<Rightarrow> pw1_max_retries d
      | PW3 \<Rightarrow> pw3_max_retries d
      | RC \<Rightarrow> rc_max_retries d)"

definition verify_pin :: "'k env \<Rightarrow> pin_type \<Rightarrow> byte list \<Rightarrow> pin_data \<Rightarrow> bool \<times> pin_data" where
  "verify_pin X t pin d =
     (let (stored_hash, retry_counter, min_len, max_len) = pin_fields t d in
      if retry_counter = 0 then (False, d)
      else let pin_len = (of_nat (length pin) :: byte) in
        if pin_len < min_len \<or> pin_len > max_len then
          (False, set_retry_counter t (saturating_dec retry_counter) d)
        else if hash_pin X pin = stored_hash then
          (True, set_retry_counter t (max_retries t d) d)
        else (False, set_retry_counter t (saturating_dec retry_counter) d))"

definition set_pin :: "pin_type \<Rightarrow> byte list \<Rightarrow> byte \<Rightarrow> pin_data \<Rightarrow> pin_data" where
  "set_pin t new_hash new_len d =
     (case t of
        PW1_81 \<Rightarrow> d\<lparr>pw1_hash := new_hash, pw1_length := new_len\<rparr>
      | PW1_82 \<Rightarrow> d\<lparr>pw1_hash := new_hash, pw1_length := new_len\<rparr>
      | PW3 \<Rightarrow> d\<lparr>pw3_hash := new_hash, pw3_length := new_len\<rparr>
      | RC \<Rightarrow> d\<lparr>rc_hash := new_hash, rc_length := new_len\<rparr>)"

definition change_pin ::
  "'k env \<Rightarrow> pin_type \<Rightarrow> byte list \<Rightarrow> byte list \<Rightarrow> pin_data \<Rightarrow> bool \<times> pin_data" where
  "change_pin X t old_pin new_pin d0 =
     (case verify_pin X t old_pin d0 of
        (False, d) \<Rightarrow> (False, d)
      | (True, d) \<Rightarrow>
          (let (_, _, min_len, max_len) = pin_fields t d;
               new_len = (of_nat (length new_pin) :: byte) in
           if new_len < min_len \<or> new_len > max_len then (False, d)
           else (True, set_pin t (hash_pin X new_pin) new_len d)))"

definition set_new_pw1 :: "'k env \<Rightarrow> byte list \<Rightarrow> pin_data \<Rightarrow> bool \<times> pin_data" where
  "set_new_pw1 X new_pin d =
     (let new_len = (of_nat (length new_pin) :: byte) in
      if new_len < pw1_min_length d \<or> new_len > pw1_max_length d then (False, d)
      else (True, d\<lparr>pw1_hash := hash_pin X new_pin, pw1_length := new_len,
                    pw1_retry_counter := pw1_max_retries d\<rparr>))"

definition reset_pw1_with_rc ::
  "'k env \<Rightarrow> byte list \<Rightarrow> byte list \<Rightarrow> pin_data \<Rightarrow> bool \<times> pin_data" where
  "reset_pw1_with_rc X reset_code new_pin d0 =
     (if rc_hash d0 = [] then (False, d0)
      else case verify_pin X RC reset_code d0 of
          (False, d) \<Rightarrow> (False, d)
        | (True, d) \<Rightarrow> set_new_pw1 X new_pin d)"

definition reset_pw1_with_pw3 :: "'k env \<Rightarrow> byte list \<Rightarrow> pin_data \<Rightarrow> bool \<times> pin_data" where
  "reset_pw1_with_pw3 X new_pin d = set_new_pw1 X new_pin d"

section \<open>Each secret is guarded by its retry counter\<close>

text \<open>The secrets \<open>verify_pin\<close> accepts while tries are left.\<close>

definition pin_good :: "'k env \<Rightarrow> pin_type \<Rightarrow> pin_data \<Rightarrow> byte list \<Rightarrow> bool" where
  "pin_good X t d pin \<longleftrightarrow>
     (let (stored_hash, _, min_len, max_len) = pin_fields t d; pin_len = (of_nat (length pin) :: byte) in
      min_len \<le> pin_len \<and> pin_len \<le> max_len \<and> hash_pin X pin = stored_hash)"

lemmas pin_field_defs = pin_fields_def get_retry_counter_def max_retries_def set_retry_counter_def

lemma pin_fields_counter:
  obtains h lo hi where "pin_fields t d = (h, get_retry_counter t d, lo, hi)"
  by (cases t) (simp_all add: pin_field_defs)

lemma pin_good_alt:
  assumes "pin_fields t d = (h, r, lo, hi)"
  shows "pin_good X t d pin \<longleftrightarrow>
    \<not> ((of_nat (length pin) :: byte) < lo \<or> of_nat (length pin) > hi) \<and> hash_pin X pin = h"
  using assms by (auto simp: pin_good_def Let_def not_less)

lemma verify_pin_alt:
  "verify_pin X t pin d =
     (if get_retry_counter t d = 0 then (False, d)
      else if pin_good X t d pin then (True, set_retry_counter t (max_retries t d) d)
      else (False, set_retry_counter t (saturating_dec (get_retry_counter t d)) d))"
proof -
  obtain h lo hi where f: "pin_fields t d = (h, get_retry_counter t d, lo, hi)"
    by (rule pin_fields_counter)
  show ?thesis
    unfolding verify_pin_def pin_good_alt [OF f] by (simp add: f Let_def)
qed

lemma set_retry_counter_simps [simp]:
  "get_retry_counter t (set_retry_counter t n d) = n"
  "max_retries u (set_retry_counter t n d) = max_retries u d"
  "pin_good X u (set_retry_counter t n d) = pin_good X u d"
  "set_retry_counter t m (set_retry_counter t n d) = set_retry_counter t m d"
  by (cases t; cases u; simp add: pin_field_defs pin_good_def fun_eq_iff)+

interpretation pin: retry_guard
  "\<lambda>d p. verify_pin X t p d" "\<lambda>d. unat (get_retry_counter t d)" "\<lambda>d. unat (max_retries t d)"
  "pin_good X t" for X t
  by unfold_locales (auto simp: verify_pin_alt unsigned_eq_0_iff)

lemma change_pin_alt:
  "change_pin X t old new d =
     (if fst (verify_pin X t old d) then
        (let d' = snd (verify_pin X t old d); (_, _, lo, hi) = pin_fields t d in
         if (of_nat (length new) :: byte) < lo \<or> of_nat (length new) > hi then (False, d')
         else (True, set_pin t (hash_pin X new) (of_nat (length new)) d'))
      else (False, snd (verify_pin X t old d)))"
  by (cases t; simp add: change_pin_def verify_pin_alt Let_def split_beta pin_field_defs split: prod.splits bool.splits)

text \<open>A changed PIN is the one that is accepted afterwards.\<close>

lemma change_pin_good:
  assumes "change_pin X t old new d = (True, d')"
  shows "pin_good X t d' new \<and> get_retry_counter t d' = max_retries t d"
  using assms
  by (cases t)
    (auto simp: change_pin_def verify_pin_alt pin_good_def Let_def pin_field_defs set_pin_def not_less
      split: if_splits prod.splits bool.splits)

lemma change_pin_hash:
  "change_pin X t old new d = (True, d') \<Longrightarrow> fst (pin_fields t d') = sha256 X new"
  by (cases t) (auto simp: change_pin_alt pin_fields_def set_pin_def hash_pin_def Let_def split: if_splits)

text \<open>PW1 and PW3 are separate: an operation on one leaves the other and its counter.\<close>

definition pw3_fields :: "pin_data \<Rightarrow> byte list \<times> byte \<times> byte \<times> byte \<times> byte \<times> byte" where
  "pw3_fields d = (pw3_hash d, pw3_length d, pw3_min_length d, pw3_max_length d,
     pw3_retry_counter d, pw3_max_retries d)"

lemma pw1_ops_keep_pw3:
  "t \<noteq> PW3 \<Longrightarrow> pw3_fields (snd (verify_pin X t p d)) = pw3_fields d"
  "t \<noteq> PW3 \<Longrightarrow> pw3_fields (snd (change_pin X t p q d)) = pw3_fields d"
  "pw3_fields (snd (reset_pw1_with_rc X p q d)) = pw3_fields d"
  "pw3_fields (snd (reset_pw1_with_pw3 X q d)) = pw3_fields d"
  by (cases t; auto simp: pw3_fields_def verify_pin_alt change_pin_def set_pin_def set_retry_counter_def
      pin_fields_def reset_pw1_with_rc_def reset_pw1_with_pw3_def set_new_pw1_def Let_def
      split: if_splits prod.splits bool.splits)+

section \<open>Counters stay within their limits\<close>

definition counters_ok :: "pin_data \<Rightarrow> bool" where
  "counters_ok d \<longleftrightarrow>
     pw1_retry_counter d \<le> pw1_max_retries d \<and> pw3_retry_counter d \<le> pw3_max_retries d \<and>
     rc_retry_counter d \<le> rc_max_retries d"

lemma counters_ok_verify: "counters_ok d \<Longrightarrow> counters_ok (snd (verify_pin X t p d))"
  by (cases t) (auto simp: counters_ok_def verify_pin_alt pin_field_defs saturating_dec_le)

lemma counters_ok_set_pin [simp]: "counters_ok (set_pin t h l d) = counters_ok d"
  by (cases t) (simp_all add: counters_ok_def set_pin_def)

lemma counters_ok_change: "counters_ok d \<Longrightarrow> counters_ok (snd (change_pin X t p q d))"
  using counters_ok_verify [of d X t p]
  by (auto simp: change_pin_alt Let_def split_beta)

lemma counters_ok_set_new_pw1: "counters_ok d \<Longrightarrow> counters_ok (snd (set_new_pw1 X q d))"
  by (auto simp: set_new_pw1_def counters_ok_def Let_def)

lemma counters_ok_reset:
  "counters_ok d \<Longrightarrow> counters_ok (snd (reset_pw1_with_rc X p q d))"
  "counters_ok d \<Longrightarrow> counters_ok (snd (reset_pw1_with_pw3 X q d))"
  using counters_ok_verify [of d X RC p] counters_ok_set_new_pw1
  by (auto simp: reset_pw1_with_rc_def reset_pw1_with_pw3_def split: prod.splits bool.splits)

lemma counters_ok_default: "counters_ok pin_data_default"
  by (simp add: counters_ok_def pin_data_default_def)

section \<open>Length bytes wrap around\<close>

text \<open>
  A new PIN longer than 255 bytes is accepted when its length modulo 256 is in range, and that
  remainder is what is recorded as its length.
\<close>

lemma long_pin_accepted:
  assumes "pin_good X PW1_81 d old" "get_retry_counter PW1_81 d \<noteq> 0"
    and "pw1_min_length d \<le> of_nat (length new)" "of_nat (length new) \<le> pw1_max_length d"
  shows "\<exists>d'. change_pin X PW1_81 old new d = (True, d') \<and> pw1_hash d' = hash_pin X new \<and>
    unat (pw1_length d') = length new mod 256"
  using assms
  by (simp add: change_pin_alt verify_pin_alt Let_def pin_field_defs set_pin_def not_less unat_of_nat_u8)

section \<open>Properties\<close>

lemma factory_pin_good:
  "pin_good demo_env PW1_81 (pin_data (factory_state demo_env)) DEFAULT_PW1"
  "pin_good demo_env PW1_82 (pin_data (factory_state demo_env)) DEFAULT_PW1"
  "pin_good demo_env PW3 (pin_data (factory_state demo_env)) DEFAULT_PW3"
  by (simp_all add: pin_good_def pin_fields_def factory_state_def pin_data_default_def hash_pin_def
      DEFAULT_PW1_def DEFAULT_PW3_def Let_def)

lemma factory_counter:
  "get_retry_counter PW1_81 (pin_data (factory_state X)) = 3"
  "get_retry_counter PW1_82 (pin_data (factory_state X)) = 3"
  "get_retry_counter PW3 (pin_data (factory_state X)) = 3"
  by (simp_all add: get_retry_counter_def factory_state_def pin_data_default_def)

lemma factory_change:
  "\<exists>d. change_pin demo_env PW1_81 DEFAULT_PW1 [0x36, 0x35, 0x34, 0x33, 0x32, 0x31]
     (pin_data (factory_state demo_env)) = (True, d)"
  by (simp add: change_pin_alt verify_pin_alt factory_pin_good factory_counter Let_def)
    (simp add: pin_fields_def factory_state_def pin_data_default_def)

text \<open>
  C27: after a successful change the new PIN is accepted and, up to collisions of the digest, no other
  is; all tries are left; and PW3 with its counter is untouched when another PIN was changed.
\<close>

theorem changed_pin_is_accepted:
  assumes "change_pin X t old new d = (True, d')" "max_retries t d' \<noteq> 0"
  shows "fst (verify_pin X t new d') \<and> (\<forall>p. fst (verify_pin X t p d') \<longrightarrow> sha256 X p = sha256 X new) \<and>
    get_retry_counter t d' = max_retries t d' \<and> (t \<noteq> PW3 \<longrightarrow> pw3_fields d' = pw3_fields d)"
proof -
  have good: "pin_good X t d' new \<and> get_retry_counter t d' = max_retries t d"
    by (rule change_pin_good [OF assms(1)])
  have same: "max_retries t d' = max_retries t d"
    using assms(1) by (cases t) (auto simp: change_pin_alt verify_pin_alt set_pin_def pin_field_defs
        Let_def split: if_splits)
  have unique: "sha256 X p = sha256 X new" if "fst (verify_pin X t p d')" for p
  proof -
    have "pin_good X t d' p" using that by (simp add: pin.success_iff)
    then show ?thesis
      using change_pin_hash [OF assms(1)] by (simp add: pin_good_def hash_pin_def Let_def split_beta)
  qed
  have ok: "fst (verify_pin X t new d')"
    using good same assms(2) by (simp add: verify_pin_alt)
  have counter: "get_retry_counter t d' = max_retries t d'"
    by (simp only: good same)
  have frame: "pw3_fields d' = pw3_fields d" if "t \<noteq> PW3"
    using that assms(1) pw1_ops_keep_pw3(2) [of t X old new d] by simp
  show ?thesis
    by (intro conjI allI impI ok counter) (erule unique, erule frame)
qed

theorem changed_pin_is_accepted_witness:
  "\<exists>d. change_pin demo_env PW1_81 DEFAULT_PW1 [0x36, 0x35, 0x34, 0x33, 0x32, 0x31]
     (pin_data (factory_state demo_env)) = (True, d) \<and>
     fst (verify_pin demo_env PW1_81 [0x36, 0x35, 0x34, 0x33, 0x32, 0x31] d)"
proof -
  obtain d where d: "change_pin demo_env PW1_81 DEFAULT_PW1 [0x36, 0x35, 0x34, 0x33, 0x32, 0x31]
     (pin_data (factory_state demo_env)) = (True, d)"
    using factory_change by blast
  have "max_retries PW1_81 d \<noteq> 0"
    using d by (auto simp: change_pin_alt verify_pin_alt factory_pin_good factory_counter
        set_pin_def pin_field_defs factory_state_def pin_data_default_def Let_def split: if_splits)
  from changed_pin_is_accepted [OF d this] d show ?thesis by blast
qed

text \<open>
  Lengths are compared modulo 256: a new PW1 of 256 + k bytes with k in range is accepted, and
  k is recorded as its length, where CHANGE REFERENCE DATA later splits its data.
\<close>

theorem overlong_pin_is_accepted:
  assumes "pin_good X PW1_81 d old" "get_retry_counter PW1_81 d \<noteq> 0"
    and "pw1_min_length d \<le> of_nat (length new)" "of_nat (length new) \<le> pw1_max_length d"
  shows "\<exists>d'. change_pin X PW1_81 old new d = (True, d') \<and> pw1_hash d' = hash_pin X new \<and>
    unat (pw1_length d') = length new mod 256"
  by (rule long_pin_accepted [OF assms])

theorem overlong_pin_is_accepted_witness:
  "\<exists>d'. change_pin demo_env PW1_81 DEFAULT_PW1 (replicate 262 0x31) (pin_data (factory_state demo_env)) = (True, d') \<and>
     unat (pw1_length d') = 6"
proof -
  have l: "(of_nat (length (replicate 262 (0x31 :: byte))) :: byte) = 6"
    by simp
  have "pw1_min_length (pin_data (factory_state demo_env)) \<le> of_nat (length (replicate 262 (0x31 :: byte)))"
    "of_nat (length (replicate 262 (0x31 :: byte))) \<le> pw1_max_length (pin_data (factory_state demo_env))"
    unfolding l by (simp_all add: factory_state_def pin_data_default_def)
  from overlong_pin_is_accepted [OF factory_pin_good(1) _ this] show ?thesis
    by (auto simp: factory_counter)
qed

end
