(* ===== verification/Security_State.thy ===== *)
theory Security_State
  imports Jc_Prelude
begin

text \<open>
  Which PINs are verified in the current session (\<open>src/openpgp/security_state.rs\<close>).
\<close>

datatype security_condition = SC_PW1_81 | SC_PW1_82 | SC_PW3

record security_state =
  pw1_81_verified :: bool
  pw1_82_verified :: bool
  pw3_verified :: bool
  ss_valid_multiple :: bool

definition security_state_new :: security_state where
  "security_state_new =
     \<lparr>pw1_81_verified = False, pw1_82_verified = False, pw3_verified = False, ss_valid_multiple = True\<rparr>"

definition set_verified :: "security_condition \<Rightarrow> security_state \<Rightarrow> security_state" where
  "set_verified c s =
     (case c of
        SC_PW1_81 \<Rightarrow> s\<lparr>pw1_81_verified := True\<rparr>
      | SC_PW1_82 \<Rightarrow> s\<lparr>pw1_82_verified := True\<rparr>
      | SC_PW3 \<Rightarrow> s\<lparr>pw3_verified := True\<rparr>)"

definition is_verified :: "security_condition \<Rightarrow> security_state \<Rightarrow> bool" where
  "is_verified c s =
     (case c of
        SC_PW1_81 \<Rightarrow> pw1_81_verified s
      | SC_PW1_82 \<Rightarrow> pw1_82_verified s
      | SC_PW3 \<Rightarrow> pw3_verified s)"

definition clear_condition :: "security_condition \<Rightarrow> security_state \<Rightarrow> security_state" where
  "clear_condition c s =
     (case c of
        SC_PW1_81 \<Rightarrow> s\<lparr>pw1_81_verified := False\<rparr>
      | SC_PW1_82 \<Rightarrow> s\<lparr>pw1_82_verified := False\<rparr>
      | SC_PW3 \<Rightarrow> s\<lparr>pw3_verified := False\<rparr>)"

definition clear_all :: "security_state \<Rightarrow> security_state" where
  "clear_all s = s\<lparr>pw1_81_verified := False, pw1_82_verified := False, pw3_verified := False\<rparr>"

definition after_sign :: "security_state \<Rightarrow> security_state" where
  "after_sign s = (if \<not> ss_valid_multiple s then s\<lparr>pw1_81_verified := False\<rparr> else s)"

definition set_pw1_valid_multiple :: "bool \<Rightarrow> security_state \<Rightarrow> security_state" where
  "set_pw1_valid_multiple v s = s\<lparr>ss_valid_multiple := v\<rparr>"

lemma is_verified_ops [simp]:
  "is_verified c (set_verified c' s) \<longleftrightarrow> c = c' \<or> is_verified c s"
  "is_verified c (clear_condition c' s) \<longleftrightarrow> c \<noteq> c' \<and> is_verified c s"
  "\<not> is_verified c (clear_all s)"
  "is_verified c (set_pw1_valid_multiple v s) \<longleftrightarrow> is_verified c s"
  "is_verified c (after_sign s) \<longleftrightarrow> is_verified c s \<and> (c = SC_PW1_81 \<longrightarrow> ss_valid_multiple s)"
  "\<not> is_verified c security_state_new"
  by (cases c; cases c'; auto simp: is_verified_def set_verified_def clear_condition_def clear_all_def
      set_pw1_valid_multiple_def after_sign_def security_state_new_def)+

lemma valid_multiple_ops [simp]:
  "ss_valid_multiple (set_verified c s) = ss_valid_multiple s"
  "ss_valid_multiple (clear_condition c s) = ss_valid_multiple s"
  "ss_valid_multiple (clear_all s) = ss_valid_multiple s"
  "ss_valid_multiple (after_sign s) = ss_valid_multiple s"
  "ss_valid_multiple (set_pw1_valid_multiple v s) = v"
  by (cases c; simp add: set_verified_def clear_condition_def clear_all_def
      set_pw1_valid_multiple_def after_sign_def)+

end
