(* ===== verification/Pgp_State.thy ===== *)
theory Pgp_State
  imports Tlv Apdu Utf8 Pin_Manager Security_State
begin

text \<open>
  The OpenPGP applet (\<open>src/openpgp/applet.rs\<close>), first part: its state, command and response
  chaining, access conditions, and the constructed data objects. A handler takes the applet and
  returns the response with the new applet; one that can panic returns \<open>None\<close> then.
\<close>

definition OPENPGP_AID_PREFIX :: "byte list" where
  "OPENPGP_AID_PREFIX = [0xD2, 0x76, 0x00, 0x01, 0x24, 0x01]"

datatype access_condition = Always | AC_PW1_81 | AC_PW1_82 | PW1Any | AC_PW3 | Never

record openpgp_applet =
  store :: card_data_store
  pgp_manager :: pin_manager
  security :: security_state
  response_buffer :: "byte list"
  response_offset :: nat
  command_buffer :: "byte list"
  chaining_ins :: "byte option"
  current_le :: "u32 option"

definition pgp_new :: "card_data_store \<Rightarrow> openpgp_applet" where
  "pgp_new s =
     \<lparr>store = s, pgp_manager = pin_manager_new, security = security_state_new,
      response_buffer = [], response_offset = 0, command_buffer = [], chaining_ins = None,
      current_le = None\<rparr>"

text \<open>Access to the parts: \<open>get_state\<close>, \<open>get_state_mut\<close>, \<open>save\<close>.\<close>

definition pgp_state :: "openpgp_applet \<Rightarrow> card_state" where
  "pgp_state a = state (store a)"

definition put_state :: "card_state \<Rightarrow> openpgp_applet \<Rightarrow> openpgp_applet" where
  "put_state s a = a\<lparr>store := (store a)\<lparr>state := s\<rparr>\<rparr>"

definition put_pin_data :: "pin_data \<Rightarrow> openpgp_applet \<Rightarrow> openpgp_applet" where
  "put_pin_data d a = put_state ((pgp_state a)\<lparr>pin_data := d\<rparr>) a"

definition pgp_save :: "'k env \<Rightarrow> openpgp_applet \<Rightarrow> openpgp_applet" where
  "pgp_save X a = a\<lparr>store := saved X (store a)\<rparr>"

abbreviation pgp_pins :: "openpgp_applet \<Rightarrow> pin_data" where
  "pgp_pins a \<equiv> pin_data (pgp_state a)"

abbreviation verified :: "security_condition \<Rightarrow> openpgp_applet \<Rightarrow> bool" where
  "verified c a \<equiv> is_verified c (security a)"

definition pgp_reset :: "openpgp_applet \<Rightarrow> openpgp_applet" where
  "pgp_reset a = a\<lparr>security := clear_all (security a), response_buffer := [], response_offset := 0,
     command_buffer := [], chaining_ins := None\<rparr>"

lemma pgp_state_simps [simp]:
  "pgp_state (put_state s a) = s" "pgp_state (pgp_save X a) = pgp_state a"
  "pgp_state (a\<lparr>security := ss\<rparr>) = pgp_state a" "pgp_state (a\<lparr>response_buffer := b\<rparr>) = pgp_state a"
  "pgp_state (a\<lparr>response_offset := n\<rparr>) = pgp_state a" "pgp_state (a\<lparr>command_buffer := b\<rparr>) = pgp_state a"
  "pgp_state (a\<lparr>chaining_ins := i\<rparr>) = pgp_state a" "pgp_state (a\<lparr>current_le := l\<rparr>) = pgp_state a"
  by (simp_all add: pgp_state_def put_state_def pgp_save_def)

lemma put_state_frame [simp]:
  "security (put_state s a) = security a" "response_buffer (put_state s a) = response_buffer a"
  "response_offset (put_state s a) = response_offset a" "command_buffer (put_state s a) = command_buffer a"
  "chaining_ins (put_state s a) = chaining_ins a" "current_le (put_state s a) = current_le a"
  by (simp_all add: put_state_def)

lemma pgp_save_frame [simp]:
  "security (pgp_save X a) = security a" "response_buffer (pgp_save X a) = response_buffer a"
  "response_offset (pgp_save X a) = response_offset a" "command_buffer (pgp_save X a) = command_buffer a"
  "chaining_ins (pgp_save X a) = chaining_ins a" "current_le (pgp_save X a) = current_le a"
  by (simp_all add: pgp_save_def)

lemma put_pin_data_frame [simp]:
  "pgp_pins (put_pin_data d a) = d" "security (put_pin_data d a) = security a"
  "response_buffer (put_pin_data d a) = response_buffer a"
  "response_offset (put_pin_data d a) = response_offset a"
  "command_buffer (put_pin_data d a) = command_buffer a"
  "chaining_ins (put_pin_data d a) = chaining_ins a" "current_le (put_pin_data d a) = current_le a"
  "terminated (pgp_state (put_pin_data d a)) = terminated (pgp_state a)"
  by (simp_all add: put_pin_data_def)

section \<open>Command chaining\<close>

definition handle_command_chaining :: "openpgp_applet \<Rightarrow> apdu \<Rightarrow> response \<times> openpgp_applet" where
  "handle_command_chaining a cmd =
     (let a1 = (if chaining_ins a = None then a\<lparr>chaining_ins := Some (ins cmd), command_buffer := []\<rparr> else a) in
      if chaining_ins a \<noteq> None \<and> chaining_ins a \<noteq> Some (ins cmd) then
        (response_error SW_CONDITIONS_NOT_SATISFIED, a\<lparr>command_buffer := [], chaining_ins := None\<rparr>)
      else (response_ok, a1\<lparr>command_buffer := command_buffer a1 @ cmd_data cmd\<rparr>))"

section \<open>Response chaining\<close>

text \<open>
  The subtraction is on \<open>usize\<close> and the slice is checked: an offset beyond the buffer panics.
\<close>

definition handle_get_response :: "openpgp_applet \<Rightarrow> apdu \<Rightarrow> (response \<times> openpgp_applet) option" where
  "handle_get_response a cmd =
     (if response_buffer a = [] then Some (response_error SW_CONDITIONS_NOT_SATISFIED, a)
      else if response_offset a > length (response_buffer a) then None
      else let l = (case le cmd of Some x \<Rightarrow> unat x | None \<Rightarrow> 256);
               remaining = length (response_buffer a) - response_offset a;
               chunk_size = min l remaining;
               d = take chunk_size (drop (response_offset a) (response_buffer a));
               a1 = a\<lparr>response_offset := response_offset a + chunk_size\<rparr>;
               new_remaining = length (response_buffer a1) - response_offset a1 in
        Some
          (if new_remaining = 0 then
             (response_success d, a1\<lparr>response_buffer := [], response_offset := 0\<rparr>)
           else if new_remaining > 255 then (response_more_data d 0, a1)
           else (response_more_data d (of_nat new_remaining), a1)))"

definition create_response :: "openpgp_applet \<Rightarrow> byte list \<Rightarrow> response \<times> openpgp_applet" where
  "create_response a d =
     (let max_response = (case current_le a of Some x \<Rightarrow> unat x | None \<Rightarrow> 256) in
      if length d \<le> max_response then (response_success d, a)
      else let a1 = a\<lparr>response_buffer := d, response_offset := max_response\<rparr>;
               chunk = take max_response d;
               remaining = length d - max_response in
        (if remaining > 255 then response_more_data chunk 0
         else response_more_data chunk (of_nat remaining), a1))"

section \<open>SELECT\<close>

definition handle_select :: "openpgp_applet \<Rightarrow> apdu \<Rightarrow> response \<times> openpgp_applet" where
  "handle_select a cmd =
     (if p1 cmd \<noteq> 0x04 then (response_error SW_WRONG_P1_P2, a)
      else if length (cmd_data cmd) \<ge> length OPENPGP_AID_PREFIX \<and>
              take (length OPENPGP_AID_PREFIX) (cmd_data cmd) = OPENPGP_AID_PREFIX
      then (response_ok, a)
      else (response_error SW_FILE_NOT_FOUND, a))"

section \<open>Access conditions\<close>

definition check_access :: "openpgp_applet \<Rightarrow> access_condition \<Rightarrow> bool" where
  "check_access a c =
     (case c of
        Always \<Rightarrow> True
      | AC_PW1_81 \<Rightarrow> verified SC_PW1_81 a
      | AC_PW1_82 \<Rightarrow> verified SC_PW1_82 a
      | PW1Any \<Rightarrow> verified SC_PW1_81 a \<or> verified SC_PW1_82 a
      | AC_PW3 \<Rightarrow> verified SC_PW3 a
      | Never \<Rightarrow> False)"

definition get_data_access :: "u16 \<Rightarrow> access_condition" where
  "get_data_access tag =
     (if tag \<in> set [0x004F, 0x5F52, 0x0065, 0x006E, 0x007A,
                    0x00C0, 0x00C1, 0x00C2, 0x00C3, 0x00C4,
                    0x00C5, 0x00C6, 0x00C7, 0x00C8, 0x00C9,
                    0x00CA, 0x00CB, 0x00CC, 0x00CD, 0x00CE,
                    0x00CF, 0x00D0, 0x0093, 0x005B, 0x5F2D,
                    0x5F35, 0x7F74, 0x00D6, 0x00D7, 0x00D8,
                    0x00FA] then Always
      else if tag \<in> set [0x005E, 0x5F50] then Always
      else if 0x0101 \<le> tag \<and> tag \<le> 0x0104 then Always
      else if tag = 0x7F21 then Always
      else Never)"

definition put_data_access :: "u16 \<Rightarrow> access_condition" where
  "put_data_access tag =
     (if tag \<in> set [0x005B, 0x5F2D, 0x5F35, 0x005E, 0x5F50] then AC_PW3
      else if 0x00C1 \<le> tag \<and> tag \<le> 0x00C3 then AC_PW3
      else if tag = 0x00C4 then AC_PW3
      else if 0x00C7 \<le> tag \<and> tag \<le> 0x00CC then AC_PW3
      else if 0x00CE \<le> tag \<and> tag \<le> 0x00D0 then AC_PW3
      else if tag \<in> set [0x0101, 0x0102] then PW1Any
      else if tag \<in> set [0x0103, 0x0104] then AC_PW3
      else if tag \<in> set [0x00D3, 0x00D6, 0x00D7, 0x00D8] then AC_PW3
      else if tag = 0x7F21 then AC_PW3
      else Never)"

section \<open>Timestamps\<close>

definition timestamp_to_bytes :: "u32 \<Rightarrow> byte list" where
  "timestamp_to_bytes ts =
     [ucast (drop_bit 24 ts), ucast (drop_bit 16 ts), ucast (drop_bit 8 ts), ucast ts]"

definition bytes_to_timestamp :: "byte list \<Rightarrow> u32" where
  "bytes_to_timestamp d =
     (if length d \<ge> 4 then
        push_bit 24 (ucast (d ! 0)) OR push_bit 16 (ucast (d ! 1)) OR
        push_bit 8 (ucast (d ! 2)) OR ucast (d ! 3)
      else 0)"

lemma timestamp_roundtrip: "bytes_to_timestamp (timestamp_to_bytes ts) = ts"
  using from_be32_bytes [of ts]
  by (simp add: bytes_to_timestamp_def timestamp_to_bytes_def from_be32_def)

lemma bytes_roundtrip: "length d = 4 \<Longrightarrow> timestamp_to_bytes (bytes_to_timestamp d) = d"
proof -
  assume "length d = 4"
  then obtain b0 b1 b2 b3 where "d = [b0, b1, b2, b3]"
    by (auto simp: numeral_eq_Suc length_Suc_conv)
  then show ?thesis
    by (simp add: bytes_to_timestamp_def timestamp_to_bytes_def bytes_from_be32 flip: from_be32_def)
qed

section \<open>Constructed data objects\<close>

definition build_cardholder_data :: "card_state \<Rightarrow> byte list" where
  "build_cardholder_data s =
     builder_build (builder_wrap 0x65
       (builder_add 0x5F35 [ch_sex (cardholder s)]
         (builder_add 0x5F2D (ch_language (cardholder s))
           (builder_add 0x5B (ch_name (cardholder s)) builder_new))))"

definition build_application_data :: "card_state \<Rightarrow> byte list" where
  "build_application_data s =
     (let discretionary =
        builder_build (builder_wrap 0x73
          (builder_add 0xCD (get_key_timestamps s)
          (builder_add 0xC6 (get_ca_fingerprints s)
          (builder_add 0xC5 (get_fingerprints s)
          (builder_add 0xC4 (get_pw_status_bytes s)
          (builder_add 0xC3 (attrs_to_bytes (algorithm (key_aut s)))
          (builder_add 0xC2 (attrs_to_bytes (algorithm (key_dec s)))
          (builder_add 0xC1 (attrs_to_bytes (algorithm (key_sig s)))
          (builder_add 0xC0 (get_extended_capabilities s) builder_new)))))))));
        gfm = builder_build (builder_wrap 0x7F74
          (builder_add_raw (get_general_feature_management s) builder_new)) in
      builder_build (builder_wrap 0x6E
        (builder_add_raw discretionary
        (builder_add_raw gfm
        (builder_add 0x5F52 (get_historical_bytes s)
        (builder_add 0x4F (get_aid s) builder_new))))))"

definition build_security_support_template :: "card_state \<Rightarrow> byte list" where
  "build_security_support_template s =
     builder_build (builder_wrap 0x7A (builder_add 0x93 (get_signature_counter_bytes s) builder_new))"

definition add_entry :: "byte \<Rightarrow> byte list \<Rightarrow> byte list" where
  "add_entry tag algo = tag # of_nat (length algo) # algo"

definition build_algorithm_information :: "byte list" where
  "build_algorithm_information =
     (let rsa_2048 = attrs_to_bytes (attrs_rsa 2048);
          rsa_3072 = attrs_to_bytes (attrs_rsa 3072);
          rsa_4096 = attrs_to_bytes (attrs_rsa 4096);
          eddsa = attrs_to_bytes attrs_ed25519;
          ecdsa_p256 = attrs_to_bytes nistp256_ecdsa;
          ecdsa_p384 = attrs_to_bytes nistp384_ecdsa;
          ecdsa_p521 = attrs_to_bytes nistp521_ecdsa;
          ecdsa_secp256k1 = attrs_to_bytes secp256k1_ecdsa;
          ecdh_x25519 = attrs_to_bytes attrs_x25519;
          ecdh_p256 = attrs_to_bytes nistp256_ecdh;
          ecdh_p384 = attrs_to_bytes nistp384_ecdh;
          ecdh_p521 = attrs_to_bytes nistp521_ecdh;
          ecdh_secp256k1 = attrs_to_bytes secp256k1_ecdh;
          sig_algos = [rsa_2048, rsa_3072, rsa_4096,
            eddsa, ecdsa_p256, ecdsa_p384, ecdsa_p521, ecdsa_secp256k1];
          dec_algos = [rsa_2048, rsa_3072, rsa_4096,
            ecdh_x25519, ecdh_p256, ecdh_p384, ecdh_p521, ecdh_secp256k1];
          aut_algos = [rsa_2048, rsa_3072, rsa_4096,
            eddsa, ecdsa_p256, ecdsa_p384, ecdsa_p521, ecdsa_secp256k1] in
      concat (map (add_entry 0xC1) sig_algos) @ concat (map (add_entry 0xC2) dec_algos) @
      concat (map (add_entry 0xC3) aut_algos))"

section \<open>Demonstration cards\<close>

text \<open>
  The factory card in the demonstration environment, after a power-up, and the same card with an
  Ed25519 signature slot after a VERIFY of PW3.
\<close>

definition demo_pgp :: openpgp_applet where
  "demo_pgp = pgp_new demo_store"

definition demo_admin :: openpgp_applet where
  "demo_admin = (put_state ((factory_state demo_env)\<lparr>key_sig := key_slot_default\<lparr>algorithm := attrs_ed25519\<rparr>\<rparr>)
     demo_pgp)\<lparr>security := set_verified SC_PW3 security_state_new\<rparr>"

lemma demo_pgp_simps [simp]:
  "pgp_state demo_pgp = factory_state demo_env" "security demo_pgp = security_state_new"
  "response_buffer demo_pgp = []" "response_offset demo_pgp = 0" "command_buffer demo_pgp = []"
  "chaining_ins demo_pgp = None" "current_le demo_pgp = None"
  by (simp_all add: demo_pgp_def pgp_new_def pgp_state_def demo_store_def)

lemma demo_admin_simps [simp]:
  "pgp_state demo_admin = (factory_state demo_env)\<lparr>key_sig := key_slot_default\<lparr>algorithm := attrs_ed25519\<rparr>\<rparr>"
  "security demo_admin = set_verified SC_PW3 security_state_new"
  "response_buffer demo_admin = []" "response_offset demo_admin = 0" "command_buffer demo_admin = []"
  "chaining_ins demo_admin = None" "current_le demo_admin = None"
  by (simp_all add: demo_admin_def)

lemma factory_not_terminated [simp]: "\<not> terminated (factory_state X)"
  by (simp add: factory_state_def card_state_default_def)

end
