(* ===== verification/Pgp_Data.thy ===== *)
theory Pgp_Data
  imports Pgp_State
begin

text \<open>
  The data objects of the OpenPGP applet: GET DATA and PUT DATA (\<open>handle_get_data\<close>,
  \<open>handle_put_data\<close> of \<open>src/openpgp/applet.rs\<close>). \<open>get_data_object\<close> and \<open>put_data_object\<close> are the
  matches on the tag; the handlers put the access check before and the save behind them.
\<close>

section \<open>GET DATA\<close>

definition get_data_object :: "u16 \<Rightarrow> card_state \<Rightarrow> byte list option" where
  "get_data_object tag s =
     (if tag = 0x004F then Some (get_aid s)
      else if tag = 0x5F52 then Some (get_historical_bytes s)
      else if tag = 0x0065 then Some (build_cardholder_data s)
      else if tag = 0x006E then Some (build_application_data s)
      else if tag = 0x007A then Some (build_security_support_template s)
      else if tag = 0x00C0 then Some (get_extended_capabilities s)
      else if tag = 0x00C1 then Some (attrs_to_bytes (algorithm (key_sig s)))
      else if tag = 0x00C2 then Some (attrs_to_bytes (algorithm (key_dec s)))
      else if tag = 0x00C3 then Some (attrs_to_bytes (algorithm (key_aut s)))
      else if tag = 0x00C4 then Some (get_pw_status_bytes s)
      else if tag = 0x00C5 then Some (get_fingerprints s)
      else if tag = 0x00C6 then Some (get_ca_fingerprints s)
      else if tag = 0x00C7 then Some (fingerprint_padded (key_sig s))
      else if tag = 0x00C8 then Some (fingerprint_padded (key_dec s))
      else if tag = 0x00C9 then Some (fingerprint_padded (key_aut s))
      else if tag = 0x00CA then Some (ca_fingerprint_padded (key_sig s))
      else if tag = 0x00CB then Some (ca_fingerprint_padded (key_dec s))
      else if tag = 0x00CC then Some (ca_fingerprint_padded (key_aut s))
      else if tag = 0x00CD then Some (get_key_timestamps s)
      else if tag = 0x00CE then Some (timestamp_to_bytes (generation_time (key_sig s)))
      else if tag = 0x00CF then Some (timestamp_to_bytes (generation_time (key_dec s)))
      else if tag = 0x00D0 then Some (timestamp_to_bytes (generation_time (key_aut s)))
      else if tag = 0x0093 then Some (get_signature_counter_bytes s)
      else if tag = 0x005B then Some (ch_name (cardholder s))
      else if tag = 0x5F2D then Some (ch_language (cardholder s))
      else if tag = 0x5F35 then Some [ch_sex (cardholder s)]
      else if tag = 0x005E then Some (ch_login (cardholder s))
      else if tag = 0x5F50 then Some (ch_url (cardholder s))
      else if tag = 0x0101 then Some (private_do_1 s)
      else if tag = 0x0102 then Some (private_do_2 s)
      else if tag = 0x0103 then Some (private_do_3 s)
      else if tag = 0x0104 then Some (private_do_4 s)
      else if tag = 0x7F21 then Some (certificate s)
      else if tag = 0x7F74 then Some (get_general_feature_management s)
      else if tag = 0x00D6 then Some [uif (key_sig s), 0x20]
      else if tag = 0x00D7 then Some [uif (key_dec s), 0x20]
      else if tag = 0x00D8 then Some [uif (key_aut s), 0x20]
      else if tag = 0x00FA then Some build_algorithm_information
      else None)"

definition handle_get_data :: "openpgp_applet \<Rightarrow> apdu \<Rightarrow> response" where
  "handle_get_data a cmd =
     (let tag = p1p2 cmd; access = get_data_access tag in
      if \<not> check_access a access then response_error SW_SECURITY_STATUS_NOT_SATISFIED
      else case get_data_object tag (pgp_state a) of
          None \<Rightarrow> response_error SW_REFERENCED_DATA_NOT_FOUND
        | Some d \<Rightarrow> response_success d)"

section \<open>PUT DATA\<close>

definition put_reset_code :: "'k env \<Rightarrow> byte list \<Rightarrow> card_state \<Rightarrow> u16 + card_state" where
  "put_reset_code X d s =
     (if d = [] then Ok (s\<lparr>pin_data := (pin_data s)\<lparr>rc_hash := [], rc_length := 0\<rparr>\<rparr>)
      else let rc_len = (of_nat (length d) :: byte) in
        if rc_len < rc_min_length (pin_data s) then Err SW_WRONG_LENGTH
        else Ok (s\<lparr>pin_data := (pin_data s)\<lparr>rc_hash := hash_pin X d, rc_length := rc_len,
          rc_retry_counter := rc_max_retries (pin_data s)\<rparr>\<rparr>))"

definition put_flag_object :: "u16 \<Rightarrow> byte list \<Rightarrow> card_state \<Rightarrow> u16 + card_state" where
  "put_flag_object tag d s =
     (if tag = 0x00D6 then (if d \<noteq> [] then Ok (s\<lparr>key_sig := (key_sig s)\<lparr>uif := d ! 0\<rparr>\<rparr>) else Ok s)
      else if tag = 0x00D7 then (if d \<noteq> [] then Ok (s\<lparr>key_dec := (key_dec s)\<lparr>uif := d ! 0\<rparr>\<rparr>) else Ok s)
      else if tag = 0x00D8 then (if d \<noteq> [] then Ok (s\<lparr>key_aut := (key_aut s)\<lparr>uif := d ! 0\<rparr>\<rparr>) else Ok s)
      else if tag = 0x7F21 then Ok (s\<lparr>certificate := d\<rparr>)
      else Err SW_REFERENCED_DATA_NOT_FOUND)"

definition put_data_object :: "'k env \<Rightarrow> u16 \<Rightarrow> byte list \<Rightarrow> card_state \<Rightarrow> u16 + card_state" where
  "put_data_object X tag d s =
     (if tag = 0x005B then Ok (s\<lparr>cardholder := (cardholder s)\<lparr>ch_name := from_utf8_lossy d\<rparr>\<rparr>)
      else if tag = 0x5F2D then Ok (s\<lparr>cardholder := (cardholder s)\<lparr>ch_language := from_utf8_lossy d\<rparr>\<rparr>)
      else if tag = 0x5F35 then (if d \<noteq> [] then Ok (s\<lparr>cardholder := (cardholder s)\<lparr>ch_sex := d ! 0\<rparr>\<rparr>) else Ok s)
      else if tag = 0x005E then Ok (s\<lparr>cardholder := (cardholder s)\<lparr>ch_login := from_utf8_lossy d\<rparr>\<rparr>)
      else if tag = 0x5F50 then Ok (s\<lparr>cardholder := (cardholder s)\<lparr>ch_url := from_utf8_lossy d\<rparr>\<rparr>)
      else if tag = 0x0101 then Ok (s\<lparr>private_do_1 := d\<rparr>)
      else if tag = 0x0102 then Ok (s\<lparr>private_do_2 := d\<rparr>)
      else if tag = 0x0103 then Ok (s\<lparr>private_do_3 := d\<rparr>)
      else if tag = 0x0104 then Ok (s\<lparr>private_do_4 := d\<rparr>)
      else if tag = 0x00C1 then (case attrs_from_bytes d of Some attrs \<Rightarrow> Ok (s\<lparr>key_sig := (key_sig s)\<lparr>algorithm := attrs\<rparr>\<rparr>)
          | None \<Rightarrow> Err SW_WRONG_DATA)
      else if tag = 0x00C2 then (case attrs_from_bytes d of Some attrs \<Rightarrow> Ok (s\<lparr>key_dec := (key_dec s)\<lparr>algorithm := attrs\<rparr>\<rparr>)
          | None \<Rightarrow> Err SW_WRONG_DATA)
      else if tag = 0x00C3 then (case attrs_from_bytes d of Some attrs \<Rightarrow> Ok (s\<lparr>key_aut := (key_aut s)\<lparr>algorithm := attrs\<rparr>\<rparr>)
          | None \<Rightarrow> Err SW_WRONG_DATA)
      else if tag = 0x00C4 then (if d \<noteq> [] then Ok (s\<lparr>pin_data := (pin_data s)\<lparr>pw1_valid_multiple := (d ! 0 \<noteq> 0)\<rparr>\<rparr>)
          else Ok s)
      else if tag = 0x00C7 then (if length d = 20 then Ok (s\<lparr>key_sig := (key_sig s)\<lparr>fingerprint := d\<rparr>\<rparr>)
          else Err SW_WRONG_LENGTH)
      else if tag = 0x00C8 then (if length d = 20 then Ok (s\<lparr>key_dec := (key_dec s)\<lparr>fingerprint := d\<rparr>\<rparr>)
          else Err SW_WRONG_LENGTH)
      else if tag = 0x00C9 then (if length d = 20 then Ok (s\<lparr>key_aut := (key_aut s)\<lparr>fingerprint := d\<rparr>\<rparr>)
          else Err SW_WRONG_LENGTH)
      else if tag = 0x00CA then (if length d = 20 then Ok (s\<lparr>key_sig := (key_sig s)\<lparr>ca_fingerprint := d\<rparr>\<rparr>)
          else Err SW_WRONG_LENGTH)
      else if tag = 0x00CB then (if length d = 20 then Ok (s\<lparr>key_dec := (key_dec s)\<lparr>ca_fingerprint := d\<rparr>\<rparr>)
          else Err SW_WRONG_LENGTH)
      else if tag = 0x00CC then (if length d = 20 then Ok (s\<lparr>key_aut := (key_aut s)\<lparr>ca_fingerprint := d\<rparr>\<rparr>)
          else Err SW_WRONG_LENGTH)
      else if tag = 0x00CE then (if length d = 4 then Ok (s\<lparr>key_sig := (key_sig s)\<lparr>generation_time := bytes_to_timestamp d\<rparr>\<rparr>)
          else Err SW_WRONG_LENGTH)
      else if tag = 0x00CF then (if length d = 4 then Ok (s\<lparr>key_dec := (key_dec s)\<lparr>generation_time := bytes_to_timestamp d\<rparr>\<rparr>)
          else Err SW_WRONG_LENGTH)
      else if tag = 0x00D0 then (if length d = 4 then Ok (s\<lparr>key_aut := (key_aut s)\<lparr>generation_time := bytes_to_timestamp d\<rparr>\<rparr>)
          else Err SW_WRONG_LENGTH)
      else if tag = 0x00D3 then put_reset_code X d s
      else put_flag_object tag d s)"

lemmas put_data_defs = put_data_object_def put_reset_code_def put_flag_object_def

definition handle_put_data :: "'k env \<Rightarrow> openpgp_applet \<Rightarrow> apdu \<Rightarrow> response \<times> openpgp_applet" where
  "handle_put_data X a cmd =
     (let tag = p1p2 cmd; access = put_data_access tag in
      if \<not> check_access a access then (response_error SW_SECURITY_STATUS_NOT_SATISFIED, a)
      else case put_data_object X tag (cmd_data cmd) (pgp_state a) of
          Err w \<Rightarrow> (response_error w, a)
        | Ok s \<Rightarrow> (response_ok, pgp_save X (put_state s a)))"

section \<open>What is written is read\<close>

text \<open>The tags that PUT DATA accepts and GET DATA returns as one value.\<close>

definition string_tags :: "u16 list" where
  "string_tags = [0x005B, 0x5F2D, 0x005E, 0x5F50]"

definition attribute_tags :: "u16 list" where
  "attribute_tags = [0x00C1, 0x00C2, 0x00C3]"

definition binary_tags :: "u16 list" where
  "binary_tags = [0x0101, 0x0102, 0x0103, 0x0104, 0x00C7, 0x00C8, 0x00C9, 0x00CA, 0x00CB, 0x00CC,
     0x00CE, 0x00CF, 0x00D0, 0x7F21]"

definition stored_form :: "u16 \<Rightarrow> byte list \<Rightarrow> byte list" where
  "stored_form tag d =
     (if tag \<in> set string_tags then from_utf8_lossy d
      else if tag \<in> set attribute_tags \<and> d ! 0 = ALG_RSA then take 6 d
      else d)"

lemma get_after_put_string:
  "tag \<in> set string_tags \<Longrightarrow> put_data_object X tag d s = Ok s' \<Longrightarrow>
     get_data_object tag s' = Some (from_utf8_lossy d)"
  unfolding string_tags_def list.set insert_iff empty_iff
  by (elim disjE FalseE; auto simp: put_data_defs get_data_object_def)

lemma get_after_put_attrs:
  assumes "tag \<in> set attribute_tags" "put_data_object X tag d s = Ok s'"
  shows "get_data_object tag s' = Some (if d ! 0 = ALG_RSA then take 6 d else d)"
proof (cases "attrs_from_bytes d")
  case None
  with assms show ?thesis
    unfolding attribute_tags_def list.set insert_iff empty_iff
    by (elim disjE FalseE; simp add: put_data_defs)
next
  case (Some attrs)
  have "get_data_object tag s' = Some (attrs_to_bytes attrs)"
    using assms Some unfolding attribute_tags_def list.set insert_iff empty_iff
    by (elim disjE FalseE; auto simp: put_data_defs get_data_object_def)
  then show ?thesis
    unfolding attrs_to_from [OF Some] .
qed

lemma get_after_put_binary:
  "tag \<in> set binary_tags \<Longrightarrow> put_data_object X tag d s = Ok s' \<Longrightarrow> get_data_object tag s' = Some d"
  unfolding binary_tags_def list.set insert_iff empty_iff
  by (elim disjE FalseE; auto simp: put_data_defs get_data_object_def fingerprint_padded_def
      ca_fingerprint_padded_def bytes_roundtrip split: if_split_asm)

lemma get_after_put:
  assumes "tag \<in> set (string_tags @ attribute_tags @ binary_tags)" "put_data_object X tag d s = Ok s'"
  shows "get_data_object tag s' = Some (stored_form tag d)"
proof -
  have disj: "set string_tags \<inter> set attribute_tags = {}"
    "set (string_tags @ attribute_tags) \<inter> set binary_tags = {}"
    by (simp_all add: string_tags_def attribute_tags_def binary_tags_def)
  consider "tag \<in> set string_tags" | "tag \<in> set attribute_tags" | "tag \<in> set binary_tags"
    using assms(1) by auto
  then show ?thesis
  proof cases
    case 1
    then show ?thesis using get_after_put_string [OF _ assms(2)] by (simp add: stored_form_def)
  next
    case 2
    then have "tag \<notin> set string_tags" using disj by auto
    with 2 get_after_put_attrs [OF _ assms(2)] show ?thesis by (simp add: stored_form_def)
  next
    case 3
    then have "tag \<notin> set string_tags" "tag \<notin> set attribute_tags" using disj by auto
    with 3 get_after_put_binary [OF _ assms(2)] show ?thesis by (simp add: stored_form_def)
  qed
qed

lemma readable_tags:
  "tag \<in> set (string_tags @ attribute_tags @ binary_tags) \<Longrightarrow> get_data_access tag = Always"
  by (auto simp: string_tags_def attribute_tags_def binary_tags_def get_data_access_def)

text \<open>
  The other tags that PUT DATA accepts: those that keep only the first byte of the data, or nothing
  of empty data, and the reset code.
\<close>

definition uif_tags :: "u16 list" where
  "uif_tags = [0x00D6, 0x00D7, 0x00D8]"

lemma get_after_put_byte:
  assumes "put_data_object X tag d s = Ok s'" "d \<noteq> []"
  shows "tag = 0x5F35 \<Longrightarrow> get_data_object tag s' = Some [d ! 0]"
    "tag \<in> set uif_tags \<Longrightarrow> get_data_object tag s' = Some [d ! 0, 0x20]"
    "tag = 0x00C4 \<Longrightarrow> get_data_object tag s' =
       Some ((if d ! 0 \<noteq> 0 then 0x01 else 0x00) # tl (get_pw_status_bytes s))"
proof -
  show "tag = 0x5F35 \<Longrightarrow> get_data_object tag s' = Some [d ! 0]"
    using assms by (auto simp: put_data_defs get_data_object_def)
  show "tag \<in> set uif_tags \<Longrightarrow> get_data_object tag s' = Some [d ! 0, 0x20]"
    using assms unfolding uif_tags_def list.set insert_iff empty_iff
    by (elim disjE FalseE; auto simp: put_data_defs get_data_object_def)
  show "tag = 0x00C4 \<Longrightarrow> get_data_object tag s' =
       Some ((if d ! 0 \<noteq> 0 then 0x01 else 0x00) # tl (get_pw_status_bytes s))"
    using assms by (auto simp: put_data_defs get_data_object_def get_pw_status_bytes_def)
qed

lemma put_empty_byte:
  "tag \<in> set (0x5F35 # 0x00C4 # uif_tags) \<Longrightarrow> put_data_object X tag [] s = Ok s"
  unfolding uif_tags_def list.set insert_iff empty_iff
  by (elim disjE FalseE; simp add: put_data_defs)

lemma put_data_tags:
  assumes "put_data_object X tag d s = Ok s'"
  shows "tag \<in> set (string_tags @ attribute_tags @ binary_tags) \<or> tag \<in> set (0x5F35 # 0x00C4 # uif_tags) \<or>
    tag = 0x00D3"
proof (rule ccontr)
  assume "\<not> ?thesis"
  then have "put_data_object X tag d s = Err SW_REFERENCED_DATA_NOT_FOUND"
    unfolding put_data_object_def put_flag_object_def
    by (simp add: string_tags_def attribute_tags_def binary_tags_def uif_tags_def)
  with assms show False by simp
qed

lemma readable_byte_tags:
  "tag \<in> set (0x5F35 # 0x00C4 # uif_tags) \<Longrightarrow> get_data_access tag = Always" "get_data_access 0x00D3 = Never"
  by (auto simp: uif_tags_def get_data_access_def)

section \<open>What PUT DATA can change\<close>

text \<open>Private and public keys, PW1, PW3, the signature counter and the life cycle stay.\<close>

definition protected_part :: "card_state \<Rightarrow> _" where
  "protected_part s =
     (map private_key_data [key_sig s, key_dec s, key_aut s],
      map public_key_data [key_sig s, key_dec s, key_aut s],
      (pw1_hash (pin_data s), pw1_length (pin_data s), pw1_retry_counter (pin_data s)),
      pw3_fields (pin_data s), signature_counter s, terminated s, serial_number s)"

lemma put_data_protected:
  "put_data_object X tag d s = Ok s' \<Longrightarrow> protected_part s' = protected_part s"
  unfolding put_data_defs Let_def
  by (elim if_eqE; auto simp: protected_part_def pw3_fields_def split: option.splits)

lemma put_data_counters:
  "put_data_object X tag d s = Ok s' \<Longrightarrow> counters_ok (pin_data s) \<Longrightarrow> counters_ok (pin_data s')"
  unfolding put_data_defs Let_def
  by (elim if_eqE; auto simp: counters_ok_def split: option.splits)

text \<open>Every tag that can be written needs a verified PIN.\<close>

lemma put_needs_pin: "put_data_access tag \<noteq> Always"
  by (auto simp: put_data_access_def)

lemma no_pin_no_access:
  "(\<And>c. \<not> verified c a) \<Longrightarrow> \<not> check_access a (put_data_access tag)"
  using put_needs_pin [of tag] by (auto simp: check_access_def split: access_condition.splits)

lemma put_access_admin:
  "tag \<noteq> 0x0101 \<Longrightarrow> tag \<noteq> 0x0102 \<Longrightarrow> put_data_access tag = AC_PW3 \<or> put_data_access tag = Never"
  by (auto simp: put_data_access_def)

lemma put_data_denied:
  "\<not> check_access a (put_data_access (p1p2 cmd)) \<Longrightarrow>
     handle_put_data X a cmd = (response_error SW_SECURITY_STATUS_NOT_SATISFIED, a)"
  by (simp add: handle_put_data_def Let_def)

section \<open>GET DATA has an object behind every readable tag\<close>

lemma private_do_tags:
  "0x0101 \<le> tag \<and> tag \<le> 0x0104 \<longleftrightarrow> tag \<in> set [0x0101, 0x0102, 0x0103, 0x0104]" for tag :: u16
  by (simp add: word_le_nat_alt word_unat_eq_iff) arith

lemma get_data_defined:
  assumes "get_data_access tag = Always"
  shows "get_data_object tag s \<noteq> None"
  using assms unfolding get_data_access_def private_do_tags list.set insert_iff empty_iff
  by (elim if_eqE disjE FalseE; simp add: get_data_object_def)

text \<open>Reading needs no PIN and never fails for a tag of the access table; any other tag is refused.\<close>

lemma get_data_handler:
  "handle_get_data a cmd =
     (case get_data_object (p1p2 cmd) (pgp_state a) of
        Some d \<Rightarrow> if get_data_access (p1p2 cmd) = Always then response_success d
          else response_error SW_SECURITY_STATUS_NOT_SATISFIED
      | None \<Rightarrow> response_error SW_SECURITY_STATUS_NOT_SATISFIED)"
proof -
  have "get_data_access (p1p2 cmd) = Always \<or> get_data_access (p1p2 cmd) = Never"
    by (simp add: get_data_access_def)
  then show ?thesis
    using get_data_defined [of "p1p2 cmd" "pgp_state a"]
    by (auto simp: handle_get_data_def Let_def check_access_def split: option.splits)
qed

section \<open>Properties\<close>

lemma put_data_error_word: "put_data_object X tag d s = Err w \<Longrightarrow> w \<noteq> SW_SUCCESS"
  unfolding put_data_defs Let_def
  by (elim if_eqE; auto simp: SW_defs split: option.splits)

lemma response_error_eq_ok: "response_error w = response_ok \<longleftrightarrow> w = SW_SUCCESS"
proof -
  have "w = SW_SUCCESS" if "response_error w = response_ok"
    using arg_cong [OF that, of resp_sw]
    by (simp add: response_ok_def response_success_def response_error_def resp_sw_new)
  then show ?thesis by (auto simp: response_ok_def response_success_def response_error_def)
qed

lemma put_data_ok:
  assumes "fst (handle_put_data X a cmd) = response_ok"
  shows "\<exists>s. put_data_object X (p1p2 cmd) (cmd_data cmd) (pgp_state a) = Ok s \<and>
    pgp_state (snd (handle_put_data X a cmd)) = s"
  using assms
  by (auto simp: handle_put_data_def Let_def response_error_eq_ok SW_SECURITY_STATUS_NOT_SATISFIED_def
      SW_SUCCESS_def split: if_splits sum.splits dest: put_data_error_word)

text \<open>
  What GET DATA returns after PUT DATA stored \<open>d\<close> under \<open>tag\<close> in the state \<open>s\<close>, for every tag that
  PUT DATA accepts; \<open>None\<close> for an object that cannot be read.
\<close>

definition read_back :: "u16 \<Rightarrow> byte list \<Rightarrow> card_state \<Rightarrow> byte list option" where
  "read_back tag d s =
     (if tag = 0x00D3 then None
      else if tag \<in> set (0x5F35 # 0x00C4 # uif_tags) then
        (if d = [] then get_data_object tag s
         else if tag = 0x5F35 then Some [d ! 0]
         else if tag = 0x00C4 then Some ((if d ! 0 \<noteq> 0 then 0x01 else 0x00) # tl (get_pw_status_bytes s))
         else Some [d ! 0, 0x20])
      else Some (stored_form tag d))"

lemma get_after_any_put:
  assumes "put_data_object X tag d s = Ok s'"
  shows "(if get_data_access tag = Always then get_data_object tag s' else None) = read_back tag d s"
  using put_data_tags [OF assms]
proof (elim disjE)
  assume tag: "tag \<in> set (string_tags @ attribute_tags @ binary_tags)"
  then have "tag \<noteq> 0x00D3" "tag \<notin> set (0x5F35 # 0x00C4 # uif_tags)"
    by (auto simp: string_tags_def attribute_tags_def binary_tags_def uif_tags_def)
  then show ?thesis
    using get_after_put [OF tag assms] readable_tags [OF tag] by (simp add: read_back_def)
next
  assume tag: "tag \<in> set (0x5F35 # 0x00C4 # uif_tags)"
  then have other: "tag \<noteq> 0x00D3" by (auto simp: uif_tags_def)
  show ?thesis
  proof (cases "d = []")
    case True
    then have "s' = s" using put_empty_byte [OF tag, of X s] assms by simp
    then show ?thesis using True tag other readable_byte_tags(1) [OF tag] by (simp add: read_back_def)
  next
    case False
    then show ?thesis
      using tag other readable_byte_tags(1) [OF tag] get_after_put_byte [OF assms False] by (auto simp: read_back_def)
  qed
next
  assume "tag = 0x00D3"
  then show ?thesis by (simp add: read_back_def readable_byte_tags(2))
qed

text \<open>
  C21: what PUT DATA accepted under a tag, GET DATA returns under this tag as follows. Private
  objects, the certificate, fingerprints, CA fingerprints and generation times come back as they were
  sent; the four strings of the cardholder with ill-formed UTF-8 replaced; algorithm attributes as
  sent, but those of RSA cut to their six bytes. Of the sex (5F35) and the touch flags (D6 to D8)
  only the first byte is kept, the latter returned before 20; of the PW status (C4) the first byte
  decides the flag in front of the status bytes, the rest of them is not written; empty data for
  these five changes nothing. The reset code (D3) cannot be read: GET DATA answers 6982. No other
  tag is accepted.
\<close>

theorem put_data_is_read_back:
  assumes "fst (handle_put_data X a cmd) = response_ok" "p1p2 g = p1p2 cmd"
  shows "handle_get_data (snd (handle_put_data X a cmd)) g =
      (case read_back (p1p2 cmd) (cmd_data cmd) (pgp_state a) of
         Some d \<Rightarrow> response_success d
       | None \<Rightarrow> response_error SW_SECURITY_STATUS_NOT_SATISFIED) \<and>
    p1p2 cmd \<in> set (string_tags @ attribute_tags @ binary_tags @ uif_tags @ [0x5F35, 0x00C4, 0x00D3])"
proof -
  obtain s where s: "put_data_object X (p1p2 cmd) (cmd_data cmd) (pgp_state a) = Ok s"
    "pgp_state (snd (handle_put_data X a cmd)) = s"
    using put_data_ok [OF assms(1)] by blast
  have "handle_get_data (snd (handle_put_data X a cmd)) g =
      (case read_back (p1p2 cmd) (cmd_data cmd) (pgp_state a) of
         Some d \<Rightarrow> response_success d
       | None \<Rightarrow> response_error SW_SECURITY_STATUS_NOT_SATISFIED)"
    unfolding get_data_handler assms(2) s(2) get_after_any_put [OF s(1), symmetric]
    by (simp split: option.split)
  with put_data_tags [OF s(1)] show ?thesis by auto
qed

theorem put_data_is_read_back_witness:
  "let put = \<lparr>cla = 0, ins = 0xDA, p1 = 0x00, p2 = 0x5B, cmd_data = [0x41, 0xFF], le = None\<rparr>;
       get = \<lparr>cla = 0, ins = 0xCA, p1 = 0x00, p2 = 0x5B, cmd_data = [], le = Some 256\<rparr> in
   handle_get_data (snd (handle_put_data demo_env demo_admin put)) get =
     response_success [0x41, 0xEF, 0xBF, 0xBD]"
proof -
  define put :: apdu where "put = \<lparr>cla = 0, ins = 0xDA, p1 = 0x00, p2 = 0x5B, cmd_data = [0x41, 0xFF], le = None\<rparr>"
  define get :: apdu where "get = \<lparr>cla = 0, ins = 0xCA, p1 = 0x00, p2 = 0x5B, cmd_data = [], le = Some 256\<rparr>"
  have tag: "p1p2 put = 0x005B" "p1p2 get = 0x005B" by (simp_all add: put_def get_def p1p2_def)
  have ok: "fst (handle_put_data demo_env demo_admin put) = response_ok"
    by (simp add: handle_put_data_def tag put_data_access_def check_access_def put_data_defs Let_def)
  have next1: "utf8_next 0x41 [0xFF] = (True, 0)" and next2: "utf8_next 0xFF [] = (False, 0)"
    by (simp_all add: utf8_next_def utf8_char_width_def)
  have lossy: "from_utf8_lossy [0x41, 0xFF] = [0x41, 0xEF, 0xBF, 0xBD]"
    by (simp add: next1 next2 REPLACEMENT_def)
  have "read_back (p1p2 put) (cmd_data put) s = Some [0x41, 0xEF, 0xBF, 0xBD]" for s
    unfolding tag by (simp add: read_back_def uif_tags_def stored_form_def string_tags_def put_def lossy del: from_utf8_lossy.simps)
  with put_data_is_read_back [OF ok, of get] tag
  have "handle_get_data (snd (handle_put_data demo_env demo_admin put)) get =
      response_success [0x41, 0xEF, 0xBF, 0xBD]"
    by simp
  then show ?thesis unfolding put_def get_def Let_def .
qed

text \<open>Without a verified PIN, PUT DATA answers 6982 and leaves the applet as it was.\<close>

theorem put_data_needs_pin:
  assumes "\<And>c. \<not> verified c a"
  shows "handle_put_data X a cmd = (response_error SW_SECURITY_STATUS_NOT_SATISFIED, a)"
  by (rule put_data_denied, rule no_pin_no_access, rule assms)

theorem put_data_needs_pin_witness:
  "handle_put_data demo_env demo_pgp
     \<lparr>cla = 0, ins = 0xDA, p1 = 0x01, p2 = 0x01, cmd_data = [1], le = None\<rparr> =
     (response_error SW_SECURITY_STATUS_NOT_SATISFIED, demo_pgp)"
  by (rule put_data_needs_pin) simp

text \<open>
  PUT DATA checks the minimum length of a reset code and not the maximum: a code longer than
  \<open>rc_max_length\<close> is stored, and RESET RETRY COUNTER never accepts it.
\<close>

theorem long_reset_code_is_useless:
  assumes "put_data_object X 0x00D3 code s = Ok s'" "length code \<le> 255"
    and "unat (rc_max_length (pin_data s)) < length code"
  shows "\<not> fst (reset_pw1_with_rc X code new (pin_data s'))"
proof -
  have max: "rc_max_length (pin_data s') = rc_max_length (pin_data s)"
    using assms(1) by (auto simp: put_data_defs Let_def split: if_splits)
  have "rc_max_length (pin_data s) < (of_nat (length code) :: byte)"
    using assms(2,3) by (simp add: word_less_nat_alt unat_of_nat)
  then have "\<not> pin_good X RC (pin_data s') code"
    using max by (simp add: pin_good_def pin_fields_def Let_def not_le)
  then show ?thesis
    by (simp add: reset_pw1_with_rc_def verify_pin_alt)
qed

theorem long_reset_code_is_useless_witness:
  "\<exists>s'. put_data_object demo_env 0x00D3 (replicate 200 0x31) (factory_state demo_env) = Ok s' \<and>
     \<not> fst (reset_pw1_with_rc demo_env (replicate 200 0x31) DEFAULT_PW1 (pin_data s'))"
proof -
  have rc: "rc_min_length (pin_data (factory_state demo_env)) = 8" "rc_max_length (pin_data (factory_state demo_env)) = 127"
    by (simp_all add: factory_state_def pin_data_default_def)
  obtain s' where s': "put_data_object demo_env 0x00D3 (replicate 200 0x31) (factory_state demo_env) = Ok s'"
    by (simp add: put_data_defs Let_def rc)
  have "unat (rc_max_length (pin_data (factory_state demo_env))) < length (replicate 200 (0x31 :: byte))"
    unfolding rc by simp
  with long_reset_code_is_useless [OF s'] s' show ?thesis by auto
qed

end
