(* ===== verification/Pgp_Pins.thy ===== *)
theory Pgp_Pins
  imports Pgp_State
begin

text \<open>
  The PIN commands of the OpenPGP applet: VERIFY, CHANGE REFERENCE DATA and RESET RETRY COUNTER
  (\<open>handle_verify\<close>, \<open>handle_change_reference_data\<close>, \<open>handle_reset_retry_counter\<close> of
  \<open>src/openpgp/applet.rs\<close>). A verification flag is set by a correct PIN only, the counters move
  as the retry guard of theory \<open>Pin_Manager\<close> says, and a blocked PIN stays blocked.
\<close>

definition verify_pin_type :: "byte \<Rightarrow> pin_type option" where
  "verify_pin_type b =
     (if b = 0x81 then Some PW1_81 else if b = 0x82 then Some PW1_82
      else if b = 0x83 then Some PW3 else None)"

definition condition_of :: "pin_type \<Rightarrow> security_condition option" where
  "condition_of t =
     (case t of PW1_81 \<Rightarrow> Some SC_PW1_81 | PW1_82 \<Rightarrow> Some SC_PW1_82 | PW3 \<Rightarrow> Some SC_PW3 | RC \<Rightarrow> None)"

definition retry_response :: "byte \<Rightarrow> response" where
  "retry_response retry_count =
     (if retry_count = 0 then response_error SW_AUTH_METHOD_BLOCKED
      else response_error (sw_counter_warning retry_count))"

definition strip_padding :: "byte list \<Rightarrow> byte list" where
  "strip_padding d = filter (\<lambda>b. b \<noteq> 0x00 \<and> b \<noteq> 0xFF) d"

definition verify_status :: "openpgp_applet \<Rightarrow> pin_type \<Rightarrow> response" where
  "verify_status a t =
     (let retry_count = get_retry_counter t (pgp_pins a) in
      if retry_count = 0 then response_error SW_AUTH_METHOD_BLOCKED
      else case condition_of t of
          None \<Rightarrow> response_error SW_WRONG_P1_P2
        | Some c \<Rightarrow>
            (if verified c a then response_ok
             else response_error (sw_counter_warning retry_count)))"

definition handle_verify :: "'k env \<Rightarrow> openpgp_applet \<Rightarrow> apdu \<Rightarrow> response \<times> openpgp_applet" where
  "handle_verify X a cmd =
     (case verify_pin_type (p2 cmd) of
        None \<Rightarrow> (response_error SW_WRONG_P1_P2, a)
      | Some t \<Rightarrow>
          if cmd_data cmd = [] then (verify_status a t, a)
          else let pin = strip_padding (cmd_data cmd);
                   (ok, d) = verify_pin X t pin (pgp_pins a);
                   a1 = put_pin_data d a in
            if ok then
              (case condition_of t of
                 None \<Rightarrow> (response_error SW_WRONG_P1_P2, a1)
               | Some c \<Rightarrow>
                   let s1 = set_verified c (security a1);
                       s2 = (if t = PW1_81 \<or> t = PW1_82
                             then set_pw1_valid_multiple (pw1_valid_multiple (pgp_pins a1)) s1
                             else s1) in
                   (response_ok, pgp_save X (a1\<lparr>security := s2\<rparr>)))
            else (retry_response (get_retry_counter t (pgp_pins a1)), pgp_save X a1))"

definition change_pin_type :: "byte \<Rightarrow> pin_type option" where
  "change_pin_type b = (if b = 0x81 then Some PW1_81 else if b = 0x83 then Some PW3 else None)"

text \<open>The length at which the data is split; \<open>RC\<close> cannot be named by P2.\<close>

definition stored_pin_length :: "pin_type \<Rightarrow> pin_data \<Rightarrow> nat option" where
  "stored_pin_length t d =
     (case t of
        PW1_81 \<Rightarrow> Some (unat (pw1_length d))
      | PW1_82 \<Rightarrow> Some (unat (pw1_length d))
      | PW3 \<Rightarrow> Some (unat (pw3_length d))
      | RC \<Rightarrow> None)"

definition handle_change_reference_data ::
  "'k env \<Rightarrow> openpgp_applet \<Rightarrow> apdu \<Rightarrow> response \<times> openpgp_applet" where
  "handle_change_reference_data X a cmd =
     (case change_pin_type (p2 cmd) of
        None \<Rightarrow> (response_error SW_WRONG_P1_P2, a)
      | Some t \<Rightarrow>
          (case stored_pin_length t (pgp_pins a) of
             None \<Rightarrow> (response_error SW_WRONG_P1_P2, a)
           | Some old_len \<Rightarrow>
               if length (cmd_data cmd) \<le> old_len then (response_error SW_WRONG_LENGTH, a)
               else let old_pin = take old_len (cmd_data cmd);
                        new_pin = drop old_len (cmd_data cmd);
                        (ok, d) = change_pin X t old_pin new_pin (pgp_pins a);
                        a1 = put_pin_data d a in
                 if ok then (response_ok, pgp_save X a1)
                 else (retry_response (get_retry_counter t (pgp_pins a1)), pgp_save X a1)))"

definition handle_reset_retry_counter ::
  "'k env \<Rightarrow> openpgp_applet \<Rightarrow> apdu \<Rightarrow> response \<times> openpgp_applet" where
  "handle_reset_retry_counter X a cmd =
     (if p2 cmd \<noteq> 0x81 then (response_error SW_WRONG_P1_P2, a)
      else if p1 cmd = 0x00 then
        (let rc_len = unat (rc_length (pgp_pins a)) in
         if length (cmd_data cmd) \<le> rc_len then (response_error SW_WRONG_LENGTH, a)
         else let reset_code = take rc_len (cmd_data cmd);
                  new_pin = drop rc_len (cmd_data cmd);
                  (ok, d) = reset_pw1_with_rc X reset_code new_pin (pgp_pins a);
                  a1 = pgp_save X (put_pin_data d a) in
           if ok then (response_ok, a1)
           else (response_error SW_SECURITY_STATUS_NOT_SATISFIED, a1))
      else if p1 cmd = 0x02 then
        (if \<not> verified SC_PW3 a then (response_error SW_SECURITY_STATUS_NOT_SATISFIED, a)
         else let (ok, d) = reset_pw1_with_pw3 X (cmd_data cmd) (pgp_pins a);
                  a1 = put_pin_data d a in
           if ok then (response_ok, pgp_save X a1)
           else (response_error SW_WRONG_DATA, a1))
      else (response_error SW_WRONG_P1_P2, a))"

section \<open>VERIFY\<close>

lemma condition_of_type:
  "verify_pin_type b = Some t \<Longrightarrow> \<exists>c. condition_of t = Some c"
  by (auto simp: verify_pin_type_def condition_of_def split: if_splits)

text \<open>The effect of VERIFY with data, in terms of the retry guard.\<close>

lemma handle_verify_pin:
  assumes t: "verify_pin_type (p2 cmd) = Some t" "condition_of t = Some c" and d: "cmd_data cmd \<noteq> []"
  defines "pin \<equiv> strip_padding (cmd_data cmd)"
  shows "handle_verify X a cmd =
     (let a1 = put_pin_data (snd (verify_pin X t pin (pgp_pins a))) a in
      if get_retry_counter t (pgp_pins a) \<noteq> 0 \<and> pin_good X t (pgp_pins a) pin then
        (response_ok, pgp_save X (a1\<lparr>security :=
           (if t = PW3 then set_verified c (security a)
            else set_pw1_valid_multiple (pw1_valid_multiple (pgp_pins a1)) (set_verified c (security a)))\<rparr>))
      else (retry_response (get_retry_counter t (pgp_pins a1)), pgp_save X a1))"
proof -
  have "t = PW1_81 \<or> t = PW1_82 \<longleftrightarrow> t \<noteq> PW3"
    using t by (cases t) (simp_all add: condition_of_def)
  then show ?thesis
    using t d unfolding pin_def
    by (auto simp: handle_verify_def Let_def split_beta pin.success_iff unsigned_eq_0_iff)
qed

lemma retry_response_not_success [simp]: "resp_sw (retry_response n) \<noteq> SW_SUCCESS"
  by (simp add: retry_response_def SW_AUTH_METHOD_BLOCKED_def) (simp add: SW_SUCCESS_def)

text \<open>Success is exactly a good PIN with tries left.\<close>

lemma handle_verify_success_iff:
  assumes "verify_pin_type (p2 cmd) = Some t" "cmd_data cmd \<noteq> []"
  shows "resp_sw (fst (handle_verify X a cmd)) = SW_SUCCESS \<longleftrightarrow>
    get_retry_counter t (pgp_pins a) \<noteq> 0 \<and> pin_good X t (pgp_pins a) (strip_padding (cmd_data cmd))"
proof -
  obtain c where c: "condition_of t = Some c" using condition_of_type [OF assms(1)] by blast
  show ?thesis
    unfolding handle_verify_pin [OF assms(1) c assms(2)] by (simp add: Let_def)
qed

text \<open>A flag that VERIFY sets is the one of the PIN that was presented, which was right.\<close>

lemma handle_verify_flags:
  assumes "verified c (snd (handle_verify X a cmd))" "\<not> verified c a"
  shows "\<exists>t. verify_pin_type (p2 cmd) = Some t \<and> condition_of t = Some c \<and>
    get_retry_counter t (pgp_pins a) \<noteq> 0 \<and> pin_good X t (pgp_pins a) (strip_padding (cmd_data cmd))"
proof (cases "verify_pin_type (p2 cmd)")
  case None
  with assms show ?thesis by (simp add: handle_verify_def)
next
  case (Some t)
  then obtain c' where c': "condition_of t = Some c'" using condition_of_type by blast
  show ?thesis
  proof (cases "cmd_data cmd = []")
    case True
    with assms Some show ?thesis by (simp add: handle_verify_def)
  next
    case False
    show ?thesis
      using assms Some c' unfolding handle_verify_pin [OF Some c' False]
      by (auto simp: Let_def split: if_splits)
  qed
qed

text \<open>VERIFY clears no flag.\<close>

lemma handle_verify_keeps_flags: "verified c a \<Longrightarrow> verified c (snd (handle_verify X a cmd))"
proof (cases "verify_pin_type (p2 cmd)")
  case (Some t)
  assume v: "verified c a"
  obtain c' where c': "condition_of t = Some c'" using condition_of_type [OF Some] by blast
  show ?thesis
  proof (cases "cmd_data cmd = []")
    case True
    with v Some show ?thesis by (simp add: handle_verify_def)
  next
    case False
    show ?thesis
      using v unfolding handle_verify_pin [OF Some c' False] by (simp add: Let_def)
  qed
qed (simp add: handle_verify_def)

text \<open>The PIN data after VERIFY is the PIN manager's.\<close>

lemma handle_verify_pins:
  "pgp_pins (snd (handle_verify X a cmd)) =
     (case verify_pin_type (p2 cmd) of
        None \<Rightarrow> pgp_pins a
      | Some t \<Rightarrow> if cmd_data cmd = [] then pgp_pins a
          else snd (verify_pin X t (strip_padding (cmd_data cmd)) (pgp_pins a)))"
  using condition_of_type [of "p2 cmd"]
  by (auto simp: handle_verify_def Let_def split_beta split: option.splits)

section \<open>CHANGE REFERENCE DATA and RESET RETRY COUNTER\<close>

lemma handle_change_pins:
  "\<exists>t p q. pgp_pins (snd (handle_change_reference_data X a cmd)) \<in>
     {pgp_pins a, snd (change_pin X t p q (pgp_pins a))}"
  by (auto simp: handle_change_reference_data_def Let_def split_beta split: option.splits)

lemma handle_reset_pins:
  "\<exists>p q. pgp_pins (snd (handle_reset_retry_counter X a cmd)) \<in>
     {pgp_pins a, snd (reset_pw1_with_rc X p q (pgp_pins a)), snd (reset_pw1_with_pw3 X q (pgp_pins a))}"
  by (auto simp: handle_reset_retry_counter_def Let_def split_beta)

lemma pin_handlers_security [simp]:
  "security (snd (handle_change_reference_data X a cmd)) = security a"
  "security (snd (handle_reset_retry_counter X a cmd)) = security a"
  by (simp_all add: handle_change_reference_data_def handle_reset_retry_counter_def Let_def split_beta
      split: option.splits)

lemma pin_handlers_counters:
  assumes "counters_ok (pgp_pins a)"
  shows "counters_ok (pgp_pins (snd (handle_verify X a cmd)))"
    "counters_ok (pgp_pins (snd (handle_change_reference_data X a cmd)))"
    "counters_ok (pgp_pins (snd (handle_reset_retry_counter X a cmd)))"
proof -
  show "counters_ok (pgp_pins (snd (handle_verify X a cmd)))"
    using assms by (auto simp: handle_verify_pins counters_ok_verify split: option.splits)
  show "counters_ok (pgp_pins (snd (handle_change_reference_data X a cmd)))"
    using handle_change_pins [of X a cmd] counters_ok_change [OF assms] assms by auto
  show "counters_ok (pgp_pins (snd (handle_reset_retry_counter X a cmd)))"
    using handle_reset_pins [of X a cmd] counters_ok_reset [OF assms] assms by auto
qed

text \<open>
  A PIN changed with the stored length splitting the data right is accepted by VERIFY afterwards,
  if it has no padding bytes: VERIFY strips 00 and FF, CHANGE REFERENCE DATA does not.
\<close>

lemma change_splits:
  assumes "change_pin_type (p2 cmd) = Some t" "stored_pin_length t (pgp_pins a) = Some (length old)"
    and "cmd_data cmd = old @ new" "new \<noteq> []"
  shows "handle_change_reference_data X a cmd =
    (let (ok, d) = change_pin X t old new (pgp_pins a); a1 = put_pin_data d a in
     (if ok then response_ok else retry_response (get_retry_counter t d), pgp_save X a1))"
  using assms by (simp add: handle_change_reference_data_def Let_def split_beta)

lemma strip_padding_id: "0x00 \<notin> set pin \<Longrightarrow> 0xFF \<notin> set pin \<Longrightarrow> strip_padding pin = pin"
  by (induction pin) (auto simp: strip_padding_def)

lemma strip_padding_free: "0x00 \<notin> set (strip_padding pin)" "0xFF \<notin> set (strip_padding pin)"
  by (simp_all add: strip_padding_def)

section \<open>Properties\<close>

text \<open>
  VERIFY with data succeeds exactly when the presented PIN, without its 00 and FF bytes, is the
  accepted one and tries are left.
\<close>

theorem verify_succeeds_iff:
  assumes "verify_pin_type (p2 cmd) = Some t" "cmd_data cmd \<noteq> []"
  shows "resp_sw (fst (handle_verify X a cmd)) = SW_SUCCESS \<longleftrightarrow>
    get_retry_counter t (pgp_pins a) \<noteq> 0 \<and> pin_good X t (pgp_pins a) (strip_padding (cmd_data cmd))"
  by (rule handle_verify_success_iff [OF assms])

lemma strip_default [simp]:
  "strip_padding DEFAULT_PW1 = DEFAULT_PW1" "strip_padding DEFAULT_PW3 = DEFAULT_PW3"
  "DEFAULT_PW1 \<noteq> []" "DEFAULT_PW3 \<noteq> []"
  by (simp_all add: strip_padding_def DEFAULT_PW1_def DEFAULT_PW3_def)

theorem verify_succeeds_iff_witness:
  "resp_sw (fst (handle_verify demo_env demo_pgp
     \<lparr>cla = 0, ins = 0x20, p1 = 0, p2 = 0x83, cmd_data = DEFAULT_PW3, le = None\<rparr>)) = SW_SUCCESS"
  by (subst verify_succeeds_iff [of _ PW3])
    (simp_all add: verify_pin_type_def factory_pin_good factory_counter)

text \<open>
  VERIFY strips the bytes 00 and FF from the presented PIN and CHANGE REFERENCE DATA does not:
  once a PIN that contains one of them is set, presenting it fails, unless the digests collide.
\<close>

theorem padded_pin_locks_out:
  assumes "change_pin X t old new (pgp_pins a) = (True, pgp_pins b)"
    and "sha256 X (strip_padding new) \<noteq> sha256 X new"
    and "verify_pin_type (p2 cmd) = Some t" "cmd_data cmd = new" "new \<noteq> []"
  shows "resp_sw (fst (handle_verify X b cmd)) \<noteq> SW_SUCCESS"
proof -
  have "fst (pin_fields t (pgp_pins b)) = sha256 X new"
    by (rule change_pin_hash [OF assms(1)])
  then have "\<not> pin_good X t (pgp_pins b) (strip_padding new)"
    using assms(2) by (auto simp: pin_good_def hash_pin_def Let_def split_beta)
  moreover have "cmd_data cmd \<noteq> []" using assms(4,5) by simp
  ultimately show ?thesis
    using handle_verify_success_iff [OF assms(3), of X b] assms(4) by simp
qed

theorem padded_pin_locks_out_witness:
  "\<exists>b. change_pin demo_env PW1_81 DEFAULT_PW1 [0x31, 0x32, 0x33, 0x34, 0x35, 0x36, 0xFF] (pgp_pins demo_pgp) =
       (True, pgp_pins b) \<and>
     resp_sw (fst (handle_verify demo_env b
       \<lparr>cla = 0, ins = 0x20, p1 = 0, p2 = 0x81, cmd_data = [0x31, 0x32, 0x33, 0x34, 0x35, 0x36, 0xFF], le = None\<rparr>)) \<noteq>
       SW_SUCCESS"
proof -
  let ?new = "[0x31, 0x32, 0x33, 0x34, 0x35, 0x36, 0xFF] :: byte list"
  obtain d where d: "change_pin demo_env PW1_81 DEFAULT_PW1 ?new (pgp_pins demo_pgp) = (True, d)"
    by (simp add: change_pin_alt verify_pin_alt factory_pin_good factory_counter Let_def)
      (simp add: pin_fields_def factory_state_def pin_data_default_def)
  have h: "sha256 demo_env (strip_padding ?new) \<noteq> sha256 demo_env ?new"
    by (simp only: demo_simps) code_simp
  have "change_pin demo_env PW1_81 DEFAULT_PW1 ?new (pgp_pins demo_pgp) = (True, pgp_pins (put_pin_data d demo_pgp))"
    using d by simp
  from padded_pin_locks_out [OF this h, of
      "\<lparr>cla = 0, ins = 0x20, p1 = 0, p2 = 0x81, cmd_data = ?new, le = None\<rparr>"] this
  show ?thesis by (intro exI [of _ "put_pin_data d demo_pgp"]) (simp add: verify_pin_type_def)
qed

end
