(* ===== verification/Rsa_Ops.thy ===== *)
theory Rsa_Ops
  imports Demo_Env
begin

text \<open>
  RSA operations (\<open>src/crypto/rsa.rs\<close>). \<open>BigUint\<close> is \<open>nat\<close>; a subtraction that would be
  negative panics in the crate, and a panic is the value \<open>None\<close> of the outer option. The
  length-prefixed components of the stored key blobs are a \<open>prefix_codec\<close> (\<open>lp\<close>), and
  \<open>mod_inverse\<close> is proved to terminate, not to panic, and to compute the inverse exactly when
  there is one.
\<close>

text \<open>The message strings of the errors are not modelled.\<close>

datatype rsa_error =
  KeyGenerationFailed | SigningFailed | DecryptionFailed | InvalidKey | InvalidData

text \<open>\<open>BigUint - BigUint\<close>: a negative result panics.\<close>

definition big_sub :: "nat \<Rightarrow> nat \<Rightarrow> nat option" where
  "big_sub a b = (if b \<le> a then Some (a - b) else None)"

section \<open>Stored key blobs\<close>

definition len16 :: "byte list \<Rightarrow> byte list" where
  "len16 bs = be_bytes16 (of_nat (length bs))"

definition encode_private_key :: "'k env \<Rightarrow> 'k \<Rightarrow> rsa_error + byte list" where
  "encode_private_key X key =
     (let e = big_to_bytes_be X (rsa_e X key); primes = rsa_primes X key in
      if length primes < 2 then Err InvalidKey
      else let p = big_to_bytes_be X (primes ! 0); q = big_to_bytes_be X (primes ! 1) in
        Ok (len16 e @ e @ len16 p @ p @ len16 q @ q))"

definition encode_public_key :: "'k env \<Rightarrow> 'k \<Rightarrow> byte list" where
  "encode_public_key X key =
     (let n = big_to_bytes_be X (rsa_n X key); e = big_to_bytes_be X (rsa_e X key) in
      len16 n @ n @ len16 e @ e)"

definition rsa_generate_keypair :: "'k env \<Rightarrow> nat \<Rightarrow> rsa_error + (byte list \<times> byte list)" where
  "rsa_generate_keypair X bits =
     (case rsa_new X bits of
        None \<Rightarrow> Err KeyGenerationFailed
      | Some private_key \<Rightarrow>
          (case encode_private_key X private_key of
             Err e \<Rightarrow> Err e
           | Ok private_data \<Rightarrow> Ok (private_data, encode_public_key X private_key)))"

definition get_modulus :: "byte list \<Rightarrow> byte list option" where
  "get_modulus pkd =
     (if length pkd < 4 then None
      else let n_len = unat (from_be16 (pkd ! 0) (pkd ! 1)) in
        if length pkd < 2 + n_len then None
        else Some (take n_len (drop 2 pkd)))"

definition get_exponent :: "byte list \<Rightarrow> byte list option" where
  "get_exponent pkd =
     (if length pkd < 4 then None
      else let n_len = unat (from_be16 (pkd ! 0) (pkd ! 1));
               e_offset = 2 + n_len in
        if length pkd < e_offset + 2 then None
        else let e_len = unat (from_be16 (pkd ! e_offset) (pkd ! (e_offset + 1))) in
          if length pkd < e_offset + 2 + e_len then None
          else Some (take e_len (drop (e_offset + 2) pkd)))"

section \<open>Modular inverse\<close>

text \<open>
  The loop state is \<open>(old_r, r, old_s, s, old_s_neg, s_neg)\<close>; signs are tracked separately.
\<close>

definition new_s :: "nat \<Rightarrow> nat \<Rightarrow> nat \<Rightarrow> bool \<Rightarrow> bool \<Rightarrow> nat \<times> bool" where
  "new_s qt old_s s old_s_neg s_neg =
     (let qs = qt * s in
      if old_s_neg = s_neg then
        (if old_s \<ge> qs then (old_s - qs, old_s_neg) else (qs - old_s, \<not> old_s_neg))
      else (old_s + qs, old_s_neg))"

function inverse_loop :: "nat \<Rightarrow> nat \<Rightarrow> nat \<Rightarrow> nat \<Rightarrow> bool \<Rightarrow> bool \<Rightarrow> nat \<times> nat \<times> bool" where
  "inverse_loop old_r r old_s s old_s_neg s_neg =
     (if r = 0 then (old_r, old_s, old_s_neg)
      else let qt = old_r div r; (t, t_neg) = new_s qt old_s s old_s_neg s_neg in
        inverse_loop r (old_r - qt * r) s t s_neg t_neg)"
  by pat_completeness auto
termination
  by (relation "measure (\<lambda>(_, r, _). r)") (auto simp: minus_div_mult_eq_mod)

declare inverse_loop.simps [simp del]

definition mod_inverse :: "nat \<Rightarrow> nat \<Rightarrow> nat option option" where
  "mod_inverse a m =
     (case inverse_loop m a 0 1 False False of
        (old_r, old_s, old_s_neg) \<Rightarrow>
          if old_r \<noteq> 1 then Some None
          else if old_s_neg then map_option Some (big_sub m old_s)
          else Some (Some old_s))"

section \<open>Private-key operations\<close>

definition decode_private_key :: "'k env \<Rightarrow> byte list \<Rightarrow> byte list \<Rightarrow> (rsa_error + 'k) option" where
  "decode_private_key X data n_bytes =
     (if length data < 6 then Some (Err InvalidKey)
      else let e_len = unat (from_be16 (data ! 0) (data ! 1)); offset = 2 in
      if offset + e_len > length data then Some (Err InvalidKey)
      else let e = big_from_bytes_be X (take e_len (drop offset data)); offset = offset + e_len in
      if offset + 2 > length data then Some (Err InvalidKey)
      else let p_len = unat (from_be16 (data ! offset) (data ! (offset + 1))); offset = offset + 2 in
      if offset + p_len > length data then Some (Err InvalidKey)
      else let p = big_from_bytes_be X (take p_len (drop offset data)); offset = offset + p_len in
      if offset + 2 > length data then Some (Err InvalidKey)
      else let q_len = unat (from_be16 (data ! offset) (data ! (offset + 1))); offset = offset + 2 in
      if offset + q_len > length data then Some (Err InvalidKey)
      else let q = big_from_bytes_be X (take q_len (drop offset data));
               n = big_from_bytes_be X n_bytes in
        (case big_sub p 1 of None \<Rightarrow> None | Some p_minus_1 \<Rightarrow>
        (case big_sub q 1 of None \<Rightarrow> None | Some q_minus_1 \<Rightarrow>
           let phi_n = p_minus_1 * q_minus_1 in
           (case mod_inverse e phi_n of
              None \<Rightarrow> None
            | Some None \<Rightarrow> Some (Err InvalidKey)
            | Some (Some d) \<Rightarrow>
                (case rsa_from_components X n e d [p, q] of
                   None \<Rightarrow> Some (Err InvalidKey)
                 | Some key \<Rightarrow> Some (Ok key))))))"

text \<open>\<open>while sig_bytes.len() < n { sig_bytes.insert(0, 0) }\<close>\<close>

function pad_left :: "nat \<Rightarrow> byte list \<Rightarrow> byte list" where
  "pad_left n bs = (if length bs < n then pad_left n (0 # bs) else bs)"
  by pat_completeness auto
termination by (relation "measure (\<lambda>(n, bs). n - length bs)") auto

declare pad_left.simps [simp del]

definition pkcs1_pad :: "nat \<Rightarrow> byte list \<Rightarrow> byte list" where
  "pkcs1_pad key_size digest_info =
     [0x00, 0x01] @ replicate (key_size - length digest_info - 3) 0xFF @ [0x00] @ digest_info"

definition sign_pkcs1v15 :: "'k env \<Rightarrow> 'k \<Rightarrow> byte list \<Rightarrow> rsa_error + byte list" where
  "sign_pkcs1v15 X key digest_info =
     (let key_size = rsa_size X key in
      if length digest_info + 11 > key_size then Err InvalidData
      else let m = big_from_bytes_be X (pkcs1_pad key_size digest_info);
               signature = big_modpow X m (rsa_d X key) (rsa_n X key) in
        Ok (pad_left key_size (big_to_bytes_be X signature)))"

definition raw_sign :: "'k env \<Rightarrow> 'k \<Rightarrow> byte list \<Rightarrow> rsa_error + byte list" where
  "raw_sign X key padded_data =
     (let m = big_from_bytes_be X padded_data;
          signature = big_modpow X m (rsa_d X key) (rsa_n X key);
          key_size = (rsa_size X key + 7) div 8 in
      Ok (pad_left key_size (big_to_bytes_be X signature)))"

definition rsa_decrypt :: "'k env \<Rightarrow> 'k \<Rightarrow> byte list \<Rightarrow> rsa_error + byte list" where
  "rsa_decrypt X key ciphertext =
     (case rsa_decrypt_pkcs1v15 X key ciphertext of
        None \<Rightarrow> Err DecryptionFailed
      | Some d \<Rightarrow> Ok d)"

section \<open>The length-prefixed codec\<close>

definition lp_enc :: "byte list \<Rightarrow> byte list" where
  "lp_enc bs = len16 bs @ bs"

definition lp_dec :: "byte list \<Rightarrow> (byte list \<times> byte list) option" where
  "lp_dec d =
     (if length d < 2 then None
      else let n = unat (from_be16 (d ! 0) (d ! 1)) in
        if length d < 2 + n then None else Some (take n (drop 2 d), drop (2 + n) d))"

lemma len16_nth: "from_be16 (len16 bs ! 0) (len16 bs ! Suc 0) = of_nat (length bs)"
  by (simp add: len16_def be_bytes16_def from_be16_bytes)

lemma length_len16 [simp]: "length (len16 bs) = 2"
  by (simp add: len16_def)

interpretation lp: prefix_codec lp_enc lp_dec "\<lambda>bs. length bs < 65536"
  by unfold_locales
    (simp add: lp_enc_def lp_dec_def Let_def nth_append len16_nth unat_of_nat_u16)

text \<open>The accessors of the public blob, and the parsing part of \<open>decode_private_key\<close>, are runs of it.\<close>

lemma get_modulus_lp:
  assumes "length n < 65536"
  shows "get_modulus (lp_enc n @ lp_enc e @ r) = Some n"
  using assms
  by (simp add: get_modulus_def lp_enc_def Let_def nth_append len16_nth unat_of_nat_u16)

lemma get_exponent_lp:
  assumes "length n < 65536" "length e < 65536"
  shows "get_exponent (lp_enc n @ lp_enc e @ r) = Some e"
  using assms
  by (simp add: get_exponent_def lp_enc_def Let_def nth_append len16_nth unat_of_nat_u16)

lemma encode_public_key_lp:
  "encode_public_key X k = lp_enc (big_to_bytes_be X (rsa_n X k)) @ lp_enc (big_to_bytes_be X (rsa_e X k))"
  by (simp add: encode_public_key_def lp_enc_def Let_def)

text \<open>What \<open>decode_private_key\<close> does once the three components are read.\<close>

definition key_of_parts :: "'k env \<Rightarrow> nat \<Rightarrow> nat \<Rightarrow> nat \<Rightarrow> nat \<Rightarrow> (rsa_error + 'k) option" where
  "key_of_parts X e p q n =
     (if p = 0 \<or> q = 0 then None
      else case mod_inverse e ((p - 1) * (q - 1)) of
          None \<Rightarrow> None
        | Some None \<Rightarrow> Some (Err InvalidKey)
        | Some (Some d) \<Rightarrow>
            (case rsa_from_components X n e d [p, q] of
               None \<Rightarrow> Some (Err InvalidKey)
             | Some key \<Rightarrow> Some (Ok key)))"

lemma decode_private_key_parts:
  assumes "length e < 65536" "length p < 65536" "length q < 65536"
  shows "decode_private_key X (lp_enc e @ lp_enc p @ lp_enc q @ r) nb =
    key_of_parts X (big_from_bytes_be X e) (big_from_bytes_be X p) (big_from_bytes_be X q)
      (big_from_bytes_be X nb)"
  using assms
  by (simp add: decode_private_key_def lp_enc_def Let_def nth_append len16_nth unat_of_nat_u16
      key_of_parts_def big_sub_def not_le)

section \<open>Correctness of the modular inverse\<close>

definition signed :: "bool \<Rightarrow> nat \<Rightarrow> int" where
  "signed neg n = (if neg then - int n else int n)"

lemma new_s_signed:
  "new_s q old_s s on sn = (t, tn) \<Longrightarrow> signed tn t = signed on old_s - int q * signed sn s"
  by (auto simp: new_s_def signed_def Let_def of_nat_diff split: if_splits)

text \<open>The loop invariant: Bezout rows, opposite signs, the magnitude identity, the gcd.\<close>

definition inverse_inv :: "nat \<Rightarrow> nat \<Rightarrow> nat \<Rightarrow> nat \<Rightarrow> int \<Rightarrow> int \<Rightarrow> bool" where
  "inverse_inv a m old_r r S T \<longleftrightarrow>
     (int m dvd int old_r - S * int a) \<and> (int m dvd int r - T * int a) \<and>
     S * T \<le> 0 \<and> \<bar>S\<bar> * int r + \<bar>T\<bar> * int old_r = int m \<and>
     (old_r \<noteq> 0 \<or> 0 \<le> T) \<and> (S < 0 \<longrightarrow> - S \<le> int m) \<and> gcd old_r r = gcd a m"

lemma inverse_inv_init: "inverse_inv a m m a 0 1"
  by (simp add: inverse_inv_def gcd.commute)

lemma abs_diff_opposite:
  fixes S T q :: int
  assumes "S * T \<le> 0" "0 \<le> q"
  shows "\<bar>S - q * T\<bar> = \<bar>S\<bar> + q * \<bar>T\<bar>"
proof (cases "0 \<le> T")
  case True
  show ?thesis
  proof (cases "T = 0")
    case False
    with True have "S \<le> 0" using assms(1) by (simp add: mult_le_0_iff)
    moreover have "0 \<le> q * T" using True assms(2) by simp
    ultimately show ?thesis using True by simp
  qed simp
next
  case False
  then have "0 \<le> S" using assms(1) by (simp add: mult_le_0_iff)
  moreover have "q * T \<le> 0" using False assms(2) by (simp add: mult_le_0_iff)
  ultimately show ?thesis using False by simp
qed

lemma inverse_inv_step:
  assumes inv: "inverse_inv a m old_r r S T" and r: "r \<noteq> 0"
  defines "q \<equiv> old_r div r"
  shows "inverse_inv a m r (old_r - q * r) T (S - int q * T)"
proof -
  have le: "q * r \<le> old_r" by (simp add: q_def)
  then have diff: "int (old_r - q * r) = int old_r - int q * int r"
    by (simp add: of_nat_diff)
  have rows: "int m dvd int old_r - S * int a" "int m dvd int r - T * int a"
    and opp: "S * T \<le> 0" and sum: "\<bar>S\<bar> * int r + \<bar>T\<bar> * int old_r = int m"
    and nz: "old_r \<noteq> 0 \<or> 0 \<le> T" and g: "gcd old_r r = gcd a m"
    using inv by (simp_all add: inverse_inv_def)
  have "int m dvd (int old_r - S * int a) - int q * (int r - T * int a)"
    by (intro dvd_diff dvd_mult rows)
  then have row: "int m dvd int (old_r - q * r) - (S - int q * T) * int a"
    by (simp add: diff algebra_simps)
  have opp': "T * (S - int q * T) \<le> 0"
  proof -
    have "0 \<le> int q * (T * T)" by simp
    with opp show ?thesis by (simp add: algebra_simps)
  qed
  have sum': "\<bar>T\<bar> * int (old_r - q * r) + \<bar>S - int q * T\<bar> * int r = int m"
    unfolding abs_diff_opposite [OF opp of_nat_0_le_iff] diff using sum by (simp add: algebra_simps)
  have bound: "T < 0 \<longrightarrow> - T \<le> int m"
  proof
    assume T: "T < 0"
    with nz have "1 \<le> int old_r" by simp
    then have "\<bar>T\<bar> * 1 \<le> \<bar>T\<bar> * int old_r"
      by (intro mult_left_mono) simp_all
    also have "\<dots> \<le> int m"
      unfolding sum [symmetric] by simp
    finally show "- T \<le> int m" using T by simp
  qed
  have "gcd r (old_r - q * r) = gcd a m"
    using g by (simp add: q_def minus_div_mult_eq_mod gcd.commute flip: gcd_red_nat)
  with r row opp' sum' bound rows(2) show ?thesis
    by (simp add: inverse_inv_def)
qed

lemma inverse_loop_correct:
  assumes "inverse_inv a m old_r r (signed on old_s) (signed sn s)"
    and "inverse_loop old_r r old_s s on sn = (g, x, neg)"
  shows "g = gcd a m \<and> int m dvd int g - signed neg x * int a \<and> (neg \<longrightarrow> x \<le> m)"
  using assms
proof (induction old_r r old_s s on sn rule: inverse_loop.induct)
  case (1 old_r r old_s s on sn)
  show ?case
  proof (cases "r = 0")
    case True
    with "1.prems" have eq: "g = old_r" "x = old_s" "neg = on"
      by (simp_all add: inverse_loop.simps)
    show ?thesis
      using "1.prems"(1) True unfolding eq
      by (auto simp: inverse_inv_def signed_def)
  next
    case False
    obtain t tn where t: "new_s (old_r div r) old_s s on sn = (t, tn)" by fastforce
    have "inverse_inv a m r (old_r - old_r div r * r) (signed sn s) (signed tn t)"
      using inverse_inv_step [OF "1.prems"(1) False] by (simp add: new_s_signed [OF t])
    moreover have "inverse_loop r (old_r - old_r div r * r) s t sn tn = (g, x, neg)"
      using "1.prems"(2) False by (subst (asm) inverse_loop.simps) (simp add: t)
    ultimately show ?thesis
      using "1.IH" [OF False refl t [symmetric] refl] by blast
  qed
qed

text \<open>It never panics, finds an inverse exactly when there is one, and what it finds is one.\<close>

lemma mod_inverse_correct:
  "\<exists>x. mod_inverse a m = Some x \<and>
     (case x of None \<Rightarrow> gcd a m \<noteq> 1 | Some d \<Rightarrow> gcd a m = 1 \<and> (a * d) mod m = 1 mod m)"
proof -
  obtain g y neg where l: "inverse_loop m a 0 1 False False = (g, y, neg)"
    by (metis prod_cases3)
  have "inverse_inv a m m a (signed False 0) (signed False 1)"
    using inverse_inv_init [of a m] by (simp add: signed_def)
  note c = inverse_loop_correct [OF this l]
  show ?thesis
  proof (cases "g = 1")
    case False
    with l c show ?thesis by (auto simp: mod_inverse_def)
  next
    case True
    define d where "d = (if neg then m - y else y)"
    have "int m dvd 1 - int a * int d"
    proof (cases neg)
      case neg: True
      have "int m dvd (1 + int y * int a) - int m * int a"
        using c True neg by (intro dvd_diff) (simp_all add: signed_def)
      with neg c show ?thesis by (simp add: d_def of_nat_diff algebra_simps)
    next
      case neg: False
      with c True show ?thesis by (simp add: d_def signed_def mult.commute)
    qed
    then have "int (a * d) mod int m = 1 mod int m"
      by (metis mod_eq_dvd_iff of_nat_mult)
    then have "(a * d) mod m = 1 mod m"
      by (metis of_nat_1 of_nat_eq_iff zmod_int)
    with True l c show ?thesis
      by (auto simp: mod_inverse_def big_sub_def d_def)
  qed
qed

section \<open>Signatures\<close>

lemma pad_left_eq: "pad_left n bs = replicate (n - length bs) 0 @ bs"
proof (induction n bs rule: pad_left.induct)
  case (1 n bs)
  show ?case
  proof (cases "length bs < n")
    case True
    then have "n - length bs = Suc (n - length (0 # bs))" by simp
    then show ?thesis
      using 1 [OF True] True by (subst pad_left.simps) (simp add: replicate_append_same)
  qed (subst pad_left.simps, simp)
qed

lemma pad_left_value: "be_value (pad_left n bs) = be_value bs"
  by (simp add: pad_left_eq)

lemma length_pkcs1_pad:
  "length d + 11 \<le> n \<Longrightarrow> length (pkcs1_pad n d) = n"
  by (simp add: pkcs1_pad_def)

section \<open>Properties\<close>

text \<open>
  C20: the extended Euclidean algorithm terminates and never panics; it finds an inverse exactly when
  the arguments are coprime, and what it finds is one.
\<close>

theorem mod_inverse_is_inverse:
  "\<exists>x. mod_inverse a m = Some x \<and>
     (case x of None \<Rightarrow> gcd a m \<noteq> 1 | Some d \<Rightarrow> gcd a m = 1 \<and> (a * d) mod m = 1 mod m)"
  by (rule mod_inverse_correct)

text \<open>
  A generated two-prime RSA key is decoded from its stored blobs: the modulus is found in the
  public blob, and the private blob yields the key with the same exponent and primes and a private
  exponent that inverts it, if the crate accepts such a key.
\<close>

theorem generated_rsa_key_is_decoded:
  assumes laws: "big_laws X" "rsa_laws X"
    and new: "rsa_new X bits = Some k" "rsa_primes X k = [p, q]"
    and len: "length (big_to_bytes_be X (rsa_n X k)) < 65536" "length (big_to_bytes_be X (rsa_e X k)) < 65536"
      "length (big_to_bytes_be X p) < 65536" "length (big_to_bytes_be X q) < 65536"
    and valid: "p \<noteq> 0" "q \<noteq> 0" "gcd (rsa_e X k) ((p - 1) * (q - 1)) = 1"
    and crate: "\<And>d. (rsa_e X k * d) mod ((p - 1) * (q - 1)) = 1 mod ((p - 1) * (q - 1)) \<Longrightarrow>
      rsa_from_components X (rsa_n X k) (rsa_e X k) d [p, q] \<noteq> None"
  shows "\<exists>priv pub n key. rsa_generate_keypair X bits = Ok (priv, pub) \<and> get_modulus pub = Some n \<and>
    decode_private_key X priv n = Some (Ok key) \<and> rsa_n X key = rsa_n X k \<and> rsa_e X key = rsa_e X k \<and>
    rsa_primes X key = [p, q] \<and>
    (rsa_e X k * rsa_d X key) mod ((p - 1) * (q - 1)) = 1 mod ((p - 1) * (q - 1))"
proof -
  let ?b = "big_to_bytes_be X"
  let ?priv = "lp_enc (?b (rsa_e X k)) @ lp_enc (?b p) @ lp_enc (?b q)"
  have big: "big_from_bytes_be X (?b m) = m" for m
    using laws(1) by (simp add: big_laws_def)
  have gen: "rsa_generate_keypair X bits = Ok (?priv, encode_public_key X k)"
    by (simp add: rsa_generate_keypair_def encode_private_key_def new lp_enc_def Let_def)
  have mod: "get_modulus (encode_public_key X k) = Some (?b (rsa_n X k))"
    using get_modulus_lp [OF len(1), of "?b (rsa_e X k)" "[]"] by (simp add: encode_public_key_lp)
  obtain d where d: "mod_inverse (rsa_e X k) ((p - 1) * (q - 1)) = Some (Some d)"
    "(rsa_e X k * d) mod ((p - 1) * (q - 1)) = 1 mod ((p - 1) * (q - 1))"
    using mod_inverse_correct [of "rsa_e X k" "(p - 1) * (q - 1)"] valid(3)
    by (auto split: option.splits)
  obtain key where key: "rsa_from_components X (rsa_n X k) (rsa_e X k) d [p, q] = Some key"
    using crate [OF d(2)] by blast
  have "decode_private_key X ?priv (?b (rsa_n X k)) = Some (Ok key)"
    using decode_private_key_parts [OF len(2-4), of X "[]"] valid(1,2) d(1) key
    by (simp add: big key_of_parts_def)
  moreover have "rsa_n X key = rsa_n X k \<and> rsa_e X key = rsa_e X k \<and> rsa_d X key = d \<and> rsa_primes X key = [p, q]"
    using laws(2) key by (simp add: rsa_laws_def)
  ultimately show ?thesis using gen mod d(2) by blast
qed

theorem generated_rsa_key_is_decoded_witness:
  "\<exists>priv pub n key. rsa_generate_keypair demo_env 2048 = Ok (priv, pub) \<and> get_modulus pub = Some n \<and>
    decode_private_key demo_env priv n = Some (Ok key) \<and> (17 * rsa_d demo_env key) mod 3120 = 1"
proof -
  have k: "rsa_n demo_env (3233, 17, 2753, [61, 53]) = 3233" "rsa_e demo_env (3233, 17, 2753, [61, 53]) = 17"
    "rsa_primes demo_env (3233, 17, 2753, [61, 53]) = [61, 53]"
    by (simp_all add: demo_env_def)
  have len: "length (demo_digits n) < 65536" if "n < 65536" for n
    using length_demo_digits [OF that] by simp
  have "gcd (17 :: nat) 3120 = 1" by (simp add: gcd_nat.simps)
  then show ?thesis
    using generated_rsa_key_is_decoded [of demo_env 2048 "(3233, 17, 2753, [61, 53])" 61 53]
    by (simp add: k len) blast
qed

end
