(* ===== verification/Ecc_Ops.thy ===== *)
theory Ecc_Ops
  imports Env
begin

text \<open>
  Elliptic-curve operations: \<open>src/crypto/ed25519.rs\<close>, \<open>x25519.rs\<close>, \<open>ecc_nist.rs\<close> and
  \<open>secp256k1.rs\<close>. The curve arithmetic is the crates'; the length and validity checks around it
  and the error each of them gives are the program's. Error messages are not modelled.
\<close>

datatype ecc_error =
  EccKeyGenerationFailed | EccSigningFailed | EcdhFailed | EccInvalidKey | UnsupportedCurve

section \<open>Ed25519\<close>

definition ed25519_generate_keypair :: "'k env \<Rightarrow> ecc_error + (byte list \<times> byte list)" where
  "ed25519_generate_keypair X =
     (let signing_key = ed_random X in Ok (signing_key, ed_verifying_key X signing_key))"

definition ed25519_sign :: "'k env \<Rightarrow> byte list \<Rightarrow> byte list \<Rightarrow> ecc_error + byte list" where
  "ed25519_sign X priv d =
     (if length priv \<noteq> 32 then Err EccInvalidKey else Ok (ed_sign X priv d))"

definition load_signing_key :: "byte list \<Rightarrow> ecc_error + byte list" where
  "load_signing_key priv = (if length priv \<noteq> 32 then Err EccInvalidKey else Ok priv)"

definition ed25519_get_public_key :: "'k env \<Rightarrow> byte list \<Rightarrow> ecc_error + byte list" where
  "ed25519_get_public_key X priv =
     (case load_signing_key priv of
        Err e \<Rightarrow> Err e
      | Ok signing_key \<Rightarrow> Ok (ed_verifying_key X signing_key))"

section \<open>X25519\<close>

definition x25519_generate_keypair :: "'k env \<Rightarrow> ecc_error + (byte list \<times> byte list)" where
  "x25519_generate_keypair X = (let secret = x_random X in Ok (secret, x_public X secret))"

definition x25519_ecdh :: "'k env \<Rightarrow> byte list \<Rightarrow> byte list \<Rightarrow> ecc_error + byte list" where
  "x25519_ecdh X priv peer =
     (if length priv \<noteq> 32 then Err EccInvalidKey
      else if length peer \<noteq> 32 then Err EccInvalidKey
      else Ok (x_diffie_hellman X priv peer))"

definition x25519_get_public_key :: "'k env \<Rightarrow> byte list \<Rightarrow> ecc_error + byte list" where
  "x25519_get_public_key X priv =
     (if length priv \<noteq> 32 then Err EccInvalidKey else Ok (x_public X priv))"

section \<open>NIST curves\<close>

definition nist_private_key_size :: "ecc_curve \<Rightarrow> nat" where
  "nist_private_key_size c = (case c of P256 \<Rightarrow> 32 | P384 \<Rightarrow> 48 | P521 \<Rightarrow> 66)"

definition nist_public_key_size :: "ecc_curve \<Rightarrow> nat" where
  "nist_public_key_size c = (case c of P256 \<Rightarrow> 65 | P384 \<Rightarrow> 97 | P521 \<Rightarrow> 133)"

definition nist_generate_keypair :: "'k env \<Rightarrow> ecc_curve \<Rightarrow> ecc_error + (byte list \<times> byte list)" where
  "nist_generate_keypair X c =
     (case c of
        P256 \<Rightarrow> (let k = nist_random X P256 in Ok (k, nist_point X P256 k))
      | P384 \<Rightarrow> (let k = nist_random X P384 in Ok (k, nist_point X P384 k))
      | P521 \<Rightarrow> (let k = nist_random X P521 in Ok (k, nist_point X P521 k)))"

definition nist_sign :: "'k env \<Rightarrow> ecc_curve \<Rightarrow> byte list \<Rightarrow> byte list \<Rightarrow> ecc_error + byte list" where
  "nist_sign X c priv d =
     (case c of
        P256 \<Rightarrow>
          (if length priv \<noteq> 32 then Err EccInvalidKey
           else if \<not> nist_signing_key_ok X P256 priv then Err EccInvalidKey
           else case nist_sign_prehash X P256 priv d of
               None \<Rightarrow> Err EccSigningFailed | Some sig \<Rightarrow> Ok sig)
      | P384 \<Rightarrow>
          (if length priv \<noteq> 48 then Err EccInvalidKey
           else if \<not> nist_signing_key_ok X P384 priv then Err EccInvalidKey
           else case nist_sign_prehash X P384 priv d of
               None \<Rightarrow> Err EccSigningFailed | Some sig \<Rightarrow> Ok sig)
      | P521 \<Rightarrow>
          (if length priv \<noteq> 66 then Err EccInvalidKey
           else if \<not> nist_signing_key_ok X P521 priv then Err EccInvalidKey
           else case nist_sign_prehash X P521 priv d of
               None \<Rightarrow> Err EccSigningFailed | Some sig \<Rightarrow> Ok sig))"

definition nist_get_public_key :: "'k env \<Rightarrow> ecc_curve \<Rightarrow> byte list \<Rightarrow> ecc_error + byte list" where
  "nist_get_public_key X c priv =
     (case c of
        P256 \<Rightarrow>
          (if length priv \<noteq> 32 then Err EccInvalidKey
           else if \<not> nist_signing_key_ok X P256 priv then Err EccInvalidKey
           else Ok (nist_point X P256 priv))
      | P384 \<Rightarrow>
          (if length priv \<noteq> 48 then Err EccInvalidKey
           else if \<not> nist_signing_key_ok X P384 priv then Err EccInvalidKey
           else Ok (nist_point X P384 priv))
      | P521 \<Rightarrow>
          (if length priv \<noteq> 66 then Err EccInvalidKey
           else if \<not> nist_secret_key_ok X P521 priv then Err EccInvalidKey
           else Ok (nist_point X P521 priv)))"

definition nist_ecdh :: "'k env \<Rightarrow> ecc_curve \<Rightarrow> byte list \<Rightarrow> byte list \<Rightarrow> ecc_error + byte list" where
  "nist_ecdh X c priv pub =
     (case c of
        P256 \<Rightarrow>
          (if length priv \<noteq> 32 then Err EccInvalidKey
           else if \<not> nist_secret_key_ok X P256 priv then Err EccInvalidKey
           else if \<not> nist_public_key_ok X P256 pub then Err EccInvalidKey
           else Ok (nist_diffie_hellman X P256 priv pub))
      | P384 \<Rightarrow>
          (if length priv \<noteq> 48 then Err EccInvalidKey
           else if \<not> nist_secret_key_ok X P384 priv then Err EccInvalidKey
           else if \<not> nist_public_key_ok X P384 pub then Err EccInvalidKey
           else Ok (nist_diffie_hellman X P384 priv pub))
      | P521 \<Rightarrow>
          (if length priv \<noteq> 66 then Err EccInvalidKey
           else if \<not> nist_secret_key_ok X P521 priv then Err EccInvalidKey
           else if \<not> nist_public_key_ok X P521 pub then Err EccInvalidKey
           else Ok (nist_diffie_hellman X P521 priv pub)))"

section \<open>secp256k1\<close>

definition secp256k1_generate_keypair :: "'k env \<Rightarrow> ecc_error + (byte list \<times> byte list)" where
  "secp256k1_generate_keypair X = (let k = k256_random X in Ok (k, k256_point X k))"

definition secp256k1_sign :: "'k env \<Rightarrow> byte list \<Rightarrow> byte list \<Rightarrow> ecc_error + byte list" where
  "secp256k1_sign X priv d =
     (if length priv \<noteq> 32 then Err EccInvalidKey
      else if \<not> k256_signing_key_ok X priv then Err EccInvalidKey
      else Ok (k256_sign X priv d))"

definition secp256k1_get_public_key :: "'k env \<Rightarrow> byte list \<Rightarrow> ecc_error + byte list" where
  "secp256k1_get_public_key X priv =
     (if length priv \<noteq> 32 then Err EccInvalidKey
      else if \<not> k256_signing_key_ok X priv then Err EccInvalidKey
      else Ok (k256_point X priv))"

definition secp256k1_ecdh_op :: "'k env \<Rightarrow> byte list \<Rightarrow> byte list \<Rightarrow> ecc_error + byte list" where
  "secp256k1_ecdh_op X priv pub =
     (if length priv \<noteq> 32 then Err EccInvalidKey
      else if \<not> k256_secret_key_ok X priv then Err EccInvalidKey
      else if \<not> k256_public_key_ok X pub then Err EccInvalidKey
      else Ok (k256_diffie_hellman X priv pub))"

section \<open>When the operations succeed\<close>

lemma nist_sign_ok_iff:
  "nist_sign X c priv d = Ok sig \<longleftrightarrow>
     length priv = nist_private_key_size c \<and> nist_signing_key_ok X c priv \<and>
     nist_sign_prehash X c priv d = Some sig"
  by (cases c) (auto simp: nist_sign_def nist_private_key_size_def split: option.splits)

lemma nist_ecdh_ok_iff:
  "nist_ecdh X c priv pub = Ok z \<longleftrightarrow>
     length priv = nist_private_key_size c \<and> nist_secret_key_ok X c priv \<and>
     nist_public_key_ok X c pub \<and> z = nist_diffie_hellman X c priv pub"
  by (cases c) (auto simp: nist_ecdh_def nist_private_key_size_def)

text \<open>A key pair is consistent: its public half is what its private half yields.\<close>

lemma generated_public_key:
  "length (ed_random X) = 32 \<Longrightarrow>
     \<exists>k p. ed25519_generate_keypair X = Ok (k, p) \<and> ed25519_get_public_key X k = Ok p"
  "length (x_random X) = 32 \<Longrightarrow>
     \<exists>k p. x25519_generate_keypair X = Ok (k, p) \<and> x25519_get_public_key X k = Ok p"
  by (simp_all add: ed25519_generate_keypair_def ed25519_get_public_key_def load_signing_key_def
      x25519_generate_keypair_def x25519_get_public_key_def Let_def)

end
