(* ===== verification/Digest_Ops.thy ===== *)
theory Digest_Ops
  imports Env
begin

text \<open>
  Digests, Triple DES in ECB mode, and OpenPGP v4 fingerprints: \<open>src/crypto/hash.rs\<close>,
  \<open>tdes.rs\<close> and \<open>fingerprint.rs\<close>. The digests and the block cipher are the crates'; the
  chunking, the packet layouts and the truncated length fields are the program's.
\<close>

section \<open>Hash operations\<close>

datatype hash_algorithm = SHA1 | SHA256 | SHA512

definition hash_bytes :: "'k env \<Rightarrow> hash_algorithm \<Rightarrow> byte list \<Rightarrow> byte list" where
  "hash_bytes X a d = (case a of SHA1 \<Rightarrow> sha1 X d | SHA256 \<Rightarrow> sha256 X d | SHA512 \<Rightarrow> sha512 X d)"

definition output_size :: "hash_algorithm \<Rightarrow> nat" where
  "output_size a = (case a of SHA1 \<Rightarrow> 20 | SHA256 \<Rightarrow> 32 | SHA512 \<Rightarrow> 64)"

lemma hash_output_size: "hash_laws X \<Longrightarrow> length (hash_bytes X a d) = output_size a"
  by (cases a) (simp_all add: hash_laws_def hash_bytes_def output_size_def)

section \<open>Triple DES\<close>

datatype tdes_error = TdesInvalidKey | TdesInvalidData | TdesEncryptionFailed | TdesDecryptionFailed

definition BLOCK_SIZE :: nat where "BLOCK_SIZE = 8"
definition KEY_SIZE :: nat where "KEY_SIZE = 24"

definition tdes_encrypt_block :: "'k env \<Rightarrow> byte list \<Rightarrow> byte list \<Rightarrow> tdes_error + byte list" where
  "tdes_encrypt_block X key plaintext =
     (if length key \<noteq> KEY_SIZE then Err TdesInvalidKey
      else if length plaintext \<noteq> BLOCK_SIZE then Err TdesInvalidData
      else Ok (tdes_encrypt X key plaintext))"

definition tdes_decrypt_block :: "'k env \<Rightarrow> byte list \<Rightarrow> byte list \<Rightarrow> tdes_error + byte list" where
  "tdes_decrypt_block X key ciphertext =
     (if length key \<noteq> KEY_SIZE then Err TdesInvalidKey
      else if length ciphertext \<noteq> BLOCK_SIZE then Err TdesInvalidData
      else Ok (tdes_decrypt X key ciphertext))"

text \<open>\<open>slice::chunks(8)\<close>\<close>

function chunks8 :: "byte list \<Rightarrow> byte list list" where
  "chunks8 bs = (if bs = [] then [] else take 8 bs # chunks8 (drop 8 bs))"
  by pat_completeness auto
termination by (relation "measure length") auto

declare chunks8.simps [simp del]

definition tdes_encrypt_ecb :: "'k env \<Rightarrow> byte list \<Rightarrow> byte list \<Rightarrow> tdes_error + byte list" where
  "tdes_encrypt_ecb X key plaintext =
     (if length key \<noteq> KEY_SIZE then Err TdesInvalidKey
      else if length plaintext mod BLOCK_SIZE \<noteq> 0 then Err TdesInvalidData
      else Ok (concat (map (tdes_encrypt X key) (chunks8 plaintext))))"

definition tdes_decrypt_ecb :: "'k env \<Rightarrow> byte list \<Rightarrow> byte list \<Rightarrow> tdes_error + byte list" where
  "tdes_decrypt_ecb X key ciphertext =
     (if length key \<noteq> KEY_SIZE then Err TdesInvalidKey
      else if length ciphertext mod BLOCK_SIZE \<noteq> 0 then Err TdesInvalidData
      else Ok (concat (map (tdes_decrypt X key) (chunks8 ciphertext))))"

lemma chunks8_Nil [simp]: "chunks8 [] = []"
  by (simp add: chunks8.simps)

lemma chunks8_append [simp]: "length b = 8 \<Longrightarrow> chunks8 (b @ bs) = b # chunks8 bs"
  by (subst chunks8.simps) auto

lemma blocks_induct [consumes 1, case_names Nil block]:
  assumes "length bs mod 8 = 0" "P []"
    and "\<And>b cs. length b = 8 \<Longrightarrow> length cs mod 8 = 0 \<Longrightarrow> P cs \<Longrightarrow> P (b @ cs)"
  shows "P bs"
  using assms(1)
proof (induction "length bs" arbitrary: bs rule: less_induct)
  case less
  show ?case
  proof (cases "bs = []")
    case False
    then have 8: "8 \<le> length bs" using less.prems by (cases "length bs < 8") auto
    then have "P (take 8 bs @ drop 8 bs)"
      using less by (intro assms(3)) (auto simp: mod_diff_eq [symmetric] le_mod_geq)
    then show ?thesis by simp
  qed (simp add: assms(2))
qed

lemma tdes_ecb_roundtrip:
  assumes "tdes_laws X" "length key = 24" "length d mod 8 = 0"
  shows "\<exists>c. tdes_encrypt_ecb X key d = Ok c \<and> length c = length d \<and> tdes_decrypt_ecb X key c = Ok d"
proof -
  let ?e = "concat (map (tdes_encrypt X key) (chunks8 d))"
  have "length ?e = length d \<and> concat (map (tdes_decrypt X key) (chunks8 ?e)) = d"
    using assms(3)
    by (induction rule: blocks_induct) (use assms(1) in \<open>auto simp: tdes_laws_def\<close>)
  then show ?thesis
    using assms(2,3) by (simp add: tdes_encrypt_ecb_def tdes_decrypt_ecb_def KEY_SIZE_def BLOCK_SIZE_def)
qed

section \<open>OpenPGP v4 fingerprints\<close>

text \<open>A packet is hashed behind 0x99 and its length, which \<open>as u16\<close> truncates.\<close>

definition hash_packet :: "'k env \<Rightarrow> byte list \<Rightarrow> byte list" where
  "hash_packet X packet = sha1 X (0x99 # be_bytes16 (of_nat (length packet)) @ packet)"

definition bit_count :: "byte list \<Rightarrow> byte list" where
  "bit_count bs = be_bytes16 (of_nat (length bs * 8))"

definition calculate_fingerprint_rsa :: "'k env \<Rightarrow> byte list \<Rightarrow> byte list \<Rightarrow> u32 \<Rightarrow> byte list" where
  "calculate_fingerprint_rsa X n e timestamp =
     (let packet = [4] @ be_bytes32 timestamp @ [1] @ bit_count n @ n @ bit_count e @ e in
      hash_packet X packet)"

definition calculate_fingerprint_eddsa :: "'k env \<Rightarrow> byte list \<Rightarrow> u32 \<Rightarrow> byte list" where
  "calculate_fingerprint_eddsa X public_key timestamp =
     (let oid = [0x2B, 0x06, 0x01, 0x04, 0x01, 0xDA, 0x47, 0x0F, 0x01];
          pk_with_prefix = [0x40] @ public_key;
          packet = [4] @ be_bytes32 timestamp @ [22] @ [of_nat (length oid)] @ oid @
            bit_count pk_with_prefix @ pk_with_prefix in
      hash_packet X packet)"

definition calculate_fingerprint_ecdh_x25519 :: "'k env \<Rightarrow> byte list \<Rightarrow> u32 \<Rightarrow> byte list" where
  "calculate_fingerprint_ecdh_x25519 X public_key timestamp =
     (let oid = [0x2B, 0x06, 0x01, 0x04, 0x01, 0x97, 0x55, 0x01, 0x05, 0x01];
          pk_with_prefix = [0x40] @ public_key;
          packet = [4] @ be_bytes32 timestamp @ [18] @ [of_nat (length oid)] @ oid @
            bit_count pk_with_prefix @ pk_with_prefix @ [3, 1, 8, 7] in
      hash_packet X packet)"

definition calculate_fingerprint_ecdsa ::
  "'k env \<Rightarrow> byte list \<Rightarrow> byte list \<Rightarrow> u32 \<Rightarrow> byte list" where
  "calculate_fingerprint_ecdsa X public_key oid timestamp =
     (let packet = [4] @ be_bytes32 timestamp @ [19] @ [of_nat (length oid)] @ oid @
            bit_count public_key @ public_key in
      hash_packet X packet)"

definition calculate_fingerprint_ecdh ::
  "'k env \<Rightarrow> byte list \<Rightarrow> byte list \<Rightarrow> u32 \<Rightarrow> byte list" where
  "calculate_fingerprint_ecdh X public_key oid timestamp =
     (let (hash_algo, cipher_algo) =
            (if length public_key = 133 then (10, 9)
             else if length public_key = 97 then (9, 9)
             else (8, 7));
          packet = [4] @ be_bytes32 timestamp @ [18] @ [of_nat (length oid)] @ oid @
            bit_count public_key @ public_key @ [3, 1, hash_algo, cipher_algo] in
      hash_packet X packet)"

text \<open>\<open>unwrap_or_default\<close>: a clock before 1970 counts as 0; the seconds are truncated to 32 bits.\<close>

definition current_timestamp :: "'k env \<Rightarrow> u32" where
  "current_timestamp X = (case clock_secs X of Some n \<Rightarrow> of_nat n | None \<Rightarrow> 0)"

lemma length_fingerprints:
  assumes "hash_laws X"
  shows "length (calculate_fingerprint_rsa X n e t) = 20"
    "length (calculate_fingerprint_eddsa X p t) = 20"
    "length (calculate_fingerprint_ecdh_x25519 X p t) = 20"
    "length (calculate_fingerprint_ecdsa X p oid t) = 20"
    "length (calculate_fingerprint_ecdh X p oid t) = 20"
  using assms
  by (simp_all add: hash_laws_def hash_packet_def Let_def calculate_fingerprint_rsa_def
      calculate_fingerprint_eddsa_def calculate_fingerprint_ecdh_x25519_def
      calculate_fingerprint_ecdsa_def calculate_fingerprint_ecdh_def split_beta)

section \<open>The length of an MPI\<close>

text \<open>
  RFC 4880 hashes the number of significant bits of a multiprecision integer; the program hashes
  eight times its bytes. The two differ whenever the top bit is clear: for the RSA exponent 65537, and
  for every public key behind the prefix 40 or 04. The fingerprints of generated keys are not those that
  OpenPGP implementations compute.
\<close>

fun mpi_bits :: "nat \<Rightarrow> nat" where
  "mpi_bits n = (if n = 0 then 0 else Suc (mpi_bits (n div 2)))"

declare mpi_bits.simps [simp del]

lemma mpi_bits_le: "n < 2 ^ k \<Longrightarrow> mpi_bits n \<le> k"
proof (induction k arbitrary: n)
  case (Suc k)
  then have "n div 2 < 2 ^ k" by (simp add: less_mult_imp_div_less mult.commute)
  then show ?case using Suc.IH [of "n div 2"] by (subst mpi_bits.simps) simp
qed (simp add: mpi_bits.simps)

lemma fingerprint_mpi_length:
  assumes "bs \<noteq> []" "hd bs < 128" "length bs < 8192"
  shows "bit_count bs \<noteq> be_bytes16 (of_nat (mpi_bits (be_value bs)))"
proof
  assume eq: "bit_count bs = be_bytes16 (of_nat (mpi_bits (be_value bs)))"
  obtain b cs where bs: "bs = b # cs" using assms(1) by (cases bs) auto
  have b: "unat b < 128" using assms(2) by (simp add: bs word_less_nat_alt)
  have "be_value bs = unat b * 256 ^ length cs + be_value cs"
    using be_value_append [of "[b]" cs] by (simp add: bs be_value_def)
  also have "\<dots> < (unat b + 1) * 256 ^ length cs" using be_value_less [of cs] by simp
  also have "\<dots> \<le> 128 * 256 ^ length cs" using b by (intro mult_le_mono1) simp
  also have "\<dots> = 2 ^ (7 + 8 * length cs)" unfolding power_add power_mult by simp
  finally have le: "mpi_bits (be_value bs) \<le> 7 + 8 * length cs" by (rule mpi_bits_le)
  have inj: "u = v" if "be_bytes16 u = be_bytes16 v" for u v :: u16
    using that from_be16_bytes [of u] from_be16_bytes [of v] unfolding be_bytes16_def by (metis list.inject)
  have "(of_nat (length bs * 8) :: u16) = of_nat (mpi_bits (be_value bs))"
    using eq by (intro inj) (simp add: bit_count_def)
  then have "unat (of_nat (length bs * 8) :: u16) = unat (of_nat (mpi_bits (be_value bs)) :: u16)" by simp
  then have "length bs * 8 = mpi_bits (be_value bs)"
    using assms(3) le unfolding unat_of_nat_u16 by (simp add: bs)
  with le show False by (simp add: bs)
qed

end
