(* ===== verification/Pgp_Keys.thy ===== *)
theory Pgp_Keys
  imports Pgp_State Rsa_Ops Ecc_Ops Digest_Ops
begin

text \<open>
  Key management of the OpenPGP applet: key import (PUT DATA odd, \<open>handle_key_import\<close>) and
  GENERATE ASYMMETRIC KEY PAIR (\<open>handle_generate_key\<close>) of \<open>src/openpgp/applet.rs\<close>, with the
  parser of the RSA component lengths. Those lengths are \<open>usize\<close>: 64-bit words, whose additions
  wrap as in the release profile; a slice out of range panics (\<open>None\<close>).
\<close>

type_synonym usize = "64 word"

datatype key_slot_type = KT_Sig | KT_Dec | KT_Aut

definition get_slot :: "key_slot_type \<Rightarrow> card_state \<Rightarrow> key_slot" where
  "get_slot kt s = (case kt of KT_Sig \<Rightarrow> key_sig s | KT_Dec \<Rightarrow> key_dec s | KT_Aut \<Rightarrow> key_aut s)"

definition put_slot :: "key_slot_type \<Rightarrow> key_slot \<Rightarrow> card_state \<Rightarrow> card_state" where
  "put_slot kt k s =
     (case kt of KT_Sig \<Rightarrow> s\<lparr>key_sig := k\<rparr> | KT_Dec \<Rightarrow> s\<lparr>key_dec := k\<rparr> | KT_Aut \<Rightarrow> s\<lparr>key_aut := k\<rparr>)"

definition put_pgp_slot :: "key_slot_type \<Rightarrow> key_slot \<Rightarrow> openpgp_applet \<Rightarrow> openpgp_applet" where
  "put_pgp_slot kt k a = put_state (put_slot kt k (pgp_state a)) a"

section \<open>Component lengths\<close>

definition parse_ber_length :: "byte list \<Rightarrow> usize \<times> nat" where
  "parse_ber_length d =
     (if d = [] then (0, 0)
      else let first = d ! 0 in
        if first AND 0x80 = 0 then (ucast first, 1)
        else let num_bytes = unat (first AND 0x7F) in
          if length d < 1 + num_bytes then (0, 1)
          else (foldl (\<lambda>acc b. push_bit 8 acc OR ucast b) 0 (take num_bytes (drop 1 d)), 1 + num_bytes))"

lemma parse_ber_length_consumes: "d \<noteq> [] \<Longrightarrow> 1 \<le> snd (parse_ber_length d)"
  by (auto simp: parse_ber_length_def Let_def)

function crt_loop :: "byte list \<Rightarrow> usize \<times> usize \<times> usize \<Rightarrow> usize \<times> usize \<times> usize" where
  "crt_loop d (e_len, p_len, q_len) =
     (case d of
        [] \<Rightarrow> (e_len, p_len, q_len)
      | tag # rest \<Rightarrow>
          if rest = [] then (e_len, p_len, q_len)
          else let (len, len_bytes) = parse_ber_length rest in
            crt_loop (drop len_bytes rest)
              (if tag = 0x91 then (len, p_len, q_len)
               else if tag = 0x92 then (e_len, len, q_len)
               else if tag = 0x93 then (e_len, p_len, len)
               else (e_len, p_len, q_len)))"
  by pat_completeness auto
termination by (relation "measure (\<lambda>(d, _). length d)") auto

declare crt_loop.simps [simp del]

definition parse_crt_lengths :: "byte list \<Rightarrow> usize \<times> usize \<times> usize" where
  "parse_crt_lengths d = crt_loop d (0, 0, 0)"

section \<open>Key import\<close>

text \<open>\<open>&v[i..j]\<close> panics unless \<open>i <= j <= len\<close>.\<close>

definition slice :: "byte list \<Rightarrow> nat \<Rightarrow> nat \<Rightarrow> byte list option" where
  "slice v i j = (if i \<le> j \<and> j \<le> length v then Some (take (j - i) (drop i v)) else None)"

definition crt_key_slot :: "TLV \<Rightarrow> key_slot_type option" where
  "crt_key_slot t =
     (if tlv_tag t = 0xB6 then Some KT_Sig
      else if tlv_tag t = 0xB8 then Some KT_Dec
      else if tlv_tag t = 0xA4 then Some KT_Aut
      else None)"

fun find_map :: "('a \<Rightarrow> 'b option) \<Rightarrow> 'a list \<Rightarrow> 'b option" where
  "find_map f [] = None"
| "find_map f (x # xs) = (case f x of Some y \<Rightarrow> Some y | None \<Rightarrow> find_map f xs)"

definition find_value :: "u32 \<Rightarrow> TLV list \<Rightarrow> byte list option" where
  "find_value tag ts = map_option tlv_value (List.find (\<lambda>t. tlv_tag t = tag) ts)"

text \<open>The RSA branch: what it stores in the slot.\<close>

definition import_rsa ::
  "'k env \<Rightarrow> byte list \<Rightarrow> byte list \<Rightarrow> key_slot \<Rightarrow> (u16 + key_slot) option" where
  "import_rsa X crt_data key_data slot =
     (let (e_len, p_len, q_len) = parse_crt_lengths crt_data in
      if e_len = 0 \<or> p_len = 0 \<or> q_len = 0 then Some (Err SW_WRONG_DATA)
      else if (of_nat (length key_data) :: usize) \<noteq> e_len + p_len + q_len then Some (Err SW_WRONG_DATA)
      else case slice key_data 0 (unat e_len) of None \<Rightarrow> None | Some e_bytes \<Rightarrow>
        (case slice key_data (unat e_len) (unat (e_len + p_len)) of None \<Rightarrow> None | Some p_bytes \<Rightarrow>
        (case slice key_data (unat (e_len + p_len)) (length key_data) of None \<Rightarrow> None | Some q_bytes \<Rightarrow>
           let p = big_from_bytes_be X p_bytes; q = big_from_bytes_be X q_bytes;
               n = p * q; n_bytes = big_to_bytes_be X n;
               private_data = be_bytes16 (ucast e_len) @ e_bytes @ be_bytes16 (ucast p_len) @ p_bytes @
                 be_bytes16 (ucast q_len) @ q_bytes;
               public_data = len16 n_bytes @ n_bytes @ be_bytes16 (ucast e_len) @ e_bytes in
           Some (Ok (slot\<lparr>private_key_data := private_data, public_key_data := public_data\<rparr>)))))"

definition expected_size :: "algorithm_attributes \<Rightarrow> nat option" where
  "expected_size alg =
     (if algorithm_id alg = ALG_EDDSA then Some 32
      else if algorithm_id alg = ALG_ECDH \<or> algorithm_id alg = ALG_ECDSA then
        (if is_nistp521 alg then Some 66
         else if is_nistp384 alg then Some 48
         else if is_x25519 alg \<or> is_nistp256 alg \<or> is_secp256k1 alg then Some 32
         else None)
      else None)"

definition ok_of :: "'e + 'a \<Rightarrow> 'a option" where
  "ok_of r = (case r of Ok x \<Rightarrow> Some x | Err _ \<Rightarrow> None)"

definition import_public_key ::
  "'k env \<Rightarrow> algorithm_attributes \<Rightarrow> byte list \<Rightarrow> byte list \<Rightarrow> byte list option" where
  "import_public_key X alg key_data stored_key =
     (if algorithm_id alg = ALG_EDDSA then ok_of (ed25519_get_public_key X key_data)
      else if algorithm_id alg = ALG_ECDH then
        (if is_x25519 alg then ok_of (x25519_get_public_key X stored_key)
         else if is_nistp256 alg then ok_of (nist_get_public_key X P256 key_data)
         else if is_nistp384 alg then ok_of (nist_get_public_key X P384 key_data)
         else if is_nistp521 alg then ok_of (nist_get_public_key X P521 key_data)
         else if is_secp256k1 alg then ok_of (secp256k1_get_public_key X key_data)
         else None)
      else if algorithm_id alg = ALG_ECDSA then
        (if is_nistp256 alg then ok_of (nist_get_public_key X P256 key_data)
         else if is_nistp384 alg then ok_of (nist_get_public_key X P384 key_data)
         else if is_nistp521 alg then ok_of (nist_get_public_key X P521 key_data)
         else if is_secp256k1 alg then ok_of (secp256k1_get_public_key X key_data)
         else None)
      else None)"

text \<open>A public key in its 7F49 template.\<close>

definition public_key_tlv :: "byte list \<Rightarrow> byte list" where
  "public_key_tlv public_key =
     builder_build (builder_wrap 0x7F49 (builder_add 0x86 public_key builder_new))"

text \<open>
  The ECC branch returns the slot as it is left in memory with the outcome: the private key is
  written before the public key is computed.
\<close>

definition import_ecc :: "'k env \<Rightarrow> byte list \<Rightarrow> key_slot \<Rightarrow> (u16 + unit) \<times> key_slot" where
  "import_ecc X key_data slot =
     (let alg = algorithm slot in
      case expected_size alg of
        None \<Rightarrow> (Err SW_WRONG_DATA, slot)
      | Some key_size \<Rightarrow>
          if length key_data \<noteq> key_size then (Err SW_WRONG_DATA, slot)
          else let stored_key =
                     (if algorithm_id alg = ALG_ECDH \<and> is_x25519 alg then rev key_data else key_data);
                   slot1 = slot\<lparr>private_key_data := stored_key\<rparr> in
            (case import_public_key X alg key_data stored_key of
               Some public_key \<Rightarrow> (Ok (), slot1\<lparr>public_key_data := public_key_tlv public_key\<rparr>)
             | None \<Rightarrow> (Err SW_EXEC_ERROR, slot1)))"

definition handle_key_import ::
  "'k env \<Rightarrow> openpgp_applet \<Rightarrow> byte list \<Rightarrow> (response \<times> openpgp_applet) option" where
  "handle_key_import X a d =
     (let tlvs = read_list d True in
      if tlvs = [] then Some (response_error SW_WRONG_DATA, a)
      else if tlv_tag (tlvs ! 0) \<noteq> 0x4D then Some (response_error SW_WRONG_DATA, a)
      else let children = read_list (tlv_value (tlvs ! 0)) True in
        (case find_map crt_key_slot children of
           None \<Rightarrow> Some (response_error SW_WRONG_DATA, a)
         | Some kt \<Rightarrow>
             (case find_value 0x5F48 children of
                None \<Rightarrow> Some (response_error SW_WRONG_DATA, a)
              | Some key_data \<Rightarrow>
                  let slot = get_slot kt (pgp_state a) in
                  if algorithm_id (algorithm slot) = ALG_RSA then
                    (case find_value 0x7F48 children of
                       None \<Rightarrow> Some (response_error SW_WRONG_DATA, a)
                     | Some crt_data \<Rightarrow>
                         (case import_rsa X crt_data key_data slot of
                            None \<Rightarrow> None
                          | Some (Err w) \<Rightarrow> Some (response_error w, a)
                          | Some (Ok slot1) \<Rightarrow>
                              Some (response_ok, pgp_save X (put_pgp_slot kt slot1 a))))
                  else
                    (case import_ecc X key_data slot of
                       (Err w, slot1) \<Rightarrow> Some (response_error w, put_pgp_slot kt slot1 a)
                     | (Ok _, slot1) \<Rightarrow> Some (response_ok, pgp_save X (put_pgp_slot kt slot1 a))))))"

definition handle_put_data_odd ::
  "'k env \<Rightarrow> openpgp_applet \<Rightarrow> apdu \<Rightarrow> (response \<times> openpgp_applet) option" where
  "handle_put_data_odd X a cmd =
     (if p1 cmd \<noteq> 0x3F \<or> p2 cmd \<noteq> 0xFF then Some (response_error SW_WRONG_P1_P2, a)
      else if \<not> verified SC_PW3 a then Some (response_error SW_SECURITY_STATUS_NOT_SATISFIED, a)
      else handle_key_import X a (cmd_data cmd))"

section \<open>Key generation\<close>

definition rsa_public_tlv :: "byte list \<Rightarrow> byte list \<Rightarrow> byte list" where
  "rsa_public_tlv n e =
     builder_build (builder_wrap 0x7F49 (builder_add 0x82 e (builder_add 0x81 n builder_new)))"

text \<open>Private key, public key as stored, public key as returned.\<close>

definition ecc_material ::
  "ecc_error + (byte list \<times> byte list) \<Rightarrow> u16 + (byte list \<times> byte list \<times> byte list)" where
  "ecc_material r =
     (case r of
        Ok (priv_key, pub_key) \<Rightarrow>
          (let pub_tlv = public_key_tlv pub_key in Ok (priv_key, pub_tlv, pub_tlv))
      | Err _ \<Rightarrow> Err SW_EXEC_ERROR)"

definition generate_material ::
  "'k env \<Rightarrow> algorithm_attributes \<Rightarrow> u16 + (byte list \<times> byte list \<times> byte list)" where
  "generate_material X alg =
     (if algorithm_id alg = ALG_RSA then
        (case rsa_generate_keypair X (unat (param1 alg)) of
           Ok (priv_key, pub_key_data) \<Rightarrow>
             (let n = (case get_modulus pub_key_data of Some n \<Rightarrow> n | None \<Rightarrow> []);
                  e = (case get_exponent pub_key_data of Some e \<Rightarrow> e | None \<Rightarrow> []) in
              Ok (priv_key, pub_key_data, rsa_public_tlv n e))
         | Err _ \<Rightarrow> Err SW_EXEC_ERROR)
      else if algorithm_id alg = ALG_EDDSA then ecc_material (ed25519_generate_keypair X)
      else if algorithm_id alg = ALG_ECDH then
        (if is_x25519 alg then ecc_material (x25519_generate_keypair X)
         else if is_nistp256 alg then ecc_material (nist_generate_keypair X P256)
         else if is_nistp384 alg then ecc_material (nist_generate_keypair X P384)
         else if is_nistp521 alg then ecc_material (nist_generate_keypair X P521)
         else if is_secp256k1 alg then ecc_material (secp256k1_generate_keypair X)
         else Err SW_FUNCTION_NOT_SUPPORTED)
      else if algorithm_id alg = ALG_ECDSA then
        (if is_nistp256 alg then ecc_material (nist_generate_keypair X P256)
         else if is_nistp384 alg then ecc_material (nist_generate_keypair X P384)
         else if is_nistp521 alg then ecc_material (nist_generate_keypair X P521)
         else if is_secp256k1 alg then ecc_material (secp256k1_generate_keypair X)
         else Err SW_FUNCTION_NOT_SUPPORTED)
      else Err SW_FUNCTION_NOT_SUPPORTED)"

definition extract_pubkey_from_tlv :: "byte list \<Rightarrow> byte list option" where
  "extract_pubkey_from_tlv d =
     (case find_value 0x7F49 (read_list d True) of
        None \<Rightarrow> None
      | Some v \<Rightarrow> find_value 0x86 (read_list v True))"

definition slot_fingerprint :: "'k env \<Rightarrow> algorithm_attributes \<Rightarrow> byte list \<Rightarrow> u32 \<Rightarrow> byte list" where
  "slot_fingerprint X alg pub timestamp =
     (if algorithm_id alg = ALG_RSA then
        (case (get_modulus pub, get_exponent pub) of
           (Some n, Some e) \<Rightarrow> calculate_fingerprint_rsa X n e timestamp
         | _ \<Rightarrow> [])
      else if algorithm_id alg = ALG_EDDSA then
        (case extract_pubkey_from_tlv pub of
           Some pub_key \<Rightarrow> calculate_fingerprint_eddsa X pub_key timestamp
         | None \<Rightarrow> [])
      else if algorithm_id alg = ALG_ECDH then
        (case extract_pubkey_from_tlv pub of
           Some pub_key \<Rightarrow>
             (if is_x25519 alg then calculate_fingerprint_ecdh_x25519 X pub_key timestamp
              else calculate_fingerprint_ecdh X pub_key (curve_oid alg) timestamp)
         | None \<Rightarrow> [])
      else if algorithm_id alg = ALG_ECDSA then
        (case extract_pubkey_from_tlv pub of
           Some pub_key \<Rightarrow> calculate_fingerprint_ecdsa X pub_key (curve_oid alg) timestamp
         | None \<Rightarrow> [])
      else [])"

definition generate_slot_type :: "byte \<Rightarrow> key_slot_type option" where
  "generate_slot_type b =
     (if b = 0xB6 then Some KT_Sig else if b = 0xB8 then Some KT_Dec
      else if b = 0xA4 then Some KT_Aut else None)"

definition existing_public_key :: "key_slot \<Rightarrow> openpgp_applet \<Rightarrow> response \<times> openpgp_applet" where
  "existing_public_key slot a =
     (let pub = public_key_data slot in
      if pub = [] then (response_error SW_REFERENCED_DATA_NOT_FOUND, a)
      else if algorithm_id (algorithm slot) = ALG_RSA then
        (case (get_modulus pub, get_exponent pub) of
           (Some n, Some e) \<Rightarrow> create_response a (rsa_public_tlv n e)
         | _ \<Rightarrow> (response_error SW_EXEC_ERROR, a))
      else create_response a pub)"

definition handle_generate_key :: "'k env \<Rightarrow> openpgp_applet \<Rightarrow> apdu \<Rightarrow> response \<times> openpgp_applet" where
  "handle_generate_key X a cmd =
     (let generate = (p1 cmd = 0x80) in
      if p1 cmd \<noteq> 0x80 \<and> p1 cmd \<noteq> 0x81 then (response_error SW_WRONG_P1_P2, a)
      else if cmd_data cmd = [] then (response_error SW_WRONG_DATA, a)
      else case generate_slot_type (cmd_data cmd ! 0) of
          None \<Rightarrow> (response_error SW_WRONG_DATA, a)
        | Some kt \<Rightarrow>
            if generate \<and> \<not> verified SC_PW3 a then (response_error SW_SECURITY_STATUS_NOT_SATISFIED, a)
            else let slot = get_slot kt (pgp_state a); alg = algorithm slot in
              if generate then
                (let timestamp = current_timestamp X in
                 case generate_material X alg of
                   Err w \<Rightarrow> (response_error w, a)
                 | Ok (private_key, public_key_for_storage, response_tlv) \<Rightarrow>
                     (let slot1 = slot\<lparr>private_key_data := private_key,
                            public_key_data := public_key_for_storage, generation_time := timestamp\<rparr>;
                          slot2 = slot1\<lparr>fingerprint := slot_fingerprint X alg (public_key_data slot1) timestamp\<rparr> in
                      create_response (pgp_save X (put_pgp_slot kt slot2 a)) response_tlv))
              else
                existing_public_key slot a)"

lemmas generate_key_defs = handle_generate_key_def existing_public_key_def

section \<open>Slots\<close>

lemma slot_simps [simp]:
  "get_slot kt (put_slot kt k s) = k" "kt \<noteq> kt' \<Longrightarrow> get_slot kt' (put_slot kt k s) = get_slot kt' s"
  "pin_data (put_slot kt k s) = pin_data s" "terminated (put_slot kt k s) = terminated s"
  "signature_counter (put_slot kt k s) = signature_counter s"
  by (cases kt; cases kt'; simp add: get_slot_def put_slot_def)+

lemma put_pgp_slot_simps [simp]:
  "pgp_state (put_pgp_slot kt k a) = put_slot kt k (pgp_state a)"
  "security (put_pgp_slot kt k a) = security a"
  "response_buffer (put_pgp_slot kt k a) = response_buffer a"
  "response_offset (put_pgp_slot kt k a) = response_offset a"
  "command_buffer (put_pgp_slot kt k a) = command_buffer a"
  "chaining_ins (put_pgp_slot kt k a) = chaining_ins a"
  "current_le (put_pgp_slot kt k a) = current_le a"
  by (simp_all add: put_pgp_slot_def)

section \<open>Component lengths of a well-formed template\<close>

lemma push_byte: "push_bit 8 w OR ucast b = w * 256 + (of_nat (unat b) :: usize)" for b :: byte
proof -
  have "push_bit 8 w OR (ucast b :: usize) = push_bit 8 w + ucast b"
    by (rule disjunctive_add [symmetric]) (auto simp: bit_simps dest: bit_imp_le_length)
  then show ?thesis
    by (simp add: push_bit_eq_mult mult.commute)
qed

lemma ber_fold: "foldl (\<lambda>acc b. push_bit 8 acc OR ucast b) 0 bs = (of_nat (be_value bs) :: usize)"
  by (induction bs rule: rev_induct) (simp_all add: push_byte)

text \<open>On a length that the TLV parser accepts, both parsers agree.\<close>

lemma parse_ber_length_agrees:
  assumes "parse_length d = Ok (n, k)"
  shows "parse_ber_length d = (of_nat n, k)"
proof (cases "d ! 0 AND 0x80 = 0")
  case True
  with assms show ?thesis
    by (auto simp: parse_length_def parse_ber_length_def Let_def split: if_splits)
next
  case False
  with assms show ?thesis
    by (auto simp: parse_length_def parse_ber_length_def Let_def ber_fold split: if_splits)
qed

lemma parse_ber_length_encode:
  "n < 2 ^ 32 \<Longrightarrow> parse_ber_length (encode_length n @ rest) = (of_nat n, length (encode_length n))"
  by (rule parse_ber_length_agrees, rule parse_length_encode)

definition crt_template :: "nat \<Rightarrow> nat \<Rightarrow> nat \<Rightarrow> byte list" where
  "crt_template e p q = (0x91 # encode_length e) @ (0x92 # encode_length p) @ (0x93 # encode_length q)"

lemma crt_loop_entry:
  assumes "n < 2 ^ 32"
  shows "crt_loop (tag # encode_length n @ rest) (e, p, q) = crt_loop rest
    (if tag = 0x91 then (of_nat n, p, q) else if tag = 0x92 then (e, of_nat n, q)
     else if tag = 0x93 then (e, p, of_nat n) else (e, p, q))"
  by (subst crt_loop.simps) (simp add: parse_ber_length_encode [OF assms])

lemma parse_crt_template:
  assumes "e < 2 ^ 32" "p < 2 ^ 32" "q < 2 ^ 32"
  shows "parse_crt_lengths (crt_template e p q) = (of_nat e, of_nat p, of_nat q)"
  using assms crt_loop_entry [OF assms(3), of _ "[]"]
  by (simp add: parse_crt_lengths_def crt_template_def crt_loop_entry)
    (simp add: crt_loop.simps)

section \<open>Importing an RSA key\<close>

lemma unat_of_nat_usize: "n < 2 ^ 64 \<Longrightarrow> unat (of_nat n :: usize) = n"
  by (simp add: unat_of_nat)

lemma be_bytes16_len16: "be_bytes16 (ucast (of_nat (length bs) :: usize)) = len16 bs"
proof -
  have "unat (ucast (of_nat (length bs) :: usize) :: u16) = length bs mod 2 ^ 64 mod 2 ^ 16"
    by (simp only: unsigned_ucast_eq unat_of_nat take_bit_eq_mod) simp
  also have "\<dots> = unat (of_nat (length bs) :: u16)"
    by (simp add: unat_of_nat mod_mod_cancel)
  finally have "(ucast (of_nat (length bs) :: usize) :: u16) = of_nat (length bs)"
    by (rule word_unat_eq_iff [THEN iffD2])
  then show ?thesis
    by (simp add: len16_def)
qed

text \<open>
  Three non-empty components that fit the 16-bit length fields are stored as their
  length-prefixed encodings.
\<close>

lemma import_rsa_template:
  assumes "e \<noteq> []" "p \<noteq> []" "q \<noteq> []" "length e < 65536" "length p < 65536" "length q < 65536"
  shows "import_rsa X (crt_template (length e) (length p) (length q)) (e @ p @ q) slot =
    Some (Ok (slot\<lparr>private_key_data := lp_enc e @ lp_enc p @ lp_enc q,
      public_key_data :=
        lp_enc (big_to_bytes_be X (big_from_bytes_be X p * big_from_bytes_be X q)) @ lp_enc e\<rparr>))"
proof -
  have nz: "(of_nat (length xs) :: usize) \<noteq> 0" if "xs \<noteq> []" "length xs < 65536" for xs :: "byte list"
    using that by (auto simp: word_unat_eq_iff unat_of_nat)
  have sum: "unat (of_nat (length e) + of_nat (length p) :: usize) = length e + length p"
    using assms unat_of_nat_usize [of "length e + length p"] by simp
  have lens: "unat (of_nat (length xs) :: usize) = length xs" if "length xs < 65536" for xs :: "byte list"
    using that by (simp add: unat_of_nat_usize)
  show ?thesis
    using assms parse_crt_template [of "length e" "length p" "length q"]
    by (simp add: import_rsa_def nz sum lens slice_def be_bytes16_len16 lp_enc_def Let_def)
qed

section \<open>Reading and writing the public-key template\<close>

lemma wf_tags:
  "wf_tag 0x7F49" "wf_tag 0x86" "wf_tag 0x81" "wf_tag 0x82" "wf_tag 0x4D" "wf_tag 0xB6" "wf_tag 0xB8"
  "wf_tag 0xA4" "wf_tag 0x7F48" "wf_tag 0x5F48" "wf_tag 0xA6"
  by (simp_all add: wf_tag_def encode_tag_def Let_def)

lemma first_tag_bytes:
  "first_tag_byte 0x7F49 = 0x7F" "first_tag_byte 0x86 = 0x86" "first_tag_byte 0x81 = 0x81"
  "first_tag_byte 0x82 = 0x82" "first_tag_byte 0x4D = 0x4D" "first_tag_byte 0xB6 = 0xB6"
  "first_tag_byte 0xB8 = 0xB8" "first_tag_byte 0xA4 = 0xA4" "first_tag_byte 0x7F48 = 0x7F"
  "first_tag_byte 0x5F48 = 0x5F" "first_tag_byte 0xA6 = 0xA6"
  by (simp_all add: first_tag_byte_def)

lemma length_encode_length: "length (encode_length n) \<le> 5"
  by (simp add: encode_length_def)

lemma length_tlv_encode: "length (tlv_encode t v) \<le> length v + 8"
  using length_encode_length [of "length v"] by (simp add: tlv_encode_def encode_tag_def)

lemma extract_public_key_tlv:
  assumes "length k < 2 ^ 31"
  shows "extract_pubkey_from_tlv (public_key_tlv k) = Some k"
proof -
  have inner: "length (tlv_encode 0x86 k) < 2 ^ 32"
    using length_tlv_encode [of "0x86" k] assms by simp
  have "find_value 0x86 (read_list (tlv_encode 0x86 k) True) = Some k"
    using read_list_encode_step [where t = "0x86" and v = k and rest = "[]" and r = True] assms
    by (simp add: wf_tags first_tag_bytes find_value_def)
  moreover have "find_value 0x7F49 (read_list (tlv_encode 0x7F49 (tlv_encode 0x86 k)) True) =
      Some (tlv_encode 0x86 k)"
    using read_list_encode_step [where t = "0x7F49" and v = "tlv_encode 0x86 k" and rest = "[]" and r = True] inner
    by (simp add: wf_tags first_tag_bytes find_value_def)
  ultimately show ?thesis
    by (simp add: extract_pubkey_from_tlv_def public_key_tlv_def builder_defs)
qed

text \<open>
  After the generation of an elliptic-curve key pair the stored fingerprint is the fingerprint of
  the public key that is returned, with the recorded time.
\<close>

definition ecc_fingerprint :: "'k env \<Rightarrow> algorithm_attributes \<Rightarrow> byte list \<Rightarrow> u32 \<Rightarrow> byte list" where
  "ecc_fingerprint X alg k ts =
     (if algorithm_id alg = ALG_EDDSA then calculate_fingerprint_eddsa X k ts
      else if algorithm_id alg = ALG_ECDH then
        (if is_x25519 alg then calculate_fingerprint_ecdh_x25519 X k ts
         else calculate_fingerprint_ecdh X k (curve_oid alg) ts)
      else calculate_fingerprint_ecdsa X k (curve_oid alg) ts)"

lemma slot_fingerprint_ecc:
  assumes "algorithm_id alg \<in> {ALG_EDDSA, ALG_ECDH, ALG_ECDSA}" "length k < 2 ^ 31"
  shows "slot_fingerprint X alg (public_key_tlv k) ts = ecc_fingerprint X alg k ts"
  using assms extract_public_key_tlv [OF assms(2)]
  by (auto simp: slot_fingerprint_def ecc_fingerprint_def ALG_defs)

lemma slot_fingerprint_rsa:
  assumes "algorithm_id alg = ALG_RSA" "length n < 65536" "length e < 65536"
  shows "slot_fingerprint X alg (lp_enc n @ lp_enc e) ts = calculate_fingerprint_rsa X n e ts"
  using assms get_modulus_lp [of n e "[]"] get_exponent_lp [of n e "[]"]
  by (simp add: slot_fingerprint_def)

lemma generate_material_ecc:
  assumes "generate_material X alg = Ok (priv, st, resp)" "algorithm_id alg \<noteq> ALG_RSA"
  shows "\<exists>k. st = public_key_tlv k \<and> resp = public_key_tlv k"
proof -
  have m: "\<exists>k. st = public_key_tlv k \<and> resp = public_key_tlv k"
    if "ecc_material r = Ok (priv, st, resp)" for r
    using that by (auto simp: ecc_material_def Let_def split: sum.splits prod.splits)
  show ?thesis
    using assms unfolding generate_material_def
    by (auto split: if_splits intro: m)
qed

lemma generate_material_rsa:
  assumes "generate_material X alg = Ok (priv, st, resp)" "algorithm_id alg = ALG_RSA"
  shows "\<exists>k. rsa_new X (unat (param1 alg)) = Some k \<and> encode_private_key X k = Ok priv \<and>
    st = lp_enc (big_to_bytes_be X (rsa_n X k)) @ lp_enc (big_to_bytes_be X (rsa_e X k))"
  using assms
  by (auto simp: generate_material_def rsa_generate_keypair_def encode_public_key_lp Let_def
      split: option.splits sum.splits)

section \<open>Effects of the key commands\<close>

lemma create_response_frame [simp]:
  "pgp_state (snd (create_response a d)) = pgp_state a"
  "security (snd (create_response a d)) = security a"
  "command_buffer (snd (create_response a d)) = command_buffer a"
  "chaining_ins (snd (create_response a d)) = chaining_ins a"
  "current_le (snd (create_response a d)) = current_le a"
  by (simp_all add: create_response_def Let_def)

lemma generate_effect:
  assumes "p1 cmd = 0x80" "verified SC_PW3 a" "cmd_data cmd \<noteq> []"
    and "generate_slot_type (cmd_data cmd ! 0) = Some kt"
    and "generate_material X (algorithm (get_slot kt (pgp_state a))) = Ok (priv, st, resp)"
  defines "slot \<equiv> get_slot kt (pgp_state a)"
  shows "handle_generate_key X a cmd =
    create_response (pgp_save X (put_pgp_slot kt (slot\<lparr>private_key_data := priv, public_key_data := st,
      generation_time := current_timestamp X,
      fingerprint := slot_fingerprint X (algorithm slot) st (current_timestamp X)\<rparr>) a)) resp"
  using assms by (simp add: generate_key_defs Let_def)

lemma generate_denied:
  "\<not> verified SC_PW3 a \<Longrightarrow> p1 cmd \<noteq> 0x81 \<Longrightarrow> snd (handle_generate_key X a cmd) = a"
  by (auto simp: generate_key_defs Let_def split: option.splits)

lemma generate_frame [simp]:
  "security (snd (handle_generate_key X a cmd)) = security a"
  "pgp_pins (snd (handle_generate_key X a cmd)) = pgp_pins a"
  "terminated (pgp_state (snd (handle_generate_key X a cmd))) = terminated (pgp_state a)"
  "signature_counter (pgp_state (snd (handle_generate_key X a cmd))) = signature_counter (pgp_state a)"
  "command_buffer (snd (handle_generate_key X a cmd)) = command_buffer a"
  "chaining_ins (snd (handle_generate_key X a cmd)) = chaining_ins a"
  by (simp_all add: generate_key_defs Let_def split: option.splits sum.splits prod.splits)

lemma import_frame:
  assumes "handle_put_data_odd X a cmd = Some (r, a')"
  shows "security a' = security a \<and> pgp_pins a' = pgp_pins a \<and>
    terminated (pgp_state a') = terminated (pgp_state a) \<and>
    signature_counter (pgp_state a') = signature_counter (pgp_state a) \<and>
    command_buffer a' = command_buffer a \<and> chaining_ins a' = chaining_ins a \<and>
    response_buffer a' = response_buffer a \<and> response_offset a' = response_offset a"
  using assms
  by (auto simp: handle_put_data_odd_def handle_key_import_def Let_def
      split: if_splits option.splits sum.splits prod.splits)

lemma import_denied:
  assumes "\<not> verified SC_PW3 a"
  shows "\<exists>w. handle_put_data_odd X a cmd = Some (response_error w, a) \<and> w \<noteq> SW_SUCCESS"
  using assms by (auto simp: handle_put_data_odd_def SW_defs)

end
