(* ===== verification/Pgp_Crypto.thy ===== *)
theory Pgp_Crypto
  imports Pgp_Keys
begin

text \<open>
  The cryptographic commands of the OpenPGP applet: PSO COMPUTE DIGITAL SIGNATURE, PSO DECIPHER,
  INTERNAL AUTHENTICATE and GET CHALLENGE (\<open>src/openpgp/applet.rs\<close>). The RSA commands decode the
  stored private key, which panics on a key with a prime factor 0: the handlers return \<open>None\<close> then.
\<close>

section \<open>PSO: COMPUTE DIGITAL SIGNATURE\<close>

text \<open>\<open>Err\<close> carries the status word of the early return.\<close>

definition or_exec_error :: "'e + byte list \<Rightarrow> u16 + byte list" where
  "or_exec_error r = (case r of Ok d \<Rightarrow> Ok d | Err _ \<Rightarrow> Err SW_EXEC_ERROR)"

definition load_rsa_key :: "'k env \<Rightarrow> key_slot \<Rightarrow> (u16 + 'k) option" where
  "load_rsa_key X slot =
     (case get_modulus (public_key_data slot) of
        None \<Rightarrow> Some (Err SW_EXEC_ERROR)
      | Some n \<Rightarrow>
          (case decode_private_key X (private_key_data slot) n of
             None \<Rightarrow> None
           | Some (Err _) \<Rightarrow> Some (Err SW_EXEC_ERROR)
           | Some (Ok key) \<Rightarrow> Some (Ok key)))"

definition ecdsa_sign :: "'k env \<Rightarrow> algorithm_attributes \<Rightarrow> byte list \<Rightarrow> byte list \<Rightarrow> u16 + byte list" where
  "ecdsa_sign X alg priv d =
     (if algorithm_id alg = ALG_EDDSA then or_exec_error (ed25519_sign X priv d)
      else if algorithm_id alg = ALG_ECDSA then
        (if is_nistp256 alg then or_exec_error (nist_sign X P256 priv d)
         else if is_nistp384 alg then or_exec_error (nist_sign X P384 priv d)
         else if is_nistp521 alg then or_exec_error (nist_sign X P521 priv d)
         else if is_secp256k1 alg then or_exec_error (secp256k1_sign X priv d)
         else Err SW_FUNCTION_NOT_SUPPORTED)
      else Err SW_FUNCTION_NOT_SUPPORTED)"

definition slot_sign ::
  "'k env \<Rightarrow> ('k \<Rightarrow> byte list \<Rightarrow> rsa_error + byte list) \<Rightarrow> key_slot \<Rightarrow> byte list \<Rightarrow> (u16 + byte list) option"
where
  "slot_sign X rsa_sign slot d =
     (if algorithm_id (algorithm slot) = ALG_RSA then
        (case load_rsa_key X slot of
           None \<Rightarrow> None
         | Some (Err w) \<Rightarrow> Some (Err w)
         | Some (Ok key) \<Rightarrow> Some (or_exec_error (rsa_sign key d)))
      else Some (ecdsa_sign X (algorithm slot) (private_key_data slot) d))"

text \<open>\<open>u32::saturating_add(1)\<close>\<close>

definition saturating_inc :: "u32 \<Rightarrow> u32" where
  "saturating_inc n = (if n = 0xFFFFFFFF then n else n + 1)"

definition handle_pso_sign :: "'k env \<Rightarrow> openpgp_applet \<Rightarrow> apdu \<Rightarrow> (response \<times> openpgp_applet) option" where
  "handle_pso_sign X a cmd =
     (if \<not> verified SC_PW1_81 a then Some (response_error SW_SECURITY_STATUS_NOT_SATISFIED, a)
      else let s = pgp_state a in
        if \<not> has_key (key_sig s) then Some (response_error SW_REFERENCED_DATA_NOT_FOUND, a)
        else case slot_sign X (sign_pkcs1v15 X) (key_sig s) (cmd_data cmd) of
            None \<Rightarrow> None
          | Some (Err w) \<Rightarrow> Some (response_error w, a)
          | Some (Ok signature) \<Rightarrow>
              (let a1 = pgp_save X (put_state (s\<lparr>signature_counter := saturating_inc (signature_counter s)\<rparr>) a);
                   a2 = a1\<lparr>security := after_sign (security a1)\<rparr> in
               Some (create_response a2 signature)))"

section \<open>PSO: DECIPHER\<close>

definition ephemeral_key :: "byte list \<Rightarrow> byte list option" where
  "ephemeral_key d =
     (case find_value 0xA6 (read_list d True) of
        None \<Rightarrow> None
      | Some a6_value \<Rightarrow>
          (case find_value 0x7F49 (read_list a6_value True) of
             None \<Rightarrow> None
           | Some v \<Rightarrow> find_value 0x86 (read_list v True)))"

definition ecdh_secret ::
  "'k env \<Rightarrow> algorithm_attributes \<Rightarrow> byte list \<Rightarrow> byte list \<Rightarrow> u16 + byte list" where
  "ecdh_secret X alg priv ephemeral_pubkey =
     (if is_x25519 alg then
        (if length ephemeral_pubkey \<noteq> 32 then Err SW_WRONG_DATA
         else or_exec_error (x25519_ecdh X priv ephemeral_pubkey))
      else if is_nistp256 alg then
        (if length ephemeral_pubkey \<noteq> 65 then Err SW_WRONG_DATA
         else or_exec_error (nist_ecdh X P256 priv ephemeral_pubkey))
      else if is_nistp384 alg then
        (if length ephemeral_pubkey \<noteq> 97 then Err SW_WRONG_DATA
         else or_exec_error (nist_ecdh X P384 priv ephemeral_pubkey))
      else if is_nistp521 alg then
        (if length ephemeral_pubkey \<noteq> 133 then Err SW_WRONG_DATA
         else or_exec_error (nist_ecdh X P521 priv ephemeral_pubkey))
      else if is_secp256k1 alg then
        (if length ephemeral_pubkey \<noteq> 65 then Err SW_WRONG_DATA
         else or_exec_error (secp256k1_ecdh_op X priv ephemeral_pubkey))
      else Err SW_FUNCTION_NOT_SUPPORTED)"

definition decipher_data :: "'k env \<Rightarrow> key_slot \<Rightarrow> byte list \<Rightarrow> (u16 + byte list) option" where
  "decipher_data X slot d =
     (let padding_indicator = d ! 0; cipher_data = drop 1 d; alg = algorithm slot in
      if padding_indicator = 0x00 then
        (if algorithm_id alg \<noteq> ALG_RSA then Some (Err SW_WRONG_DATA)
         else case load_rsa_key X slot of
             None \<Rightarrow> None
           | Some (Err w) \<Rightarrow> Some (Err w)
           | Some (Ok key) \<Rightarrow> Some (or_exec_error (rsa_decrypt X key cipher_data)))
      else if padding_indicator = 0xA6 then
        (if algorithm_id alg \<noteq> ALG_ECDH then Some (Err SW_WRONG_DATA)
         else case ephemeral_key d of
             None \<Rightarrow> Some (Err SW_WRONG_DATA)
           | Some pk \<Rightarrow> Some (ecdh_secret X alg (private_key_data slot) pk))
      else Some (Err SW_WRONG_DATA))"

definition handle_pso_decipher :: "'k env \<Rightarrow> openpgp_applet \<Rightarrow> apdu \<Rightarrow> (response \<times> openpgp_applet) option" where
  "handle_pso_decipher X a cmd =
     (if \<not> verified SC_PW1_82 a then Some (response_error SW_SECURITY_STATUS_NOT_SATISFIED, a)
      else let s = pgp_state a in
        if \<not> has_key (key_dec s) then Some (response_error SW_REFERENCED_DATA_NOT_FOUND, a)
        else if cmd_data cmd = [] then Some (response_error SW_WRONG_DATA, a)
        else case decipher_data X (key_dec s) (cmd_data cmd) of
            None \<Rightarrow> None
          | Some (Err w) \<Rightarrow> Some (response_error w, a)
          | Some (Ok plaintext) \<Rightarrow> Some (create_response a plaintext))"

definition handle_pso :: "'k env \<Rightarrow> openpgp_applet \<Rightarrow> apdu \<Rightarrow> (response \<times> openpgp_applet) option" where
  "handle_pso X a cmd =
     (if p1p2 cmd = PSO_CDS then handle_pso_sign X a cmd
      else if p1p2 cmd = PSO_DECIPHER then handle_pso_decipher X a cmd
      else Some (response_error SW_WRONG_P1_P2, a))"

section \<open>INTERNAL AUTHENTICATE and GET CHALLENGE\<close>

definition handle_internal_authenticate ::
  "'k env \<Rightarrow> openpgp_applet \<Rightarrow> apdu \<Rightarrow> (response \<times> openpgp_applet) option" where
  "handle_internal_authenticate X a cmd =
     (if \<not> verified SC_PW1_82 a then Some (response_error SW_SECURITY_STATUS_NOT_SATISFIED, a)
      else let s = pgp_state a in
        if \<not> has_key (key_aut s) then Some (response_error SW_REFERENCED_DATA_NOT_FOUND, a)
        else case slot_sign X (raw_sign X) (key_aut s) (cmd_data cmd) of
            None \<Rightarrow> None
          | Some (Err w) \<Rightarrow> Some (response_error w, a)
          | Some (Ok signature) \<Rightarrow> Some (create_response a signature))"

definition handle_get_challenge :: "'k env \<Rightarrow> apdu \<Rightarrow> response" where
  "handle_get_challenge X cmd =
     (let n = (case le cmd of Some l \<Rightarrow> unat l | None \<Rightarrow> 8) in
      if n > 255 then response_error SW_WRONG_LENGTH
      else response_success (rand_bytes X n))"

section \<open>Gates\<close>

lemma sign_needs_pw1:
  "\<not> verified SC_PW1_81 a \<Longrightarrow>
     handle_pso_sign X a cmd = Some (response_error SW_SECURITY_STATUS_NOT_SATISFIED, a)"
  by (simp add: handle_pso_sign_def)

lemma decipher_needs_pw1:
  "\<not> verified SC_PW1_82 a \<Longrightarrow>
     handle_pso_decipher X a cmd = Some (response_error SW_SECURITY_STATUS_NOT_SATISFIED, a)"
  by (simp add: handle_pso_decipher_def)

lemma authenticate_needs_pw1:
  "\<not> verified SC_PW1_82 a \<Longrightarrow>
     handle_internal_authenticate X a cmd = Some (response_error SW_SECURITY_STATUS_NOT_SATISFIED, a)"
  by (simp add: handle_internal_authenticate_def)

text \<open>What \<open>create_response\<close> leaves: everything but the response buffer.\<close>

definition same_but_response :: "openpgp_applet \<Rightarrow> openpgp_applet \<Rightarrow> bool" where
  "same_but_response a b \<longleftrightarrow> b = a \<or> (\<exists>d. b = snd (create_response a d))"

lemma same_but_response_refl [simp]: "same_but_response a a"
  by (simp add: same_but_response_def)

lemma same_but_response_parts:
  "same_but_response a b \<Longrightarrow> pgp_state b = pgp_state a \<and> security b = security a \<and>
     command_buffer b = command_buffer a \<and> chaining_ins b = chaining_ins a"
  by (auto simp: same_but_response_def)

lemma create_responseD:
  assumes "create_response a d = (r, b)"
  shows "b = snd (create_response a d) \<and> same_but_response a b \<and> pgp_state b = pgp_state a \<and>
    security b = security a \<and> command_buffer b = command_buffer a \<and> chaining_ins b = chaining_ins a"
proof -
  have "b = snd (create_response a d)" using assms by simp
  then have "same_but_response a b" by (auto simp: same_but_response_def)
  then show ?thesis using same_but_response_parts \<open>b = _\<close> by blast
qed

section \<open>The signature counter and single-use PW1\<close>

lemma unat_saturating_inc: "unat (saturating_inc n) = min (unat n + 1) 0xFFFFFFFF"
proof (cases "n = 0xFFFFFFFF")
  case False
  then have "unat n \<noteq> 0xFFFFFFFF" by (simp add: word_unat_eq_iff)
  moreover have "unat n < 2 ^ 32" using unsigned_less [of n] by simp
  ultimately have less: "unat n + 1 \<le> 0xFFFFFFFF" by simp
  have "unat (n + 1) = unat n + 1"
    using less by (simp add: unat_word_ariths)
  with False less show ?thesis by (simp add: saturating_inc_def)
qed (simp add: saturating_inc_def)

text \<open>A successful signature: counter up by one, PW1 consumed in single-use mode, nothing else.\<close>

lemma sign_success:
  assumes "handle_pso_sign X a cmd = Some (r, a')" "is_okay r"
  shows "\<exists>sig. slot_sign X (sign_pkcs1v15 X) (key_sig (pgp_state a)) (cmd_data cmd) = Some (Ok sig) \<and>
    verified SC_PW1_81 a \<and>
    pgp_state a' = (pgp_state a)\<lparr>signature_counter := saturating_inc (signature_counter (pgp_state a))\<rparr> \<and>
    security a' = after_sign (security a)"
proof -
  have err: "\<not> is_okay (response_error SW_SECURITY_STATUS_NOT_SATISFIED)"
    "\<not> is_okay (response_error SW_REFERENCED_DATA_NOT_FOUND)"
    "\<not> is_okay (response_error SW_EXEC_ERROR)" "\<not> is_okay (response_error SW_FUNCTION_NOT_SUPPORTED)"
    by (simp_all add: is_okay_def response_error_def response_new_def SW_defs)
  have errs: "w \<in> {SW_EXEC_ERROR, SW_FUNCTION_NOT_SUPPORTED}"
    if "slot_sign X f slot d = Some (Err w)" for f slot d w
    using that
    by (auto simp: slot_sign_def load_rsa_key_def ecdsa_sign_def or_exec_error_def
        split: if_splits option.splits sum.splits)
  show ?thesis
    using assms err
    by (auto simp: handle_pso_sign_def Let_def split: if_splits option.splits sum.splits
        dest!: errs create_responseD)
qed

lemma sign_error:
  assumes "handle_pso_sign X a cmd = Some (r, a')"
  shows "a' = a \<or> (pgp_state a' =
    (pgp_state a)\<lparr>signature_counter := saturating_inc (signature_counter (pgp_state a))\<rparr> \<and>
    security a' = after_sign (security a) \<and> command_buffer a' = command_buffer a \<and>
    chaining_ins a' = chaining_ins a)"
  using assms
  by (auto simp: handle_pso_sign_def Let_def split: if_splits option.splits sum.splits
      dest!: create_responseD)

text \<open>The other commands only produce a response.\<close>

lemma decipher_same:
  "handle_pso_decipher X a cmd = Some (r, a') \<Longrightarrow> same_but_response a a'"
  by (auto simp: handle_pso_decipher_def Let_def split: if_splits option.splits sum.splits
      dest!: create_responseD)

lemma authenticate_same:
  "handle_internal_authenticate X a cmd = Some (r, a') \<Longrightarrow> same_but_response a a'"
  by (auto simp: handle_internal_authenticate_def Let_def split: if_splits option.splits sum.splits
      dest!: create_responseD)

section \<open>RSA keys that were stored are loaded\<close>

lemma load_rsa_key_stored:
  assumes "length e < 65536" "length p < 65536" "length q < 65536" "length n < 65536"
    and "private_key_data slot = lp_enc e @ lp_enc p @ lp_enc q"
    and "public_key_data slot = lp_enc n @ lp_enc e'"
  shows "load_rsa_key X slot =
    (case key_of_parts X (big_from_bytes_be X e) (big_from_bytes_be X p) (big_from_bytes_be X q)
        (big_from_bytes_be X n) of
       None \<Rightarrow> None | Some (Err _) \<Rightarrow> Some (Err SW_EXEC_ERROR) | Some (Ok k) \<Rightarrow> Some (Ok k))"
  using assms get_modulus_lp [of n e' "[]"] decode_private_key_parts [of e p q X "[]" n]
  by (simp add: load_rsa_key_def)

text \<open>A stored key with a zero prime factor makes the RSA commands panic.\<close>

lemma zero_prime_panics:
  assumes "length e < 65536" "length p < 65536" "length q < 65536" "length n < 65536"
    and "private_key_data slot = lp_enc e @ lp_enc p @ lp_enc q"
    and "public_key_data slot = lp_enc n @ lp_enc e'"
    and "big_from_bytes_be X p = 0 \<or> big_from_bytes_be X q = 0" "algorithm_id (algorithm slot) = ALG_RSA"
  shows "slot_sign X f slot d = None"
  using assms(7,8) load_rsa_key_stored [OF assms(1-6), of X]
  by (simp add: slot_sign_def key_of_parts_def)

end
