(* ===== verification/Pgp_Applet.thy ===== *)
theory Pgp_Applet
  imports Pgp_Data Pgp_Pins Pgp_Crypto
begin

text \<open>
  The OpenPGP applet as a whole: life cycle commands and \<open>process_apdu\<close> of
  \<open>src/openpgp/applet.rs\<close>, the invariant of the applet, and what a command can change under which
  authorisation. \<open>None\<close> is a panic.
\<close>

definition handle_terminate :: "'k env \<Rightarrow> openpgp_applet \<Rightarrow> apdu \<Rightarrow> response \<times> openpgp_applet" where
  "handle_terminate X a cmd =
     (let pw1_blocked = (pw1_retry_counter (pgp_pins a) = 0);
          pw3_blocked = (pw3_retry_counter (pgp_pins a) = 0);
          both_blocked = (pw1_blocked \<and> pw3_blocked) in
      if \<not> verified SC_PW3 a \<and> \<not> both_blocked then (response_error SW_SECURITY_STATUS_NOT_SATISFIED, a)
      else (response_ok, pgp_save X (put_state ((pgp_state a)\<lparr>terminated := True\<rparr>) a)))"

definition handle_activate :: "'k env \<Rightarrow> openpgp_applet \<Rightarrow> apdu \<Rightarrow> response \<times> openpgp_applet" where
  "handle_activate X a cmd =
     (response_ok,
      a\<lparr>store := reset_to_factory X (store a), security := clear_all (security a),
        response_buffer := [], response_offset := 0, command_buffer := [], chaining_ins := None\<rparr>)"

definition pgp_route :: "'k env \<Rightarrow> openpgp_applet \<Rightarrow> apdu \<Rightarrow> (response \<times> openpgp_applet) option" where
  "pgp_route X a cmd =
     (if ins cmd = INS_SELECT then Some (handle_select a cmd)
      else if ins cmd = INS_GET_DATA then Some (handle_get_data a cmd, a)
      else if ins cmd = INS_VERIFY then Some (handle_verify X a cmd)
      else if ins cmd = INS_CHANGE_REFERENCE_DATA then Some (handle_change_reference_data X a cmd)
      else if ins cmd = INS_RESET_RETRY_COUNTER then Some (handle_reset_retry_counter X a cmd)
      else if ins cmd = INS_PUT_DATA then Some (handle_put_data X a cmd)
      else if ins cmd = INS_PUT_DATA_ODD then handle_put_data_odd X a cmd
      else if ins cmd = INS_GENERATE_ASYMMETRIC_KEY_PAIR then Some (handle_generate_key X a cmd)
      else if ins cmd = INS_PSO then handle_pso X a cmd
      else if ins cmd = INS_INTERNAL_AUTHENTICATE then handle_internal_authenticate X a cmd
      else if ins cmd = INS_GET_CHALLENGE then Some (handle_get_challenge X cmd, a)
      else if ins cmd = INS_TERMINATE_DF then Some (handle_terminate X a cmd)
      else if ins cmd = INS_ACTIVATE_FILE then Some (handle_activate X a cmd)
      else Some (response_error SW_INS_NOT_SUPPORTED, a))"

text \<open>The command that is executed, and the applet it is executed on, after command chaining.\<close>

definition effective_cmd :: "openpgp_applet \<Rightarrow> apdu \<Rightarrow> apdu" where
  "effective_cmd a cmd =
     (if command_buffer a \<noteq> [] then
        cmd\<lparr>cla := cla cmd AND 0xEF, cmd_data := command_buffer a @ cmd_data cmd\<rparr>
      else cmd)"

definition unchain :: "openpgp_applet \<Rightarrow> openpgp_applet" where
  "unchain a = (if command_buffer a \<noteq> [] then a\<lparr>command_buffer := [], chaining_ins := None\<rparr> else a)"

definition pgp_process :: "'k env \<Rightarrow> openpgp_applet \<Rightarrow> apdu \<Rightarrow> (response \<times> openpgp_applet) option" where
  "pgp_process X a0 cmd =
     (let a = a0\<lparr>current_le := le cmd\<rparr> in
      if ins cmd = INS_GET_RESPONSE then handle_get_response a cmd
      else if is_chained cmd then Some (handle_command_chaining a cmd)
      else if command_buffer a \<noteq> [] \<and> chaining_ins a \<noteq> Some (ins cmd) then
        Some (response_error SW_CONDITIONS_NOT_SATISFIED, a\<lparr>command_buffer := [], chaining_ins := None\<rparr>)
      else let eff = effective_cmd a cmd; a1 = unchain a in
        if terminated (pgp_state a1) \<and> ins eff \<noteq> INS_ACTIVATE_FILE then
          Some (response_error SW_CONDITIONS_NOT_SATISFIED, a1)
        else pgp_route X a1 eff)"

text \<open>
  Driving the applet: each command comes with the environment during it; \<open>None\<close> is the state after
  a panic, which ends the process.
\<close>

definition pgp_next ::
  "openpgp_applet option \<Rightarrow> 'k env \<times> apdu \<Rightarrow> openpgp_applet option \<times> response option" where
  "pgp_next s c =
     (case s of
        None \<Rightarrow> (None, None)
      | Some a \<Rightarrow>
          (case pgp_process (fst c) a (snd c) of
             None \<Rightarrow> (None, None)
           | Some (r, a') \<Rightarrow> (Some a', Some r)))"

section \<open>The parts of the state outside the card state\<close>

lemma unchain_frame [simp]:
  "pgp_state (unchain a) = pgp_state a" "security (unchain a) = security a"
  "response_buffer (unchain a) = response_buffer a" "response_offset (unchain a) = response_offset a"
  "current_le (unchain a) = current_le a" "command_buffer (unchain a) = []"
  by (simp_all add: unchain_def)

lemma effective_cmd_frame [simp]:
  "ins (effective_cmd a cmd) = ins cmd" "p1 (effective_cmd a cmd) = p1 cmd"
  "p2 (effective_cmd a cmd) = p2 cmd" "le (effective_cmd a cmd) = le cmd"
  "p1p2 (effective_cmd a cmd) = p1p2 cmd"
  by (simp_all add: effective_cmd_def p1p2_def)

text \<open>
  Either the command only moves the buffers, or it is routed: the two cases every property of
  \<open>pgp_process\<close> starts from.
\<close>

definition buffers_only :: "openpgp_applet \<Rightarrow> openpgp_applet \<Rightarrow> bool" where
  "buffers_only a b \<longleftrightarrow> store b = store a \<and> security b = security a"

lemma buffers_only_state: "buffers_only a b \<Longrightarrow> pgp_state b = pgp_state a \<and> security b = security a"
  by (simp add: buffers_only_def pgp_state_def)

lemma get_response_buffers:
  "handle_get_response a cmd = Some (r, b) \<Longrightarrow> buffers_only a b"
  by (auto simp: handle_get_response_def buffers_only_def Let_def split: if_splits)

lemma chaining_buffers: "buffers_only a (snd (handle_command_chaining a cmd))"
  by (simp add: handle_command_chaining_def buffers_only_def Let_def)

lemma pgp_process_cases:
  assumes "pgp_process X a cmd = Some (r, b)"
  obtains (buffers) "buffers_only a b"
  | (routed) "ins cmd \<noteq> INS_GET_RESPONSE" "\<not> is_chained cmd"
      "command_buffer a = [] \<or> chaining_ins a = Some (ins cmd)"
      "\<not> terminated (pgp_state a) \<or> ins cmd = INS_ACTIVATE_FILE"
      "pgp_route X (unchain (a\<lparr>current_le := le cmd\<rparr>)) (effective_cmd a cmd) = Some (r, b)"
proof -
  let ?a = "a\<lparr>current_le := le cmd\<rparr>"
  have eff: "effective_cmd ?a cmd = effective_cmd a cmd"
    by (simp add: effective_cmd_def)
  have base: "buffers_only a b" if "buffers_only ?a b" for b
    using that by (simp add: buffers_only_def)
  consider "ins cmd = INS_GET_RESPONSE" | "ins cmd \<noteq> INS_GET_RESPONSE" "is_chained cmd"
    | "ins cmd \<noteq> INS_GET_RESPONSE" "\<not> is_chained cmd" by blast
  then show thesis
  proof cases
    case 1
    with assms have "handle_get_response ?a cmd = Some (r, b)" by (simp add: pgp_process_def)
    then show thesis by (intro buffers base get_response_buffers)
  next
    case 2
    with assms have "b = snd (handle_command_chaining ?a cmd)" by (simp add: pgp_process_def)
    then show thesis using chaining_buffers [of ?a cmd] buffers base by simp
  next
    case 3
    show thesis
    proof (cases "command_buffer a \<noteq> [] \<and> chaining_ins a \<noteq> Some (ins cmd) \<or>
        terminated (pgp_state a) \<and> ins cmd \<noteq> INS_ACTIVATE_FILE")
      case True
      then have "buffers_only a b"
        using assms 3 by (auto simp: pgp_process_def Let_def buffers_only_def unchain_def split: if_splits)
      then show thesis by (rule buffers)
    next
      case False
      then have "pgp_route X (unchain ?a) (effective_cmd a cmd) = Some (r, b)"
        using assms 3 by (auto simp: pgp_process_def Let_def eff split: if_splits)
      with 3 False show thesis by (intro routed) auto
    qed
  qed
qed

text \<open>What each routed command may change: one elimination over the instruction byte.\<close>

lemma pgp_route_cases [consumes 1, case_names none verify change reset put import generate sign
    response terminate activate]:
  assumes "pgp_route X a cmd = Some (r, b)"
    and "b = a \<Longrightarrow> P"
    and "ins cmd = INS_VERIFY \<Longrightarrow> b = snd (handle_verify X a cmd) \<Longrightarrow> P"
    and "ins cmd = INS_CHANGE_REFERENCE_DATA \<Longrightarrow> b = snd (handle_change_reference_data X a cmd) \<Longrightarrow> P"
    and "ins cmd = INS_RESET_RETRY_COUNTER \<Longrightarrow> b = snd (handle_reset_retry_counter X a cmd) \<Longrightarrow> P"
    and "ins cmd = INS_PUT_DATA \<Longrightarrow> b = snd (handle_put_data X a cmd) \<Longrightarrow> P"
    and "ins cmd = INS_PUT_DATA_ODD \<Longrightarrow> handle_put_data_odd X a cmd = Some (r, b) \<Longrightarrow> P"
    and "ins cmd = INS_GENERATE_ASYMMETRIC_KEY_PAIR \<Longrightarrow> b = snd (handle_generate_key X a cmd) \<Longrightarrow> P"
    and "ins cmd = INS_PSO \<Longrightarrow> handle_pso_sign X a cmd = Some (r, b) \<Longrightarrow> P"
    and "same_but_response a b \<Longrightarrow> P"
    and "ins cmd = INS_TERMINATE_DF \<Longrightarrow> b = snd (handle_terminate X a cmd) \<Longrightarrow> P"
    and "ins cmd = INS_ACTIVATE_FILE \<Longrightarrow> b = snd (handle_activate X a cmd) \<Longrightarrow> P"
  shows P
proof -
  have sel: "snd (handle_select a cmd) = a" by (simp add: handle_select_def)
  show ?thesis
    using assms(1) unfolding pgp_route_def
    by (elim if_eqE)
      (use assms(2-) sel in \<open>auto simp: handle_pso_def split: if_splits
        dest: decipher_same authenticate_same\<close>)
qed

section \<open>Frames of the remaining handlers\<close>

lemma put_data_frame [simp]:
  "security (snd (handle_put_data X a cmd)) = security a"
  "command_buffer (snd (handle_put_data X a cmd)) = command_buffer a"
  "chaining_ins (snd (handle_put_data X a cmd)) = chaining_ins a"
  "response_buffer (snd (handle_put_data X a cmd)) = response_buffer a"
  "response_offset (snd (handle_put_data X a cmd)) = response_offset a"
  by (simp_all add: handle_put_data_def Let_def split: sum.splits)

lemma put_data_protected_part:
  "protected_part (pgp_state (snd (handle_put_data X a cmd))) = protected_part (pgp_state a)"
  by (auto simp: handle_put_data_def Let_def split: sum.splits dest: put_data_protected)

lemma put_data_counters_ok:
  "counters_ok (pgp_pins a) \<Longrightarrow> counters_ok (pgp_pins (snd (handle_put_data X a cmd)))"
  by (auto simp: handle_put_data_def Let_def split: sum.splits dest: put_data_counters)

lemma terminate_frame [simp]:
  "security (snd (handle_terminate X a cmd)) = security a"
  "pgp_pins (snd (handle_terminate X a cmd)) = pgp_pins a"
  "command_buffer (snd (handle_terminate X a cmd)) = command_buffer a"
  "chaining_ins (snd (handle_terminate X a cmd)) = chaining_ins a"
  "response_buffer (snd (handle_terminate X a cmd)) = response_buffer a"
  "response_offset (snd (handle_terminate X a cmd)) = response_offset a"
  "get_slot kt (pgp_state (snd (handle_terminate X a cmd))) = get_slot kt (pgp_state a)"
  by (simp_all add: handle_terminate_def Let_def get_slot_def split: key_slot_type.splits)

lemma activate_simps [simp]:
  "pgp_state (snd (handle_activate X a cmd)) = factory_state X"
  "security (snd (handle_activate X a cmd)) = clear_all (security a)"
  "command_buffer (snd (handle_activate X a cmd)) = []" "chaining_ins (snd (handle_activate X a cmd)) = None"
  "response_buffer (snd (handle_activate X a cmd)) = []" "response_offset (snd (handle_activate X a cmd)) = 0"
  by (simp_all add: handle_activate_def pgp_state_def)

lemma verify_frame [simp]:
  "command_buffer (snd (handle_verify X a cmd)) = command_buffer a"
  "chaining_ins (snd (handle_verify X a cmd)) = chaining_ins a"
  "response_buffer (snd (handle_verify X a cmd)) = response_buffer a"
  "response_offset (snd (handle_verify X a cmd)) = response_offset a"
  by (simp_all add: handle_verify_def Let_def split_beta split: option.splits)

lemma verify_state:
  "pgp_state (snd (handle_verify X a cmd)) =
     (pgp_state a)\<lparr>pin_data := pgp_pins (snd (handle_verify X a cmd))\<rparr>"
  by (simp add: handle_verify_def put_pin_data_def Let_def split_beta split: option.splits)

lemma change_frame [simp]:
  "command_buffer (snd (handle_change_reference_data X a cmd)) = command_buffer a"
  "chaining_ins (snd (handle_change_reference_data X a cmd)) = chaining_ins a"
  "response_buffer (snd (handle_change_reference_data X a cmd)) = response_buffer a"
  "response_offset (snd (handle_change_reference_data X a cmd)) = response_offset a"
  by (simp_all add: handle_change_reference_data_def Let_def split_beta split: option.splits)

lemma change_state:
  "pgp_state (snd (handle_change_reference_data X a cmd)) =
     (pgp_state a)\<lparr>pin_data := pgp_pins (snd (handle_change_reference_data X a cmd))\<rparr>"
  by (simp add: handle_change_reference_data_def put_pin_data_def Let_def split_beta split: option.splits)

lemma reset_frame [simp]:
  "command_buffer (snd (handle_reset_retry_counter X a cmd)) = command_buffer a"
  "chaining_ins (snd (handle_reset_retry_counter X a cmd)) = chaining_ins a"
  "response_buffer (snd (handle_reset_retry_counter X a cmd)) = response_buffer a"
  "response_offset (snd (handle_reset_retry_counter X a cmd)) = response_offset a"
  by (simp_all add: handle_reset_retry_counter_def Let_def split_beta)

lemma reset_state:
  "pgp_state (snd (handle_reset_retry_counter X a cmd)) =
     (pgp_state a)\<lparr>pin_data := pgp_pins (snd (handle_reset_retry_counter X a cmd))\<rparr>"
  by (simp add: handle_reset_retry_counter_def put_pin_data_def Let_def split_beta)

section \<open>The invariant\<close>

text \<open>
  The response offset points into the response buffer, buffered data belongs to a chain, and every
  retry counter is within its limit.
\<close>

definition response_ok_inv :: "openpgp_applet \<Rightarrow> bool" where
  "response_ok_inv a \<longleftrightarrow>
     (if response_buffer a = [] then response_offset a = 0
      else response_offset a < length (response_buffer a))"

definition chain_inv :: "openpgp_applet \<Rightarrow> bool" where
  "chain_inv a \<longleftrightarrow> (command_buffer a \<noteq> [] \<longrightarrow> chaining_ins a \<noteq> None)"

definition pgp_inv :: "openpgp_applet \<Rightarrow> bool" where
  "pgp_inv a \<longleftrightarrow> response_ok_inv a \<and> chain_inv a \<and> counters_ok (pgp_pins a)"

lemma pgp_inv_new: "counters_ok (pin_data (state s)) \<Longrightarrow> pgp_inv (pgp_new s)"
  by (simp add: pgp_inv_def pgp_new_def response_ok_inv_def chain_inv_def pgp_state_def)

lemma counters_ok_factory: "counters_ok (pin_data (factory_state X))"
  using counters_ok_default by (simp add: factory_state_def counters_ok_def)

lemma create_response_inv: "response_ok_inv a \<Longrightarrow> response_ok_inv (snd (create_response a d))"
  by (auto simp: create_response_def response_ok_inv_def Let_def not_le)

lemma get_response_inv:
  assumes "response_ok_inv a" "handle_get_response a cmd = Some (r, b)"
  shows "response_ok_inv b"
  using assms
  by (auto simp: handle_get_response_def response_ok_inv_def Let_def min_def split: if_splits)

text \<open>With the invariant GET RESPONSE does not panic.\<close>

lemma get_response_total: "response_ok_inv a \<Longrightarrow> handle_get_response a cmd \<noteq> None"
  by (auto simp: handle_get_response_def response_ok_inv_def Let_def split: if_splits)

lemma generate_inv: "response_ok_inv a \<Longrightarrow> response_ok_inv (snd (handle_generate_key X a cmd))"
proof -
  assume inv: "response_ok_inv a"
  have save: "response_ok_inv (pgp_save X (put_pgp_slot kt k a))" for kt k
    using inv by (simp add: response_ok_inv_def)
  show ?thesis
    unfolding generate_key_defs Let_def
    by (auto simp: inv save create_response_inv split: option.splits sum.splits prod.splits)
qed

lemma sign_inv:
  assumes "response_ok_inv a" "handle_pso_sign X a cmd = Some (r, b)"
  shows "response_ok_inv b"
proof -
  have upd: "response_ok_inv (pgp_save X (put_state s a)\<lparr>security := ss\<rparr>)" for s ss
    using assms(1) by (simp add: response_ok_inv_def)
  show ?thesis
    using assms create_response_inv [OF upd]
    by (auto simp: handle_pso_sign_def Let_def split: if_splits option.splits sum.splits
        dest!: create_responseD)
qed

lemma same_but_response_inv: "pgp_inv a \<Longrightarrow> same_but_response a b \<Longrightarrow> pgp_inv b"
  using same_but_response_parts [of a b]
  by (auto simp: pgp_inv_def chain_inv_def same_but_response_def create_response_inv)

lemma pgp_route_inv:
  assumes route: "pgp_route X a cmd = Some (r, b)" and inv: "pgp_inv a"
  shows "pgp_inv b"
proof -
  have parts: "response_ok_inv a" "chain_inv a" "counters_ok (pgp_pins a)"
    using inv by (simp_all add: pgp_inv_def)
  note same = chain_inv_def response_ok_inv_def pgp_inv_def
  from route show ?thesis
  proof (cases rule: pgp_route_cases)
    case import
    then show ?thesis using parts import_frame [of X a cmd r b] by (simp add: same)
  next
    case generate
    then show ?thesis using parts generate_inv [of a X cmd] by (simp add: pgp_inv_def chain_inv_def)
  next
    case sign
    then show ?thesis
      using parts sign_inv [of a X cmd r b] sign_error [of X a cmd r b]
      by (auto simp: pgp_inv_def chain_inv_def)
  next
    case response
    then show ?thesis using inv same_but_response_inv by blast
  next
    case activate
    then show ?thesis by (simp add: same counters_ok_factory)
  qed (use parts pin_handlers_counters put_data_counters_ok in \<open>simp_all add: same\<close>)
qed

lemma pgp_process_inv:
  assumes proc: "pgp_process X a cmd = Some (r, b)" and inv: "pgp_inv a"
  shows "pgp_inv b"
proof -
  let ?a = "a\<lparr>current_le := le cmd\<rparr>"
  have inv': "pgp_inv ?a" "pgp_inv (unchain ?a)" "pgp_inv (?a\<lparr>command_buffer := [], chaining_ins := None\<rparr>)"
    using inv by (simp_all add: pgp_inv_def response_ok_inv_def chain_inv_def unchain_def)
  consider "handle_get_response ?a cmd = Some (r, b)" | "b = snd (handle_command_chaining ?a cmd)"
    | "b = ?a\<lparr>command_buffer := [], chaining_ins := None\<rparr>" | "b = unchain ?a"
    | "pgp_route X (unchain ?a) (effective_cmd ?a cmd) = Some (r, b)"
    using proc by (auto simp: pgp_process_def Let_def split: if_splits)
  then show ?thesis
  proof cases
    case 1
    then show ?thesis
      using inv' get_response_inv [OF _ 1] get_response_buffers [OF 1] buffers_only_state
      by (fastforce simp: pgp_inv_def chain_inv_def handle_get_response_def Let_def split: if_splits)
  next
    case 2
    then show ?thesis
      using inv' by (auto simp: handle_command_chaining_def pgp_inv_def chain_inv_def response_ok_inv_def Let_def)
  next
    case 5
    then show ?thesis using pgp_route_inv inv' by blast
  qed (simp_all add: inv')
qed

interpretation pgp: state_machine pgp_next "pred_option pgp_inv"
  by unfold_locales
    (auto simp: pgp_next_def split: option.splits prod.splits dest: pgp_process_inv)

section \<open>GET RESPONSE delivers the rest\<close>

text \<open>The client's loop: GET RESPONSE until the status is not 61xx; the fuel bounds the rounds.\<close>

fun read_rest :: "nat \<Rightarrow> 'k env \<Rightarrow> openpgp_applet \<Rightarrow> apdu \<Rightarrow> byte list option" where
  "read_rest 0 X a cmd = None"
| "read_rest (Suc n) X a cmd =
     (case pgp_process X a cmd of
        None \<Rightarrow> None
      | Some (r, b) \<Rightarrow>
          if available_response r = None then (if resp_sw r = SW_SUCCESS then Some (resp_data r) else None)
          else map_option ((@) (resp_data r)) (read_rest n X b cmd))"

lemma more_data_available: "available_response (response_more_data d n) = Some n"
proof -
  have w: "sw_bytes_remaining n = from_be16 0x61 n"
    by (simp add: sw_bytes_remaining_def from_be16_def)
  show ?thesis
    unfolding available_response_def response_more_data_def response_new_def w
    by (simp add: bytes_from_be16)
qed

lemma success_not_available: "available_response (response_success d) = None"
  by (simp add: available_response_def response_success_def response_new_def SW_SUCCESS_def)

lemma resp_data_simps [simp]:
  "resp_data (response_success d) = d" "resp_data (response_more_data d n) = d"
  "resp_data (response_error w) = []"
  by (simp_all add: response_success_def response_more_data_def response_new_def response_error_def)

text \<open>One round takes the next bytes, at most as many as asked for.\<close>

lemma get_response_round:
  assumes "ins cmd = INS_GET_RESPONSE" "response_buffer a \<noteq> []" "response_offset a < length (response_buffer a)"
  defines "n \<equiv> (case le cmd of Some l \<Rightarrow> unat l | None \<Rightarrow> 256)"
    and "rest \<equiv> drop (response_offset a) (response_buffer a)"
  shows "\<exists>r b. pgp_process X a cmd = Some (r, b) \<and> resp_data r = take n rest \<and>
    (if length rest \<le> n then r = response_success rest
     else available_response r \<noteq> None \<and> response_buffer b = response_buffer a \<and>
       response_offset b = response_offset a + n)"
proof -
  have len: "length rest = length (response_buffer a) - response_offset a"
    by (simp add: rest_def)
  show ?thesis
    using assms(1-3) len unfolding pgp_process_def handle_get_response_def Let_def
    by (auto simp: n_def [symmetric] rest_def [symmetric] more_data_available min_def)
qed

lemma asked_bytes_pos: "l \<noteq> Some 0 \<Longrightarrow> 1 \<le> (case l of Some (x :: u32) \<Rightarrow> unat x | None \<Rightarrow> 256)"
  by (auto simp: unsigned_eq_0_iff Suc_le_eq neq0_conv [symmetric] simp del: neq0_conv split: option.splits)

text \<open>The loop ends after exactly as many rounds as the rest has parts of the size asked for.\<close>

lemma read_rest_rounds:
  assumes cmd: "ins cmd = INS_GET_RESPONSE" "le cmd \<noteq> Some 0"
    and "response_offset a < length (response_buffer a)"
  shows "read_rest k X a cmd =
    (if (length (response_buffer a) - response_offset a - 1) div (case le cmd of Some l \<Rightarrow> unat l | None \<Rightarrow> 256) < k
     then Some (drop (response_offset a) (response_buffer a)) else None)"
  using assms(3)
proof (induction k arbitrary: a)
  case (Suc k)
  define n where "n = (case le cmd of Some l \<Rightarrow> unat l | None \<Rightarrow> 256)"
  define rest where "rest = drop (response_offset a) (response_buffer a)"
  have n: "1 \<le> n" unfolding n_def by (rule asked_bytes_pos [OF cmd(2)])
  have rest: "length rest = length (response_buffer a) - response_offset a" "rest \<noteq> []"
    using Suc.prems by (simp_all add: rest_def)
  have "response_buffer a \<noteq> []" using Suc.prems by auto
  from get_response_round [OF cmd(1) this Suc.prems, of X]
  obtain r b where step: "pgp_process X a cmd = Some (r, b)" "resp_data r = take n rest"
    and cases: "if length rest \<le> n then r = response_success rest
      else available_response r \<noteq> None \<and> response_buffer b = response_buffer a \<and>
        response_offset b = response_offset a + n"
    unfolding n_def rest_def by blast
  show ?case
  proof (cases "length rest \<le> n")
    case True
    then have "(length rest - 1) div n = 0" using n rest(2) by (cases rest) auto
    with True step cases show ?thesis by (simp add: success_not_available rest_def n_def)
  next
    case False
    then have b: "response_buffer b = response_buffer a" "response_offset b = response_offset a + n"
      "available_response r \<noteq> None"
      using cases by auto
    have "read_rest k X b cmd = (if (length rest - n - 1) div n < k then Some (drop n rest) else None)"
      using Suc.IH [of b] False rest(1) b by (simp add: n_def [symmetric] rest_def add.commute diff_diff_eq)
    moreover have "(length rest - 1) div n = Suc ((length rest - n - 1) div n)"
      using False n le_div_geq [of n "length rest - 1"] by (simp add: diff_right_commute)
    moreover have "read_rest (Suc k) X a cmd = map_option ((@) (take n rest)) (read_rest k X b cmd)"
      using step b(3) by auto
    ultimately have "read_rest (Suc k) X a cmd = (if (length rest - 1) div n < Suc k then Some rest else None)"
      by (simp only: Suc_less_eq if_distrib [where f = "map_option _"] option.map append_take_drop_id)
    then show ?thesis by (simp only: rest_def [symmetric] n_def [symmetric] rest(1))
  qed
qed simp

lemma read_rest_complete:
  assumes "ins cmd = INS_GET_RESPONSE" "le cmd \<noteq> Some 0"
    and "response_buffer a \<noteq> []" "response_offset a < length (response_buffer a)"
    and "length (response_buffer a) - response_offset a \<le> fuel"
  shows "read_rest fuel X a cmd = Some (drop (response_offset a) (response_buffer a))"
proof -
  let ?m = "length (response_buffer a) - response_offset a"
  have "(?m - 1) div (case le cmd of Some l \<Rightarrow> unat l | None \<Rightarrow> 256) \<le> ?m - 1" by (rule div_le_dividend)
  also have "\<dots> < fuel" using assms(4,5) by linarith
  finally show ?thesis using read_rest_rounds [OF assms(1,2,4), of fuel X] by simp
qed

lemma response_chain_complete:
  assumes "create_response a d = (r, b)" "length d > (case current_le a of Some x \<Rightarrow> unat x | None \<Rightarrow> 256)"
    and "ins cmd = INS_GET_RESPONSE" "le cmd \<noteq> Some 0"
  shows "available_response r \<noteq> None \<and>
    map_option ((@) (resp_data r)) (read_rest (length d) X b cmd) = Some d"
proof -
  have b: "response_buffer b = d" "response_offset b < length d"
    "resp_data r = take (response_offset b) d" "available_response r \<noteq> None"
    using assms(1,2) by (auto simp: create_response_def Let_def more_data_available split: if_splits)
  have "d \<noteq> []" using assms(2) by auto
  then have "read_rest (length d) X b cmd = Some (drop (response_offset b) d)"
    using b read_rest_complete [OF assms(3,4), of b "length d" X] by simp
  with b show ?thesis by simp
qed

section \<open>A chained command is the command with the whole data\<close>

fun send_chain :: "'k env \<Rightarrow> openpgp_applet \<Rightarrow> apdu list \<Rightarrow> openpgp_applet option" where
  "send_chain X a [] = Some a"
| "send_chain X a (c # cs) =
     (case pgp_process X a c of
        Some (r, b) \<Rightarrow> if r = response_ok then send_chain X b cs else None
      | None \<Rightarrow> None)"

definition chain_part :: "byte \<Rightarrow> apdu \<Rightarrow> bool" where
  "chain_part i c \<longleftrightarrow> is_chained c \<and> ins c = i"

lemma chain_part_step:
  assumes "chain_part i c" "i \<noteq> INS_GET_RESPONSE" "chaining_ins a \<in> {None, Some i}"
    "chaining_ins a = None \<longrightarrow> command_buffer a = []"
  shows "pgp_process X a c = Some (response_ok, a\<lparr>current_le := le c, chaining_ins := Some i,
    command_buffer := command_buffer a @ cmd_data c\<rparr>)"
  using assms by (auto simp: chain_part_def pgp_process_def handle_command_chaining_def Let_def)

text \<open>The parts of a chain are collected whatever Le they carry; the last one sets the Le.\<close>

lemma send_chain_collects:
  assumes "list_all (chain_part i) cs" "i \<noteq> INS_GET_RESPONSE" "chaining_ins a = Some i"
  shows "\<exists>l. send_chain X a cs = Some (a\<lparr>current_le := l, chaining_ins := Some i,
    command_buffer := command_buffer a @ concat (map cmd_data cs)\<rparr>)"
  using assms
proof (induction cs arbitrary: a)
  case Nil
  have "a = a\<lparr>current_le := current_le a, chaining_ins := Some i, command_buffer := command_buffer a @ []\<rparr>"
    using Nil by simp
  then show ?case by (metis concat.simps(1) list.map(1) send_chain.simps(1))
next
  case (Cons c cs)
  define b where "b = a\<lparr>current_le := le c, chaining_ins := Some i,
    command_buffer := command_buffer a @ cmd_data c\<rparr>"
  have "pgp_process X a c = Some (response_ok, b)"
    unfolding b_def by (rule chain_part_step) (use Cons.prems in auto)
  moreover obtain l where "send_chain X b cs = Some (b\<lparr>current_le := l, chaining_ins := Some i,
      command_buffer := command_buffer b @ concat (map cmd_data cs)\<rparr>)"
    using Cons.IH [of b] Cons.prems by (auto simp: b_def)
  ultimately show ?case by (auto simp: b_def)
qed

lemma pgp_process_final:
  assumes "ins c \<noteq> INS_GET_RESPONSE" "\<not> is_chained c" "command_buffer a = [] \<or> chaining_ins a = Some (ins c)"
    and "effective_cmd a c = e" "unchain (a\<lparr>current_le := le c\<rparr>) = u"
  shows "pgp_process X a c =
    (if terminated (pgp_state u) \<and> ins e \<noteq> INS_ACTIVATE_FILE
     then Some (response_error SW_CONDITIONS_NOT_SATISFIED, u) else pgp_route X u e)"
proof -
  have "effective_cmd (a\<lparr>current_le := le c\<rparr>) c = effective_cmd a c" by (simp add: effective_cmd_def)
  then show ?thesis using assms by (auto simp: pgp_process_def Let_def)
qed

lemma chained_equals_single:
  assumes idle: "chaining_ins a = None" "command_buffer a = []"
    and parts: "list_all (chain_part i) cs" "cs \<noteq> []" "i \<noteq> INS_GET_RESPONSE"
    and last: "ins c = i" "\<not> is_chained c"
    and data: "concat (map cmd_data cs) \<noteq> []"
  shows "\<exists>b. send_chain X a cs = Some b \<and> pgp_process X b c =
    pgp_process X a (c\<lparr>cla := cla c AND 0xEF, cmd_data := concat (map cmd_data cs) @ cmd_data c\<rparr>)"
proof -
  obtain d ds where cs: "cs = d # ds" using parts(2) by (cases cs) auto
  define a1 where "a1 = a\<lparr>current_le := le d, chaining_ins := Some i,
    command_buffer := command_buffer a @ cmd_data d\<rparr>"
  have "pgp_process X a d = Some (response_ok, a1)"
    unfolding a1_def by (rule chain_part_step) (use idle parts cs in auto)
  moreover obtain l where "send_chain X a1 ds = Some (a1\<lparr>current_le := l, chaining_ins := Some i,
      command_buffer := command_buffer a1 @ concat (map cmd_data ds)\<rparr>)"
    using send_chain_collects [of i ds a1 X] parts cs by (auto simp: a1_def)
  ultimately have send: "send_chain X a cs = Some (a\<lparr>current_le := l, chaining_ins := Some i,
      command_buffer := concat (map cmd_data cs)\<rparr>)"
    using idle by (simp add: cs a1_def)
  define b where "b = a\<lparr>current_le := l, chaining_ins := Some i, command_buffer := concat (map cmd_data cs)\<rparr>"
  define c1 where "c1 = c\<lparr>cla := cla c AND 0xEF, cmd_data := concat (map cmd_data cs) @ cmd_data c\<rparr>"
  have "(cla c AND 0xEF) AND 0x10 = 0" by (simp add: and.assoc)
  then have single: "\<not> is_chained c1" by (simp add: is_chained_def c1_def)
  have c1: "ins c1 = i" "le c1 = le c" "effective_cmd a c1 = c1"
    using last idle by (simp_all add: c1_def effective_cmd_def)
  have un: "unchain (a\<lparr>current_le := le c\<rparr>) = a\<lparr>current_le := le c\<rparr>"
    using idle by (simp add: unchain_def)
  have b: "effective_cmd b c = c1" "unchain (b\<lparr>current_le := le c\<rparr>) = a\<lparr>current_le := le c\<rparr>"
    "chaining_ins b = Some (ins c)"
    using data idle last by (simp_all add: effective_cmd_def unchain_def b_def c1_def)
  have "pgp_process X b c = (if terminated (pgp_state a) \<and> i \<noteq> INS_ACTIVATE_FILE
     then Some (response_error SW_CONDITIONS_NOT_SATISFIED, a\<lparr>current_le := le c\<rparr>)
     else pgp_route X (a\<lparr>current_le := le c\<rparr>) c1)"
    using last parts(3) b c1 by (subst pgp_process_final [OF _ _ _ b(1,2)]) simp_all
  also have "\<dots> = pgp_process X a c1"
    using single parts(3) idle c1 un
    by (subst pgp_process_final [where e = c1 and u = "a\<lparr>current_le := le c\<rparr>"]) simp_all
  finally have "pgp_process X b c = pgp_process X a c1" .
  with send show ?thesis unfolding b_def c1_def by blast
qed

text \<open>A command that does not continue the chain aborts it.\<close>

lemma chain_aborted:
  assumes "command_buffer a \<noteq> []" "chaining_ins a = Some i" "ins c \<noteq> i" "ins c \<noteq> INS_GET_RESPONSE"
  shows "\<exists>b. pgp_process X a c = Some (response_error SW_CONDITIONS_NOT_SATISFIED, b) \<and>
    command_buffer b = [] \<and> chaining_ins b = None \<and> buffers_only a b"
  using assms
  by (auto simp: pgp_process_def handle_command_chaining_def Let_def buffers_only_def)

section \<open>Authorisation\<close>

text \<open>The flag of a PIN is set by the right PIN in a VERIFY command, while tries are left.\<close>

lemma flags_by_verify:
  assumes proc: "pgp_process X a cmd = Some (r, b)" and flag: "verified c b" "\<not> verified c a"
  shows "ins cmd = INS_VERIFY \<and> (\<exists>t. verify_pin_type (p2 cmd) = Some t \<and> condition_of t = Some c \<and>
    get_retry_counter t (pgp_pins a) \<noteq> 0 \<and>
    pin_good X t (pgp_pins a) (strip_padding (cmd_data (effective_cmd a cmd))))"
  using proc
proof (cases rule: pgp_process_cases)
  case buffers
  with flag show ?thesis by (simp add: buffers_only_def)
next
  case routed
  let ?a = "unchain (a\<lparr>current_le := le cmd\<rparr>)"
  have nf: "\<not> verified c ?a" using flag by simp
  from routed(5) show ?thesis
  proof (cases rule: pgp_route_cases)
    case verify
    with flag(1) have "verified c (snd (handle_verify X ?a (effective_cmd a cmd)))" by simp
    from handle_verify_flags [OF this nf] verify show ?thesis by simp
  next
    case import
    then show ?thesis using import_frame flag by (metis nf)
  next
    case sign
    then show ?thesis using sign_error [OF sign(2)] flag nf by auto
  next
    case response
    then show ?thesis using same_but_response_parts [OF response] flag nf by simp
  qed (use flag nf in simp_all)
qed

lemma pw3_hash_fields: "pw3_fields d = pw3_fields e \<Longrightarrow> pw3_hash d = pw3_hash e"
  by (simp add: pw3_fields_def)

lemma pw3_hash_reset:
  "pw3_hash (snd (reset_pw1_with_rc X p q d)) = pw3_hash d"
  "pw3_hash (snd (reset_pw1_with_pw3 X q d)) = pw3_hash d"
  by (rule pw3_hash_fields, rule pw1_ops_keep_pw3)+

lemma handle_change_pw3:
  assumes "pw3_hash (pgp_pins (snd (handle_change_reference_data X a cmd))) \<noteq> pw3_hash (pgp_pins a)"
  shows "pw3_retry_counter (pgp_pins a) \<noteq> 0 \<and>
    pin_good X PW3 (pgp_pins a) (take (unat (pw3_length (pgp_pins a))) (cmd_data cmd))"
proof (rule ccontr)
  assume bad: "\<not> ?thesis"
  have "pw3_hash (snd (change_pin X PW1_81 p q d)) = pw3_hash d" for p q d
    by (rule pw3_hash_fields, rule pw1_ops_keep_pw3(2)) simp
  moreover have "pw3_hash (snd (change_pin X PW3 (take (unat (pw3_length (pgp_pins a))) (cmd_data cmd)) q
      (pgp_pins a))) = pw3_hash (pgp_pins a)" for q
    using bad by (auto simp: change_pin_alt verify_pin_alt pin_field_defs)
  ultimately show False
    using assms
    by (simp add: handle_change_reference_data_def change_pin_type_def stored_pin_length_def Let_def
        split_beta split: if_splits)
qed

text \<open>PW3 changes by CHANGE REFERENCE DATA with the current PW3, or by a factory reset.\<close>

lemma pw3_change_needs_pw3:
  assumes proc: "pgp_process X a cmd = Some (r, b)" and ch: "pw3_hash (pgp_pins b) \<noteq> pw3_hash (pgp_pins a)"
  shows "ins cmd = INS_ACTIVATE_FILE \<or>
    (ins cmd = INS_CHANGE_REFERENCE_DATA \<and> pw3_retry_counter (pgp_pins a) \<noteq> 0 \<and>
     pin_good X PW3 (pgp_pins a)
       (take (unat (pw3_length (pgp_pins a))) (cmd_data (effective_cmd a cmd))))"
  using proc
proof (cases rule: pgp_process_cases)
  case buffers
  with ch show ?thesis by (auto dest: buffers_only_state)
next
  case routed
  let ?a = "unchain (a\<lparr>current_le := le cmd\<rparr>)" and ?c = "effective_cmd a cmd"
  have st: "pgp_state ?a = pgp_state a" by simp
  from routed(5) show ?thesis
  proof (cases rule: pgp_route_cases)
    case verify
    have "pw3_hash (pgp_pins (snd (handle_verify X ?a ?c))) = pw3_hash (pgp_pins ?a)"
      by (auto simp: handle_verify_pins verify_pin_alt set_retry_counter_def split: option.splits pin_type.splits)
    with verify ch show ?thesis by simp
  next
    case change
    with ch st handle_change_pw3 [of X ?a ?c] show ?thesis by simp
  next
    case reset
    have "pw3_hash (pgp_pins (snd (handle_reset_retry_counter X ?a ?c))) = pw3_hash (pgp_pins ?a)"
      by (simp add: handle_reset_retry_counter_def Let_def split_beta pw3_hash_reset)
    with reset ch show ?thesis by simp
  next
    case put
    have "pw3_hash (pgp_pins (snd (handle_put_data X ?a ?c))) = pw3_hash (pgp_pins ?a)"
      using put_data_protected_part [of X ?a ?c]
      by (intro pw3_hash_fields) (simp add: protected_part_def)
    with put ch show ?thesis by simp
  next
    case import
    then show ?thesis using import_frame [of X ?a ?c r b] ch by simp
  next
    case sign
    then show ?thesis using sign_error [OF sign(2)] ch by auto
  next
    case response
    then show ?thesis using same_but_response_parts [OF response] ch by simp
  qed (use ch in simp_all)
qed

text \<open>A stored private key changes by import or generation under PW3, or by a factory reset.\<close>

abbreviation private_key :: "key_slot_type \<Rightarrow> openpgp_applet \<Rightarrow> byte list" where
  "private_key kt a \<equiv> private_key_data (get_slot kt (pgp_state a))"

lemma private_key_pin_data [simp]:
  "private_key_data (get_slot kt (s\<lparr>pin_data := d\<rparr>)) = private_key_data (get_slot kt s)"
  "private_key_data (get_slot kt (s\<lparr>signature_counter := n\<rparr>)) = private_key_data (get_slot kt s)"
  by (cases kt; simp add: get_slot_def)+

lemma private_key_protected:
  "protected_part s = protected_part t \<Longrightarrow>
     private_key_data (get_slot kt s) = private_key_data (get_slot kt t)"
  by (cases kt) (simp_all add: protected_part_def get_slot_def)

lemma private_key_change:
  assumes proc: "pgp_process X a cmd = Some (r, b)" and ch: "private_key kt b \<noteq> private_key kt a"
  shows "ins cmd = INS_ACTIVATE_FILE \<or>
    (verified SC_PW3 a \<and> (ins cmd = INS_PUT_DATA_ODD \<or> ins cmd = INS_GENERATE_ASYMMETRIC_KEY_PAIR \<and> p1 cmd = 0x80))"
  using proc
proof (cases rule: pgp_process_cases)
  case buffers
  with ch show ?thesis by (auto dest: buffers_only_state)
next
  case routed
  let ?a = "unchain (a\<lparr>current_le := le cmd\<rparr>)" and ?c = "effective_cmd a cmd"
  from routed(5) show ?thesis
  proof (cases rule: pgp_route_cases)
    case verify
    have "private_key kt (snd (handle_verify X ?a ?c)) = private_key kt ?a"
      by (subst verify_state) simp
    with verify ch show ?thesis by simp
  next
    case change
    have "private_key kt (snd (handle_change_reference_data X ?a ?c)) = private_key kt ?a"
      by (subst change_state) simp
    with change ch show ?thesis by simp
  next
    case reset
    have "private_key kt (snd (handle_reset_retry_counter X ?a ?c)) = private_key kt ?a"
      by (subst reset_state) simp
    with reset ch show ?thesis by simp
  next
    case put
    then show ?thesis using private_key_protected [OF put_data_protected_part [of X ?a ?c]] ch by simp
  next
    case import
    then show ?thesis using import_denied [of ?a X ?c] ch by fastforce
  next
    case generate
    show ?thesis
    proof (cases "p1 cmd = 0x80")
      case True
      with generate ch generate_denied [of ?a ?c X] show ?thesis by auto
    next
      case False
      then have "pgp_state (snd (handle_generate_key X ?a ?c)) = pgp_state ?a"
        by (simp add: generate_key_defs Let_def split: option.splits)
      with generate ch show ?thesis by simp
    qed
  next
    case sign
    then show ?thesis using sign_error [OF sign(2)] ch by auto
  next
    case response
    then show ?thesis using same_but_response_parts [OF response] ch by simp
  qed (use ch in simp_all)
qed

section \<open>Life cycle\<close>

lemma terminated_card:
  assumes "terminated (pgp_state a)" "pgp_process X a cmd = Some (r, b)" "ins cmd \<noteq> INS_ACTIVATE_FILE"
  shows "pgp_state b = pgp_state a \<and> security b = security a"
  using assms(2)
proof (cases rule: pgp_process_cases)
  case buffers
  then show ?thesis by (rule buffers_only_state)
next
  case routed
  with assms show ?thesis by simp
qed

text \<open>Outside a chain, a terminated card answers every other command with 6985.\<close>

lemma terminated_answer:
  assumes "terminated (pgp_state a)" "command_buffer a = []" "\<not> is_chained cmd"
    and "ins cmd \<noteq> INS_ACTIVATE_FILE" "ins cmd \<noteq> INS_GET_RESPONSE"
  shows "\<exists>b. pgp_process X a cmd = Some (response_error SW_CONDITIONS_NOT_SATISFIED, b)"
  using assms by (simp add: pgp_process_def Let_def)

text \<open>ACTIVATE FILE resets the card whether or not it is terminated, and asks for no PIN.\<close>

lemma activate_resets:
  assumes "ins cmd = INS_ACTIVATE_FILE" "\<not> is_chained cmd" "command_buffer a = []"
  shows "\<exists>b. pgp_process X a cmd = Some (response_ok, b) \<and> pgp_state b = factory_state X \<and>
    (\<forall>c. \<not> verified c b)"
  using assms
  by (simp add: pgp_process_def Let_def pgp_route_def INS_defs effective_cmd_def unchain_def)
    (simp add: handle_activate_def pgp_state_def)

text \<open>Where the card becomes terminated: TERMINATE DF under PW3, or with PW1 and PW3 both blocked.\<close>

lemma pin_data_terminated [simp]: "terminated (s\<lparr>pin_data := d\<rparr>) = terminated s"
  by simp

lemma terminated_by:
  assumes proc: "pgp_process X a cmd = Some (r, b)" and t: "terminated (pgp_state b)" "\<not> terminated (pgp_state a)"
  shows "ins cmd = INS_TERMINATE_DF \<and> (verified SC_PW3 a \<or>
    pw1_retry_counter (pgp_pins a) = 0 \<and> pw3_retry_counter (pgp_pins a) = 0)"
  using proc
proof (cases rule: pgp_process_cases)
  case buffers
  with t show ?thesis by (auto dest: buffers_only_state)
next
  case routed
  let ?a = "unchain (a\<lparr>current_le := le cmd\<rparr>)" and ?c = "effective_cmd a cmd"
  have pins: "terminated (pgp_state (snd (handle_verify X ?a ?c))) = terminated (pgp_state ?a)"
    "terminated (pgp_state (snd (handle_change_reference_data X ?a ?c))) = terminated (pgp_state ?a)"
    "terminated (pgp_state (snd (handle_reset_retry_counter X ?a ?c))) = terminated (pgp_state ?a)"
    by (subst verify_state change_state reset_state, simp)+
  from routed(5) show ?thesis
  proof (cases rule: pgp_route_cases)
    case put
    then show ?thesis using put_data_protected_part [of X ?a ?c] t by (simp add: protected_part_def)
  next
    case import
    then show ?thesis using import_frame [of X ?a ?c r b] t by simp
  next
    case sign
    then show ?thesis using sign_error [OF sign(2)] t by auto
  next
    case response
    then show ?thesis using same_but_response_parts [OF response] t by simp
  next
    case terminate
    then show ?thesis using t by (auto simp: handle_terminate_def Let_def split: if_splits)
  next
    case activate
    then show ?thesis using t by (simp add: factory_state_def card_state_default_def)
  qed (use t pins in simp_all)
qed

section \<open>Brute force on a PIN through the applet\<close>

text \<open>The PIN data of a run of VERIFY commands is that of the retry guard.\<close>

definition verify_cmd :: "byte \<Rightarrow> byte list \<Rightarrow> apdu" where
  "verify_cmd ref pin = \<lparr>cla = 0, ins = INS_VERIFY, p1 = 0, p2 = ref, cmd_data = pin, le = None\<rparr>"

lemma verify_cmd_process:
  assumes "command_buffer a = []" "\<not> terminated (pgp_state a)"
  shows "pgp_process X a (verify_cmd ref pin) =
    Some (handle_verify X (a\<lparr>current_le := None\<rparr>) (verify_cmd ref pin))"
  using assms
  by (simp add: pgp_process_def verify_cmd_def Let_def is_chained_def INS_defs pgp_route_def
      effective_cmd_def unchain_def)

fun try_pins :: "'k env \<Rightarrow> byte \<Rightarrow> openpgp_applet \<Rightarrow> byte list list \<Rightarrow> openpgp_applet option" where
  "try_pins X ref a [] = Some a"
| "try_pins X ref a (p # ps) =
     (case pgp_process X a (verify_cmd ref p) of Some (r, b) \<Rightarrow> try_pins X ref b ps | None \<Rightarrow> None)"

lemma try_pins_guard:
  assumes "verify_pin_type ref = Some t" "[] \<notin> set ps" "command_buffer a = []" "\<not> terminated (pgp_state a)"
  shows "\<exists>b. try_pins X ref a ps = Some b \<and> command_buffer b = [] \<and> \<not> terminated (pgp_state b) \<and>
    pgp_pins b = attempts (\<lambda>d p. verify_pin X t p d) (pgp_pins a) (map strip_padding ps)"
  using assms(2-)
proof (induction ps arbitrary: a)
  case (Cons p ps)
  let ?b = "snd (handle_verify X (a\<lparr>current_le := None\<rparr>) (verify_cmd ref p))"
  have b: "command_buffer ?b = []" "\<not> terminated (pgp_state ?b)"
    "pgp_pins ?b = snd (verify_pin X t (strip_padding p) (pgp_pins a))"
  proof -
    show "command_buffer ?b = []" using Cons.prems by simp
    show "\<not> terminated (pgp_state ?b)" using Cons.prems by (subst verify_state) simp
    show "pgp_pins ?b = snd (verify_pin X t (strip_padding p) (pgp_pins a))"
      using Cons.prems assms(1) by (auto simp: handle_verify_pins verify_cmd_def)
  qed
  show ?case
    using Cons.IH [of ?b] b Cons.prems verify_cmd_process [of a X ref p]
    by (simp add: split_beta)
qed simp

text \<open>Wrong PINs as many as tries are left use up the counter.\<close>

lemma tries_used_up:
  assumes t: "verify_pin_type ref = Some t" and idle: "command_buffer a = []" "\<not> terminated (pgp_state a)"
    and ps: "[] \<notin> set ps" "list_all (\<lambda>p. \<not> pin_good X t (pgp_pins a) (strip_padding p)) ps"
      "unat (get_retry_counter t (pgp_pins a)) \<le> length ps"
  shows "\<exists>b. try_pins X ref a ps = Some b \<and> get_retry_counter t (pgp_pins b) = 0"
proof -
  obtain b where b: "try_pins X ref a ps = Some b"
    "pgp_pins b = attempts (\<lambda>d p. verify_pin X t p d) (pgp_pins a) (map strip_padding ps)"
    using try_pins_guard [OF t ps(1) idle, of X] by blast
  have "unat (get_retry_counter t (pgp_pins b)) = 0"
    using pin.wrong_attempts [of X t "pgp_pins a" "map strip_padding ps"] ps(2,3) by (simp add: b(2) list_all_iff)
  with b(1) show ?thesis by (simp add: unsigned_eq_0_iff)
qed

text \<open>VERIFY of a PIN without tries is refused, whatever it presents and in whatever state.\<close>

lemma blocked_verify_refused:
  assumes "pgp_process X a cmd = Some (r, b)" "ins cmd = INS_VERIFY" "\<not> is_chained cmd"
    and "verify_pin_type (p2 cmd) = Some t" "get_retry_counter t (pgp_pins a) = 0"
  shows "resp_sw r \<noteq> SW_SUCCESS"
proof -
  have "resp_sw (fst (handle_verify X c d)) \<noteq> SW_SUCCESS"
    if "pgp_pins c = pgp_pins a" "p2 d = p2 cmd" for c d
  proof (cases "cmd_data d = []")
    case True
    then show ?thesis
      using that assms(4,5) by (simp add: handle_verify_def verify_status_def SW_AUTH_METHOD_BLOCKED_def) (simp add: SW_SUCCESS_def)
  next
    case False
    then show ?thesis using handle_verify_success_iff [of d t X c] that assms(4,5) by simp
  qed
  from this [of "unchain (a\<lparr>current_le := le cmd\<rparr>)" "effective_cmd a cmd"] show ?thesis
    using assms(1-3)
    by (auto simp: pgp_process_def Let_def pgp_route_def INS_defs effective_cmd_def split: if_splits)
      (simp_all add: SW_defs)
qed

section \<open>A PIN without tries\<close>

text \<open>
  Commands that leave a blocked PIN \<open>t\<close> blocked: all but ACTIVATE FILE and, for PW1, a RESET RETRY
  COUNTER with PW3 verified or with the accepted resetting code.
\<close>

definition keeps_blocked :: "pin_type \<Rightarrow> 'k env \<Rightarrow> openpgp_applet \<Rightarrow> apdu \<Rightarrow> bool" where
  "keeps_blocked t X a cmd \<longleftrightarrow> ins cmd \<noteq> INS_ACTIVATE_FILE \<and>
     (t \<noteq> PW3 \<longrightarrow> ins cmd = INS_RESET_RETRY_COUNTER \<longrightarrow> \<not> verified SC_PW3 a \<and>
        (get_retry_counter RC (pgp_pins a) = 0 \<or>
         \<not> pin_good X RC (pgp_pins a) (take (unat (rc_length (pgp_pins a))) (cmd_data (effective_cmd a cmd)))))"

lemma blocked_by_operations:
  assumes "get_retry_counter t d = 0" "t \<noteq> RC"
  shows "get_retry_counter t (snd (verify_pin X u p d)) = 0"
    "get_retry_counter t (snd (change_pin X u p q d)) = 0"
    "t = PW3 \<Longrightarrow> get_retry_counter t (snd (set_new_pw1 X q d)) = 0"
    "get_retry_counter RC d = 0 \<or> \<not> pin_good X RC d p \<Longrightarrow> get_retry_counter t (snd (reset_pw1_with_rc X p q d)) = 0"
proof -
  show verify: "get_retry_counter t (snd (verify_pin X u p d)) = 0" for u p
    using assms by (cases t; cases u; simp add: verify_pin_alt get_retry_counter_def set_retry_counter_def)
  have "get_retry_counter t (set_pin u h l e) = get_retry_counter t e" for h l e
    by (cases t; cases u; simp add: get_retry_counter_def set_pin_def)
  then show "get_retry_counter t (snd (change_pin X u p q d)) = 0"
    using verify by (simp add: change_pin_alt Let_def split_beta)
  show "t = PW3 \<Longrightarrow> get_retry_counter t (snd (set_new_pw1 X q d)) = 0"
    using assms by (simp add: set_new_pw1_def get_retry_counter_def Let_def)
  show "get_retry_counter t (snd (reset_pw1_with_rc X p q d)) = 0"
    if "get_retry_counter RC d = 0 \<or> \<not> pin_good X RC d p"
  proof -
    have "\<not> fst (verify_pin X RC p d)" using that by (auto simp: verify_pin_alt)
    then show ?thesis
      using verify [of RC p] assms(1) by (auto simp: reset_pw1_with_rc_def split_beta split: bool.split)
  qed
qed

lemma blocked_pw3_reset:
  "get_retry_counter PW3 d = 0 \<Longrightarrow> get_retry_counter PW3 (snd (reset_pw1_with_rc X p q d)) = 0"
  using pw1_ops_keep_pw3(3) [of X p q d] by (simp add: pw3_fields_def get_retry_counter_def)

lemma blocked_put:
  "put_data_object X tag d s = Ok s' \<Longrightarrow> t \<noteq> RC \<Longrightarrow>
     get_retry_counter t (pin_data s') = get_retry_counter t (pin_data s)"
  unfolding put_data_defs Let_def
  by (elim if_eqE; cases t; auto simp: get_retry_counter_def split: option.splits)

lemma blocked_pin_step:
  assumes proc: "pgp_process X a cmd = Some (r, b)" and keep: "keeps_blocked t X a cmd" "t \<noteq> RC"
    and zero: "get_retry_counter t (pgp_pins a) = 0"
  shows "get_retry_counter t (pgp_pins b) = 0"
  using proc
proof (cases rule: pgp_process_cases)
  case buffers
  with zero show ?thesis by (auto dest: buffers_only_state)
next
  case routed
  let ?a = "unchain (a\<lparr>current_le := le cmd\<rparr>)" and ?c = "effective_cmd a cmd"
  have st: "pgp_state ?a = pgp_state a" "security ?a = security a" "ins ?c = ins cmd" by simp_all
  have z: "get_retry_counter t (pgp_pins ?a) = 0" using zero by simp
  note ops = blocked_by_operations [OF z keep(2)]
  from routed(5) show ?thesis
  proof (cases rule: pgp_route_cases)
    case verify
    have "get_retry_counter t (snd (verify_pin X u q (pgp_pins a))) = 0" for u q
      using blocked_by_operations(1) [OF zero keep(2)] .
    with verify z show ?thesis by (simp add: handle_verify_pins split: option.split)
  next
    case change
    then show ?thesis using handle_change_pins [of X ?a ?c] ops(2) z by auto
  next
    case reset
    show ?thesis
    proof (cases "t = PW3")
      case True
      then show ?thesis
        using handle_reset_pins [of X ?a ?c] reset ops(3) z blocked_pw3_reset [of "pgp_pins ?a" X]
        by (auto simp: reset_pw1_with_pw3_def)
    next
      case False
      have "ins cmd = INS_RESET_RETRY_COUNTER" using reset(1) by simp
      with False keep(1) have no: "\<not> verified SC_PW3 ?a" "get_retry_counter RC (pgp_pins ?a) = 0 \<or>
          \<not> pin_good X RC (pgp_pins ?a) (take (unat (rc_length (pgp_pins ?a))) (cmd_data ?c))"
        by (simp_all add: keeps_blocked_def)
      then show ?thesis
        using reset ops(4) [OF no(2)] z by (simp add: handle_reset_retry_counter_def Let_def split_beta)
    qed
  next
    case put
    then show ?thesis
      using z keep(2) by (auto simp: handle_put_data_def Let_def split: sum.splits dest: blocked_put)
  next
    case import
    then show ?thesis using import_frame [of X ?a ?c r b] z by simp
  next
    case sign
    then show ?thesis using sign_error [OF sign(2)] z by auto
  next
    case response
    then show ?thesis using same_but_response_parts [OF response] z by simp
  next
    case activate
    then show ?thesis using keep(1) by (simp add: keeps_blocked_def)
  qed (use z in simp_all)
qed

end
