(* ===== verification/Command_Runs.thy ===== *)
theory Command_Runs
  imports Main
begin

text \<open>
  Sequences of commands to a component \<open>P\<close> that answers a command or panics (\<open>None\<close>): a step
  relation and reachability, both restricted to the commands that a predicate \<open>C\<close> allows in the
  state they are sent in. Both applets and the card use it.
\<close>

inductive cmd_step ::
  "('x \<Rightarrow> 's \<Rightarrow> 'c \<Rightarrow> ('r \<times> 's) option) \<Rightarrow> ('x \<Rightarrow> 's \<Rightarrow> 'c \<Rightarrow> bool) \<Rightarrow> 's \<Rightarrow> 's \<Rightarrow> bool"
  for P C where
  step: "C x a cmd \<Longrightarrow> P x a cmd = Some (r, b) \<Longrightarrow> cmd_step P C a b"

inductive_cases cmd_stepE: "cmd_step P C a b"

inductive cmd_reach ::
  "('x \<Rightarrow> 's \<Rightarrow> 'c \<Rightarrow> ('r \<times> 's) option) \<Rightarrow> ('x \<Rightarrow> 's \<Rightarrow> 'c \<Rightarrow> bool) \<Rightarrow> 's \<Rightarrow> 's \<Rightarrow> bool"
  for P C a where
  start: "cmd_reach P C a a"
| more: "cmd_reach P C a b \<Longrightarrow> cmd_step P C b c \<Longrightarrow> cmd_reach P C a c"

lemma cmd_reach_one: "C x a cmd \<Longrightarrow> P x a cmd = Some (r, b) \<Longrightarrow> cmd_reach P C a b"
  by (rule cmd_reach.more [OF cmd_reach.start]) (rule cmd_step.step)

lemma cmd_reach_next:
  "cmd_reach P C a b \<Longrightarrow> C x b cmd \<Longrightarrow> P x b cmd = Some (r, c) \<Longrightarrow> cmd_reach P C a c"
  by (rule cmd_reach.more) (auto intro: cmd_step.step)

lemma cmd_reach_trans: "cmd_reach P C b c \<Longrightarrow> cmd_reach P C a b \<Longrightarrow> cmd_reach P C a c"
  by (induction rule: cmd_reach.induct) (auto intro: cmd_reach.more)

text \<open>What every allowed command keeps, every sequence keeps.\<close>

lemma cmd_reach_keeps:
  assumes "cmd_reach P C a b" "I a"
    and "\<And>x s cmd r s'. I s \<Longrightarrow> C x s cmd \<Longrightarrow> P x s cmd = Some (r, s') \<Longrightarrow> I s'"
  shows "I b"
  using assms(1,2) by (induction rule: cmd_reach.induct) (auto elim!: cmd_stepE dest: assms(3))

text \<open>What holds at the end and not at the start is made true by some command on the way.\<close>

lemma cmd_reach_switch:
  assumes "cmd_reach P C a b" "Q b" "\<not> Q a"
  shows "\<exists>x s cmd r s'. cmd_reach P C a s \<and> C x s cmd \<and> P x s cmd = Some (r, s') \<and>
    \<not> Q s \<and> Q s' \<and> cmd_reach P C s' b"
  using assms
proof (induction rule: cmd_reach.induct)
  case (more s s')
  from more.hyps(2) obtain x cmd r where p: "C x s cmd" "P x s cmd = Some (r, s')"
    by (rule cmd_stepE)
  show ?case
  proof (cases "Q s")
    case True
    from more.IH [OF True more.prems(2)] obtain y u c' r' u' where
      u: "cmd_reach P C a u" "C y u c'" "P y u c' = Some (r', u')" "\<not> Q u" "Q u'" "cmd_reach P C u' s"
      by (elim exE conjE)
    have "cmd_reach P C u' s'" using u(6) more.hyps(2) by (rule cmd_reach.more)
    with u(1-5) show ?thesis by (intro exI conjI)
  next
    case False
    show ?thesis
      by (intro exI conjI) (rule more.hyps(1), rule p(1), rule p(2), rule False, rule more.prems(1),
        rule cmd_reach.start)
  qed
qed simp

end
