(* ===== verification/Pgp_Session.thy ===== *)
theory Pgp_Session
  imports Pgp_Applet Command_Runs
begin

text \<open>
  Sequences of commands to the OpenPGP applet: a step relation, the states reachable by commands of
  a given kind, and what such sequences can never do. The properties of the applet as a whole are at
  the end.
\<close>

section \<open>Steps\<close>

text \<open>The states the applet reaches by commands that \<open>C\<close> allows; a command that panics has no step.\<close>

abbreviation reachable ::
  "('k env \<Rightarrow> openpgp_applet \<Rightarrow> apdu \<Rightarrow> bool) \<Rightarrow> openpgp_applet \<Rightarrow> openpgp_applet \<Rightarrow> bool" where
  "reachable \<equiv> cmd_reach pgp_process"

lemma reachable_inv: "reachable C a b \<Longrightarrow> pgp_inv a \<Longrightarrow> pgp_inv b"
  by (erule cmd_reach_keeps) (auto dest: pgp_process_inv)

text \<open>A flag is up at the end of a sequence only if it was up, or a VERIFY of it succeeded on the way.\<close>

lemma reachable_flag:
  assumes "reachable C a b" "verified c b" "\<not> verified c a"
  shows "\<exists>X s cmd t r s'. reachable C a s \<and> C X s cmd \<and> pgp_process X s cmd = Some (r, s') \<and>
    ins cmd = INS_VERIFY \<and> verify_pin_type (p2 cmd) = Some t \<and> condition_of t = Some c \<and>
    get_retry_counter t (pgp_pins s) \<noteq> 0 \<and>
    pin_good X t (pgp_pins s) (strip_padding (cmd_data (effective_cmd s cmd))) \<and> reachable C s' b"
proof -
  from cmd_reach_switch [where Q = "verified c", OF assms] obtain X s cmd r s' where
    s: "reachable C a s" "C X s cmd" "pgp_process X s cmd = Some (r, s')"
      "\<not> verified c s" "verified c s'" "reachable C s' b"
    by (elim exE conjE)
  from flags_by_verify [OF s(3,5,4)] obtain t where
    t: "ins cmd = INS_VERIFY" "verify_pin_type (p2 cmd) = Some t" "condition_of t = Some c"
      "get_retry_counter t (pgp_pins s) \<noteq> 0"
      "pin_good X t (pgp_pins s) (strip_padding (cmd_data (effective_cmd s cmd)))"
    by (elim exE conjE)
  show ?thesis
    by (intro exI conjI) (rule s(1), rule s(2), rule s(3), rule t(1), rule t(2), rule t(3), rule t(4),
      rule t(5), rule s(6))
qed

section \<open>An attacker without PW3\<close>

text \<open>
  Any command but ACTIVATE FILE, as long as no VERIFY and no CHANGE REFERENCE DATA presents the
  accepted PW3.
\<close>

definition without_pw3 :: "'k env \<Rightarrow> openpgp_applet \<Rightarrow> apdu \<Rightarrow> bool" where
  "without_pw3 X a cmd \<longleftrightarrow> ins cmd \<noteq> INS_ACTIVATE_FILE \<and>
     (let d = cmd_data (effective_cmd a cmd) in
      (ins cmd = INS_VERIFY \<longrightarrow> verify_pin_type (p2 cmd) = Some PW3 \<longrightarrow>
         \<not> pin_good X PW3 (pgp_pins a) (strip_padding d)) \<and>
      (ins cmd = INS_CHANGE_REFERENCE_DATA \<longrightarrow>
         \<not> pin_good X PW3 (pgp_pins a) (take (unat (pw3_length (pgp_pins a))) d)))"

text \<open>What stays: the administrator flag is down, PW3 and the private keys are as they were.\<close>

definition admin_part :: "openpgp_applet \<Rightarrow> byte list \<times> (key_slot_type \<Rightarrow> byte list)" where
  "admin_part a = (pw3_hash (pgp_pins a), \<lambda>kt. private_key kt a)"

lemma condition_of_inject: "condition_of t = Some c \<Longrightarrow> condition_of u = Some c \<longleftrightarrow> u = t"
  by (cases t; cases u) (auto simp: condition_of_def)

lemma condition_of_PW3: "condition_of t = Some SC_PW3 \<Longrightarrow> t = PW3"
  by (cases t) (simp_all add: condition_of_def)

lemma without_pw3_step:
  assumes "without_pw3 X a cmd" "pgp_process X a cmd = Some (r, b)" "\<not> verified SC_PW3 a"
  shows "\<not> verified SC_PW3 b \<and> admin_part b = admin_part a"
proof -
  have "\<not> verified SC_PW3 b"
    using flags_by_verify [OF assms(2) _ assms(3)] assms(1) condition_of_PW3
    by (auto simp: without_pw3_def Let_def)
  moreover have "private_key kt b = private_key kt a" for kt
    using private_key_change [OF assms(2), of kt] assms(1,3) by (auto simp: without_pw3_def Let_def)
  moreover have "pw3_hash (pgp_pins b) = pw3_hash (pgp_pins a)"
    using pw3_change_needs_pw3 [OF assms(2)] assms(1) by (auto simp: without_pw3_def Let_def)
  ultimately show ?thesis by (simp add: admin_part_def)
qed

lemma without_pw3_reachable:
  "reachable without_pw3 a b \<Longrightarrow> \<not> verified SC_PW3 a \<Longrightarrow> \<not> verified SC_PW3 b \<and> admin_part b = admin_part a"
  by (induction rule: cmd_reach.induct) (auto elim!: cmd_stepE dest: without_pw3_step)

section \<open>A terminated card\<close>

definition not_activate :: "'k env \<Rightarrow> openpgp_applet \<Rightarrow> apdu \<Rightarrow> bool" where
  "not_activate X a cmd \<longleftrightarrow> ins cmd \<noteq> INS_ACTIVATE_FILE"

lemma terminated_reachable:
  assumes "reachable not_activate a b" "terminated (pgp_state a)"
  shows "pgp_state b = pgp_state a \<and> security b = security a"
  using assms
proof (induction rule: cmd_reach.induct)
  case (more b c)
  then have "terminated (pgp_state b)" by simp
  then have "pgp_state c = pgp_state b \<and> security c = security b"
    using more.hyps(2) by (auto elim!: cmd_stepE simp: not_activate_def dest: terminated_card)
  with more show ?case by simp
qed simp

section \<open>Properties\<close>

text \<open>
  C9: in any sequence of commands a PIN is only verified if a VERIFY with the accepted PIN, while
  tries were left, was executed on the way.
\<close>

theorem verified_only_after_verify:
  assumes "reachable C a b" "verified c b" "\<not> verified c a"
  shows "\<exists>X s cmd t r s'. reachable C a s \<and> C X s cmd \<and> pgp_process X s cmd = Some (r, s') \<and>
    ins cmd = INS_VERIFY \<and> verify_pin_type (p2 cmd) = Some t \<and> condition_of t = Some c \<and>
    get_retry_counter t (pgp_pins s) \<noteq> 0 \<and>
    pin_good X t (pgp_pins s) (strip_padding (cmd_data (effective_cmd s cmd))) \<and> reachable C s' b"
  by (rule reachable_flag [OF assms])

definition demo_cmd :: "demo_key env \<Rightarrow> openpgp_applet \<Rightarrow> apdu \<Rightarrow> bool" where
  "demo_cmd X a cmd \<longleftrightarrow> X = demo_env"

lemma demo_verify:
  "\<exists>r b. pgp_process demo_env demo_pgp (verify_cmd 0x83 DEFAULT_PW3) = Some (r, b) \<and> verified SC_PW3 b"
proof -
  let ?c = "verify_cmd 0x83 DEFAULT_PW3"
  have "pgp_process demo_env demo_pgp ?c =
      Some (handle_verify demo_env (demo_pgp\<lparr>current_le := None\<rparr>) ?c)"
    by (rule verify_cmd_process) simp_all
  moreover have "verified SC_PW3 (snd (handle_verify demo_env (demo_pgp\<lparr>current_le := None\<rparr>) ?c))"
    by (simp add: handle_verify_def verify_cmd_def verify_pin_type_def verify_pin_alt factory_pin_good
        factory_counter condition_of_def Let_def)
  ultimately show ?thesis by (metis prod.collapse)
qed

theorem verified_only_after_verify_witness:
  "\<exists>b s cmd r s'. reachable demo_cmd demo_pgp b \<and> verified SC_PW3 b \<and>
     reachable demo_cmd demo_pgp s \<and> pgp_process demo_env s cmd = Some (r, s') \<and> ins cmd = INS_VERIFY"
proof -
  obtain r b where b: "pgp_process demo_env demo_pgp (verify_cmd 0x83 DEFAULT_PW3) = Some (r, b)" "verified SC_PW3 b"
    using demo_verify by blast
  have reach: "reachable demo_cmd demo_pgp b"
    by (rule cmd_reach_one [where P = pgp_process, OF _ b(1)]) (simp add: demo_cmd_def)
  have "\<not> verified SC_PW3 demo_pgp" by simp
  from verified_only_after_verify [OF reach b(2) this] reach b(2) show ?thesis
    unfolding demo_cmd_def by fast
qed

text \<open>
  C2: a sequence of commands, other than ACTIVATE FILE, that never presents the accepted PW3 leaves
  PW3 unverified and unchanged and every stored private key as it was, whatever it does otherwise.
\<close>

theorem keys_survive_attacker:
  assumes "reachable without_pw3 a b" "\<not> verified SC_PW3 a"
  shows "\<not> verified SC_PW3 b \<and> pw3_hash (pgp_pins b) = pw3_hash (pgp_pins a) \<and>
    (\<forall>kt. private_key kt b = private_key kt a)"
  using without_pw3_reachable [OF assms] by (simp add: admin_part_def fun_eq_iff)

lemma demo_bad_pin: "\<not> pin_good demo_env PW3 (pgp_pins demo_pgp) (strip_padding [0x31])"
  by (simp add: strip_padding_def pin_good_def pin_fields_def factory_state_def pin_data_default_def
      word_le_nat_alt Let_def)

lemma demo_wrong_pin:
  "\<exists>r b. pgp_process demo_env demo_pgp (verify_cmd 0x83 [0x31]) = Some (r, b)"
  "without_pw3 demo_env demo_pgp (verify_cmd 0x83 [0x31])"
proof -
  show "\<exists>r b. pgp_process demo_env demo_pgp (verify_cmd 0x83 [0x31]) = Some (r, b)"
    by (subst verify_cmd_process) (simp_all add: split_paired_Ex [symmetric])
  show "without_pw3 demo_env demo_pgp (verify_cmd 0x83 [0x31])"
    using demo_bad_pin by (simp add: without_pw3_def verify_cmd_def effective_cmd_def INS_defs)
qed

theorem keys_survive_attacker_witness:
  "\<exists>r b. pgp_process demo_env demo_pgp (verify_cmd 0x83 [0x31]) = Some (r, b) \<and>
     pw3_hash (pgp_pins b) = pw3_hash (pin_data (factory_state demo_env))"
proof -
  obtain r b where b: "pgp_process demo_env demo_pgp (verify_cmd 0x83 [0x31]) = Some (r, b)"
    using demo_wrong_pin(1) by blast
  have "\<not> verified SC_PW3 demo_pgp" by simp
  from keys_survive_attacker [OF cmd_reach_one [of without_pw3 _ _ _ pgp_process, OF demo_wrong_pin(2) b] this] b
  show ?thesis by simp
qed

text \<open>
  C17: from a good state, whatever commands are sent, retry counters stay within their limits, the
  response offset stays inside the response buffer, and GET RESPONSE never panics.
\<close>

theorem runs_keep_invariant:
  assumes "pgp_inv a" "fst (run pgp_next (Some a) cs) = Some b"
  shows "counters_ok (pgp_pins b) \<and> response_ok_inv b \<and>
    (ins cmd = INS_GET_RESPONSE \<longrightarrow> pgp_process X b cmd \<noteq> None)"
proof -
  have "pgp_inv b"
    using pgp.inv_run [of "Some a" cs] assms by simp
  then have "counters_ok (pgp_pins b)" "response_ok_inv b" "response_ok_inv (b\<lparr>current_le := le cmd\<rparr>)"
    by (simp_all add: pgp_inv_def response_ok_inv_def)
  then show ?thesis
    using get_response_total [of "b\<lparr>current_le := le cmd\<rparr>" cmd] by (simp add: pgp_process_def)
qed

lemma demo_inv: "pgp_inv demo_pgp"
  by (simp add: pgp_inv_def response_ok_inv_def chain_inv_def counters_ok_factory)

theorem runs_keep_invariant_witness:
  "counters_ok (pgp_pins demo_pgp) \<and>
   pgp_process demo_env demo_pgp \<lparr>cla = 0, ins = 0xC0, p1 = 0, p2 = 0, cmd_data = [], le = None\<rparr> \<noteq> None"
proof -
  have "fst (run pgp_next (Some demo_pgp) ([] :: (demo_key env \<times> apdu) list)) = Some demo_pgp" by simp
  from runs_keep_invariant [OF demo_inv this,
      of "\<lparr>cla = 0, ins = 0xC0, p1 = 0, p2 = 0, cmd_data = [], le = None\<rparr>" demo_env]
  show ?thesis by (simp add: INS_defs)
qed

text \<open>
  C15: a response longer than the command's Le is delivered completely: its first part is followed by
  GET RESPONSE commands, any of the same Le but 0, whose answers give the rest.
\<close>

theorem large_response_is_delivered:
  assumes "create_response a d = (r, b)" "length d > (case current_le a of Some x \<Rightarrow> unat x | None \<Rightarrow> 256)"
    and "ins cmd = INS_GET_RESPONSE" "le cmd \<noteq> Some 0"
  shows "available_response r \<noteq> None \<and>
    map_option ((@) (resp_data r)) (read_rest (length d) X b cmd) = Some d"
  by (rule response_chain_complete [OF assms])

theorem large_response_is_delivered_witness:
  "let (r, b) = create_response demo_pgp (replicate 600 1);
       cmd = \<lparr>cla = 0, ins = 0xC0, p1 = 0, p2 = 0, cmd_data = [], le = Some 100\<rparr> in
   map_option ((@) (resp_data r)) (read_rest 600 demo_env b cmd) = Some (replicate 600 1)"
  using large_response_is_delivered [OF prod.collapse [symmetric], of demo_pgp "replicate 600 1"
      "\<lparr>cla = 0, ins = 0xC0, p1 = 0, p2 = 0, cmd_data = [], le = Some 100\<rparr>" demo_env]
  by (simp add: INS_defs Let_def split_beta)

text \<open>
  C16: the client's loop of GET RESPONSE commands ends, after exactly as many rounds as what is left of
  the response has parts of the size asked for: one round fewer is not enough.
\<close>

theorem get_response_rounds:
  assumes "ins cmd = INS_GET_RESPONSE" "le cmd \<noteq> Some 0" "response_offset a < length (response_buffer a)"
  shows "read_rest k X a cmd =
    (if (length (response_buffer a) - response_offset a - 1) div (case le cmd of Some l \<Rightarrow> unat l | None \<Rightarrow> 256) < k
     then Some (drop (response_offset a) (response_buffer a)) else None)"
  by (rule read_rest_rounds [OF assms])

theorem get_response_rounds_witness:
  "let a = demo_pgp\<lparr>response_buffer := replicate 600 1, response_offset := 100\<rparr>;
       cmd = \<lparr>cla = 0, ins = 0xC0, p1 = 0, p2 = 0, cmd_data = [], le = Some 100\<rparr> in
   read_rest 5 demo_env a cmd = Some (replicate 500 1) \<and> read_rest 4 demo_env a cmd = None"
  using get_response_rounds [of "\<lparr>cla = 0, ins = 0xC0, p1 = 0, p2 = 0, cmd_data = [], le = Some 100\<rparr>"
      "demo_pgp\<lparr>response_buffer := replicate 600 1, response_offset := 100\<rparr>" _ demo_env]
  by (simp add: INS_defs Let_def)

text \<open>
  C14: a command sent in parts with the chaining bit is processed as the one command with the
  concatenated data.
\<close>

theorem chaining_is_transparent:
  assumes "chaining_ins a = None" "command_buffer a = []"
    and "list_all (chain_part i) cs" "cs \<noteq> []" "i \<noteq> INS_GET_RESPONSE"
    and "ins c = i" "\<not> is_chained c" "concat (map cmd_data cs) \<noteq> []"
  shows "\<exists>b. send_chain X a cs = Some b \<and> pgp_process X b c =
    pgp_process X a (c\<lparr>cla := cla c AND 0xEF, cmd_data := concat (map cmd_data cs) @ cmd_data c\<rparr>)"
  by (rule chained_equals_single [OF assms])

theorem chaining_is_transparent_witness:
  "\<exists>b. send_chain demo_env demo_pgp [\<lparr>cla = 0x10, ins = 0xDA, p1 = 0, p2 = 0x5B, cmd_data = [1, 2], le = None\<rparr>] = Some b \<and>
     pgp_process demo_env b \<lparr>cla = 0, ins = 0xDA, p1 = 0, p2 = 0x5B, cmd_data = [3], le = None\<rparr> =
     pgp_process demo_env demo_pgp \<lparr>cla = 0, ins = 0xDA, p1 = 0, p2 = 0x5B, cmd_data = [1, 2, 3], le = None\<rparr>"
  using chaining_is_transparent [of demo_pgp "0xDA"
      "[\<lparr>cla = 0x10, ins = 0xDA, p1 = 0, p2 = 0x5B, cmd_data = [1, 2], le = None\<rparr>]"
      "\<lparr>cla = 0, ins = 0xDA, p1 = 0, p2 = 0x5B, cmd_data = [3], le = None\<rparr>" demo_env]
  by (simp add: chain_part_def is_chained_def INS_defs)

text \<open>A PIN without tries in any run of commands that keep it blocked; PW1 has two references.\<close>

definition same_pin :: "pin_type \<Rightarrow> pin_type \<Rightarrow> bool" where
  "same_pin t u \<longleftrightarrow> t \<noteq> RC \<and> u \<noteq> RC \<and> (t = PW3 \<longleftrightarrow> u = PW3)"

lemma same_pin_counter: "same_pin t u \<Longrightarrow> get_retry_counter u d = get_retry_counter t d"
  by (cases t; cases u) (simp_all add: same_pin_def get_retry_counter_def)

lemma blocked_run:
  assumes run: "reachable (keeps_blocked t) b c" and zero: "get_retry_counter t (pgp_pins b) = 0"
  shows "t \<noteq> RC \<Longrightarrow> get_retry_counter t (pgp_pins c) = 0"
    "same_pin t u \<Longrightarrow> condition_of u = Some f \<Longrightarrow> verified f c \<Longrightarrow> verified f b"
proof -
  let ?I = "\<lambda>s. get_retry_counter t (pgp_pins s) = 0"
  show counter: "?I c" if t: "t \<noteq> RC"
    using run zero by (rule cmd_reach_keeps) (rule blocked_pin_step [OF _ _ t])
  assume u: "same_pin t u" "condition_of u = Some f"
  then have t: "t \<noteq> RC" by (simp add: same_pin_def)
  have "?I s' \<and> (verified f s' \<longrightarrow> verified f b)"
    if "?I s \<and> (verified f s \<longrightarrow> verified f b)" "keeps_blocked t Y s cmd" "pgp_process Y s cmd = Some (r, s')" for Y s cmd r s'
  proof -
    have "verified f s" if "verified f s'"
      using flags_by_verify [OF \<open>pgp_process Y s cmd = Some (r, s')\<close> that] \<open>?I s \<and> _\<close> u
      by (auto simp: condition_of_inject same_pin_counter)
    with that blocked_pin_step [OF that(3,2) t] show ?thesis by blast
  qed
  then have "?I c \<and> (verified f c \<longrightarrow> verified f b)"
    using zero by (intro cmd_reach_keeps [OF run, where I = "\<lambda>s. ?I s \<and> (verified f s \<longrightarrow> verified f b)"]) simp_all
  then show "verified f c \<Longrightarrow> verified f b" by simp
qed

text \<open>
  C10: after as many wrong PINs as tries are left, presented with VERIFY, the counter of the PIN is 0
  and stays 0 in every sequence of commands, whatever they are and present, that has no ACTIVATE FILE
  and, when the PIN is PW1, no RESET RETRY COUNTER that is sent with PW3 verified or with the accepted
  resetting code (\<open>keeps_blocked\<close>); all along every VERIFY of the PIN, under either of the two
  references of PW1, is refused, with the right PIN too, and no flag of the PIN is raised.
\<close>

theorem exhausted_pin_stays_blocked:
  fixes X :: "'k env"
  assumes "verify_pin_type ref = Some t" "command_buffer a = []" "\<not> terminated (pgp_state a)"
    and "[] \<notin> set ps" "list_all (\<lambda>p. \<not> pin_good X t (pgp_pins a) (strip_padding p)) ps"
    and "unat (get_retry_counter t (pgp_pins a)) \<le> length ps"
  shows "\<exists>b. try_pins X ref a ps = Some b \<and>
    (\<forall>c. reachable (keeps_blocked t :: 'k env \<Rightarrow> _) b c \<longrightarrow>
       get_retry_counter t (pgp_pins c) = 0 \<and>
       (\<forall>(Y :: 'k env) cmd r d u. pgp_process Y c cmd = Some (r, d) \<and> ins cmd = INS_VERIFY \<and> \<not> is_chained cmd \<and>
          verify_pin_type (p2 cmd) = Some u \<and> same_pin t u \<longrightarrow> resp_sw r \<noteq> SW_SUCCESS) \<and>
       (\<forall>u f. same_pin t u \<and> condition_of u = Some f \<and> verified f c \<longrightarrow> verified f b))"
proof -
  obtain b where b: "try_pins X ref a ps = Some b" "get_retry_counter t (pgp_pins b) = 0"
    using tries_used_up [OF assms] by blast
  have t: "t \<noteq> RC" using assms(1) by (auto simp: verify_pin_type_def split: if_splits)
  note run = blocked_run [of t b, OF _ b(2)]
  have refused: "resp_sw r \<noteq> SW_SUCCESS"
    if "reachable (keeps_blocked t :: 'k env \<Rightarrow> _) b c" "pgp_process Y c cmd = Some (r, d)" "ins cmd = INS_VERIFY"
      "\<not> is_chained cmd" "verify_pin_type (p2 cmd) = Some u" "same_pin t u" for Y :: "'k env" and c cmd r d u
    using blocked_verify_refused [OF that(2-5)] run(1) [OF that(1) t] same_pin_counter [OF that(6)] by simp
  show ?thesis
    by (intro exI [of _ b] conjI allI impI b(1)) (use run t refused in blast)+
qed

theorem exhausted_pin_stays_blocked_witness:
  "\<exists>b c r d. try_pins demo_env 0x83 demo_pgp (replicate 3 [0x31]) = Some b \<and>
    try_pins demo_env 0x82 b [DEFAULT_PW1] = Some c \<and>
    pgp_process demo_env c (verify_cmd 0x83 DEFAULT_PW3) = Some (r, d) \<and> resp_sw r \<noteq> SW_SUCCESS"
proof -
  let ?v = "verify_cmd 0x83 DEFAULT_PW3" and ?w = "verify_cmd 0x82 DEFAULT_PW1"
  have ref: "verify_pin_type 0x83 = Some PW3" "verify_pin_type 0x82 = Some PW1_82" by (simp_all add: verify_pin_type_def)
  have wrong: "list_all (\<lambda>p. \<not> pin_good demo_env PW3 (pgp_pins demo_pgp) (strip_padding p)) (replicate 3 [0x31])"
    "unat (get_retry_counter PW3 (pgp_pins demo_pgp)) \<le> length (replicate 3 [0x31 :: byte])"
    "[] \<notin> set (replicate 3 [0x31 :: byte])"
    using demo_bad_pin by (simp_all add: numeral_eq_Suc factory_counter)
  have idle: "command_buffer demo_pgp = []" "\<not> terminated (pgp_state demo_pgp)" by simp_all
  obtain b where b: "try_pins demo_env 0x83 demo_pgp (replicate 3 [0x31]) = Some b" "command_buffer b = []"
    "\<not> terminated (pgp_state b)"
    using try_pins_guard [OF ref(1) wrong(3) idle, of demo_env] by blast
  obtain c where c: "try_pins demo_env 0x82 b [DEFAULT_PW1] = Some c" "command_buffer c = []"
    "\<not> terminated (pgp_state c)"
    using try_pins_guard [OF ref(2) _ b(2,3), of "[DEFAULT_PW1]" demo_env] by (auto simp: DEFAULT_PW1_def)
  then obtain s where s: "pgp_process demo_env b ?w = Some (s, c)" by (auto split: option.splits)
  obtain r d where r: "pgp_process demo_env c ?v = Some (r, d)"
    using verify_cmd_process [OF c(2,3), of demo_env] by (auto intro: prod.exhaust)
  have run: "reachable (keeps_blocked PW3 :: demo_key env \<Rightarrow> _) b c"
    by (rule cmd_reach_one [where P = pgp_process, OF _ s]) (simp add: keeps_blocked_def verify_cmd_def INS_defs)
  have v: "ins ?v = INS_VERIFY" "\<not> is_chained ?v" "verify_pin_type (p2 ?v) = Some PW3" "same_pin PW3 PW3"
    by (simp_all add: verify_cmd_def is_chained_def ref same_pin_def)
  from exhausted_pin_stays_blocked [OF ref(1) idle wrong(3,1,2)] b(1) run r v
  have "resp_sw r \<noteq> SW_SUCCESS" by fastforce
  with b(1) c(1) r show ?thesis by blast
qed

text \<open>
  C30: the card is only terminated by TERMINATE DF, with PW3 verified or with PW1 and PW3 both
  blocked.
\<close>

theorem termination_is_authorised:
  assumes "pgp_process X a cmd = Some (r, b)" "terminated (pgp_state b)" "\<not> terminated (pgp_state a)"
  shows "ins cmd = INS_TERMINATE_DF \<and> (verified SC_PW3 a \<or>
    pw1_retry_counter (pgp_pins a) = 0 \<and> pw3_retry_counter (pgp_pins a) = 0)"
  by (rule terminated_by [OF assms])

abbreviation terminate_cmd :: apdu where
  "terminate_cmd \<equiv> \<lparr>cla = 0, ins = 0xE6, p1 = 0, p2 = 0, cmd_data = [], le = None\<rparr>"

lemma demo_terminate:
  "\<exists>r b. pgp_process demo_env demo_admin terminate_cmd = Some (r, b) \<and> terminated (pgp_state b)"
  by (simp add: pgp_process_def is_chained_def INS_defs pgp_route_def effective_cmd_def unchain_def
      handle_terminate_def Let_def)

theorem termination_is_authorised_witness:
  "\<exists>r b. pgp_process demo_env demo_admin terminate_cmd = Some (r, b) \<and> terminated (pgp_state b) \<and>
    (verified SC_PW3 demo_admin \<or> pw1_retry_counter (pgp_pins demo_admin) = 0)"
proof -
  obtain r b where b: "pgp_process demo_env demo_admin terminate_cmd = Some (r, b)" "terminated (pgp_state b)"
    using demo_terminate by blast
  have "\<not> terminated (pgp_state demo_admin)" by simp
  from termination_is_authorised [OF b this] b show ?thesis by blast
qed

text \<open>
  Once terminated, the card state and the verification flags stay as they are under every
  sequence of commands without ACTIVATE FILE.
\<close>

theorem terminated_card_is_frozen:
  assumes "reachable not_activate a b" "terminated (pgp_state a)"
  shows "pgp_state b = pgp_state a \<and> security b = security a"
  by (rule terminated_reachable [OF assms])

theorem terminated_card_is_frozen_witness:
  "\<exists>a r b. terminated (pgp_state a) \<and> pgp_process demo_env a (verify_cmd 0x83 DEFAULT_PW3) = Some (r, b) \<and>
     pgp_state b = pgp_state a"
proof -
  obtain r a where a: "terminated (pgp_state a)" "command_buffer a = []"
    using demo_terminate that [of "put_state ((factory_state demo_env)\<lparr>terminated := True\<rparr>) demo_pgp"] by auto
  obtain b where b: "pgp_process demo_env a (verify_cmd 0x83 DEFAULT_PW3) = Some (response_error SW_CONDITIONS_NOT_SATISFIED, b)"
    using terminated_answer [OF a, of "verify_cmd 0x83 DEFAULT_PW3" demo_env]
    by (auto simp: verify_cmd_def is_chained_def INS_defs)
  have "not_activate demo_env a (verify_cmd 0x83 DEFAULT_PW3)"
    by (simp add: not_activate_def verify_cmd_def INS_defs)
  from terminated_card_is_frozen [OF cmd_reach_one [of not_activate _ _ _ pgp_process, OF this b] a(1)] a b show ?thesis by blast
qed

text \<open>
  ACTIVATE FILE replaces the card state by the factory state, whether or not the card is
  terminated, and needs no PIN.
\<close>

theorem activate_file_needs_no_pin:
  assumes "ins cmd = INS_ACTIVATE_FILE" "\<not> is_chained cmd" "command_buffer a = []"
  shows "\<exists>b. pgp_process X a cmd = Some (response_ok, b) \<and> pgp_state b = factory_state X \<and>
    (\<forall>c. \<not> verified c b)"
  by (rule activate_resets [OF assms])

theorem activate_file_needs_no_pin_witness:
  "\<exists>b. pgp_process demo_env demo_admin \<lparr>cla = 0, ins = 0x44, p1 = 0, p2 = 0, cmd_data = [], le = None\<rparr> =
     Some (response_ok, b) \<and> pgp_state b = factory_state demo_env"
  using activate_file_needs_no_pin [of "\<lparr>cla = 0, ins = 0x44, p1 = 0, p2 = 0, cmd_data = [], le = None\<rparr>"
      demo_admin demo_env]
  by (auto simp: INS_defs is_chained_def)

end
