(* ===== verification/Rsa_Math.thy ===== *)
theory Rsa_Math
  imports Complex_Main
begin

text \<open>
  Why RSA works: Fermat's little theorem by the binomial theorem, the inverse exponents that follow
  modulo a product of two primes, and Proth's criterion, by which the witnesses know primes that are
  large enough to sign with.
\<close>

section \<open>Primes\<close>

definition is_prime :: "nat \<Rightarrow> bool" where
  "is_prime p \<longleftrightarrow> 1 < p \<and> (\<forall>m. m dvd p \<longrightarrow> m = 1 \<or> m = p)"

lemma is_prime_gt: "is_prime p \<Longrightarrow> 1 < p"
  by (simp add: is_prime_def)

lemma is_prime_coprime: "is_prime p \<Longrightarrow> \<not> p dvd a \<Longrightarrow> coprime p a"
  unfolding is_prime_def coprime_iff_gcd_eq_1 by (metis gcd_dvd1 gcd_dvd2)

lemma distinct_primes_coprime: "is_prime p \<Longrightarrow> is_prime q \<Longrightarrow> p \<noteq> q \<Longrightarrow> coprime p q"
  by (rule is_prime_coprime) (auto simp: is_prime_def)

text \<open>Every number above 1 has a prime factor, a composite one a small one.\<close>

lemma prime_factor: "1 < n \<Longrightarrow> \<exists>q. is_prime q \<and> q dvd n"
proof (induction n rule: less_induct)
  case (less n)
  show ?case
  proof (cases "is_prime n")
    case False
    then obtain m where "m dvd n" "m \<noteq> 1" "m \<noteq> n" using less.prems by (auto simp: is_prime_def)
    moreover have "m \<le> n" "m \<noteq> 0" using \<open>m dvd n\<close> less.prems by (auto intro!: dvd_imp_le Nat.gr0I)
    ultimately have "m < n" "1 < m" by auto
    then show ?thesis using less.IH [of m] \<open>m dvd n\<close> by (auto intro: dvd_trans)
  qed auto
qed

lemma small_prime_factor:
  assumes "1 < n" "\<not> is_prime n"
  shows "\<exists>q. is_prime q \<and> q dvd n \<and> q * q \<le> n"
proof -
  obtain m where m: "m dvd n" "m \<noteq> 1" "m \<noteq> n" using assms by (auto simp: is_prime_def)
  then obtain k where k: "n = m * k" by (auto elim: dvdE)
  define s where "s = min m k"
  have "m \<noteq> 0" "k \<noteq> 1" using m k assms(1) by auto
  moreover have "k \<noteq> 0" using k assms(1) by (cases k) auto
  ultimately have "1 < m" "1 < k" using m(2) by linarith+
  then have "1 < s" by (simp add: s_def)
  have "s dvd n" by (simp add: s_def k min_def)
  have "s * s \<le> n" unfolding k s_def by (intro mult_mono) simp_all
  obtain q where q: "is_prime q" "q dvd s" using prime_factor [OF \<open>1 < s\<close>] by blast
  have "q \<le> s" using q(2) \<open>1 < s\<close> by (auto intro: dvd_imp_le)
  then have "q * q \<le> s * s" by (intro mult_mono) simp_all
  then show ?thesis using q \<open>s dvd n\<close> \<open>s * s \<le> n\<close> by (meson dvd_trans le_trans)
qed

section \<open>Fermat's little theorem\<close>

lemma prime_dvd_binomial:
  assumes "is_prime p" "0 < k" "k < p"
  shows "p dvd (p choose k)"
proof -
  have "k * (p choose k) = p * ((p - 1) choose (k - 1))" by (rule times_binomial_minus1_eq [OF assms(2)])
  then have "p dvd k * (p choose k)" by simp
  moreover have "coprime p k" using assms by (intro is_prime_coprime) (auto dest: dvd_imp_le)
  ultimately show ?thesis by (simp add: coprime_dvd_mult_right_iff)
qed

lemma fermat: "is_prime p \<Longrightarrow> (a ^ p) mod p = a mod p"
proof (induction a)
  case 0
  then have "1 < p" by (rule is_prime_gt)
  then show ?case by (simp add: power_0_left)
next
  case (Suc a)
  let ?t = "\<lambda>k. of_nat (p choose k) * a ^ k * 1 ^ (p - k) :: nat"
  have p: "1 < p" using Suc.prems by (rule is_prime_gt)
  have "Suc a ^ p = (a + 1) ^ p" by simp
  also have "\<dots> = (\<Sum>k\<le>p. ?t k)" by (rule binomial_ring)
  also have "{..p} = insert 0 (insert p {1..<p})" using p by auto
  also have "(\<Sum>k\<in>insert 0 (insert p {1..<p}). ?t k) = 1 + (a ^ p + (\<Sum>k\<in>{1..<p}. ?t k))"
    using p by simp
  finally have "Suc a ^ p = 1 + (a ^ p + (\<Sum>k\<in>{1..<p}. ?t k))" .
  moreover have "p dvd (\<Sum>k\<in>{1..<p}. ?t k)"
    using prime_dvd_binomial [OF Suc.prems] by (intro dvd_sum) (simp add: dvd_mult2)
  ultimately have "Suc a ^ p mod p = (1 + a ^ p) mod p"
    by (metis (no_types, lifting) add.assoc add.right_neutral dvd_imp_mod_0 mod_add_right_eq)
  also have "\<dots> = Suc a mod p" using Suc.IH [OF Suc.prems] by (metis mod_add_right_eq plus_1_eq_Suc)
  finally show ?case .
qed

lemma fermat_exponent: "is_prime p \<Longrightarrow> (m ^ (1 + t * (p - 1))) mod p = m mod p"
proof (induction t)
  case (Suc t)
  have "m ^ (1 + Suc t * (p - 1)) = m ^ (1 + t * (p - 1)) * m ^ (p - 1)"
    by (simp add: power_add mult.commute mult.left_commute)
  also have "\<dots> mod p = (m * m ^ (p - 1)) mod p" using Suc by (metis mod_mult_left_eq)
  also have "m * m ^ (p - 1) = m ^ p" using is_prime_gt [OF Suc.prems] by (cases p) auto
  finally show ?case by (simp add: fermat [OF Suc.prems])
qed simp

lemma fermat_unit: "is_prime p \<Longrightarrow> \<not> p dvd a \<Longrightarrow> a ^ (p - 1) mod p = 1"
proof -
  assume p: "is_prime p" "\<not> p dvd a"
  then have "1 < p" using is_prime_gt by blast
  have "a * a ^ (p - 1) = a ^ p" using \<open>1 < p\<close> by (cases p) auto
  moreover have "0 < a" using p(2) by (cases a) auto
  ultimately have le: "1 \<le> a ^ (p - 1)" and eq: "a * (a ^ (p - 1) - 1) = a ^ p - a"
    by (simp_all add: right_diff_distrib')
  have "p dvd a ^ p - a"
    using fermat [OF p(1), of a] \<open>0 < a\<close> \<open>1 < p\<close> by (simp add: mod_eq_dvd_iff_nat self_le_power)
  then have "p dvd a ^ (p - 1) - 1"
    using is_prime_coprime [OF p] by (simp add: eq [symmetric] coprime_dvd_mult_right_iff)
  then have "a ^ (p - 1) mod p = 1 mod p" using le mod_eq_dvd_iff_nat by blast
  then show ?thesis using \<open>1 < p\<close> by simp
qed

section \<open>Inverse exponents modulo two primes\<close>

lemma rsa_exponents:
  assumes primes: "is_prime p" "is_prime q" "p \<noteq> q"
    and inv: "(e * d) mod ((p - 1) * (q - 1)) = 1 mod ((p - 1) * (q - 1))"
    and m: "m < p * q"
  shows "((m ^ d) mod (p * q)) ^ e mod (p * q) = m"
proof -
  let ?f = "(p - 1) * (q - 1)"
  have pq: "1 < p" "1 < q" using primes(1,2) is_prime_gt by blast+
  have "1 < ?f"
  proof -
    from pq primes(3) have "2 \<le> p - 1 \<and> 1 \<le> q - 1 \<or> 1 \<le> p - 1 \<and> 2 \<le> q - 1" by linarith
    then have "2 * 1 \<le> ?f \<or> 1 * 2 \<le> ?f" by (blast intro: mult_le_mono)
    then show ?thesis by simp
  qed
  then have ed: "e * d = 1 + (e * d div ?f) * ?f" using inv by (metis add.commute div_mult_mod_eq mod_less)
  have ex: "m ^ (e * d) mod r = m mod r" if "is_prime r" "?f = (r - 1) * s" for r s
  proof -
    have "e * d = 1 + (e * d div ?f * s) * (r - 1)" using ed that(2) by (metis mult.assoc mult.commute)
    then show ?thesis using fermat_exponent [OF that(1)] by metis
  qed
  have "m ^ (e * d) mod (p * q) = m"
  proof (cases "m = 0")
    case True
    have "0 < e * d" using ed by linarith
    then show ?thesis using True by (simp add: power_0_left)
  next
    case False
    have le: "m \<le> m ^ (e * d)" using False ed by (intro self_le_power) linarith+
    have "p dvd m ^ (e * d) - m" "q dvd m ^ (e * d) - m"
      using ex [OF primes(1), of "q - 1"] ex [OF primes(2), of "p - 1"] le
      by (simp_all add: mod_eq_dvd_iff_nat mult.commute)
    then have "p * q dvd m ^ (e * d) - m"
      using distinct_primes_coprime [OF primes] by (rule divides_mult)
    then have "m ^ (e * d) mod (p * q) = m mod (p * q)" using le by (simp add: mod_eq_dvd_iff_nat)
    then show ?thesis using m by simp
  qed
  then show ?thesis by (simp add: power_mod power_mult [symmetric] mult.commute)
qed

section \<open>Proth's criterion\<close>

text \<open>\<open>k\<close> squarings modulo \<open>n\<close>.\<close>

fun squarings :: "nat \<Rightarrow> nat \<Rightarrow> nat \<Rightarrow> nat" where
  "squarings 0 b n = b"
| "squarings (Suc k) b n = squarings k (b * b mod n) n"

lemma squarings_power: "squarings k b n mod n = b ^ 2 ^ k mod n"
proof (induction k arbitrary: b)
  case (Suc k)
  have "squarings (Suc k) b n mod n = (b * b mod n) ^ 2 ^ k mod n" using Suc.IH by simp
  also have "\<dots> = (b * b) ^ 2 ^ k mod n" by (simp add: power_mod)
  also have "\<dots> = b ^ 2 ^ Suc k mod n" by (simp add: power2_eq_square [symmetric] power_mult [symmetric])
  finally show ?case .
qed simp

lemma power_gcd_one:
  fixes b q :: nat
  assumes "b ^ x mod q = 1" "b ^ y mod q = 1" "x \<noteq> 0"
  shows "b ^ gcd x y mod q = 1"
proof -
  obtain u v where uv: "x * u = y * v + gcd x y" using bezout_nat [OF assms(3), of y] by blast
  have one: "b ^ (z * w) mod q = 1" if "b ^ z mod q = 1" for z w
  proof -
    have "1 mod q = (1 :: nat)" using that by (cases "q = 1") auto
    then show ?thesis using that by (metis power_mod power_mult power_one)
  qed
  have "1 = b ^ (y * v) * b ^ gcd x y mod q" using one [OF assms(1), of u] uv by (simp add: power_add)
  also have "\<dots> = b ^ gcd x y mod q" using one [OF assms(2), of v] by (metis mod_mult_left_eq mult_1)
  finally show ?thesis by simp
qed

lemma dvd_two_power: "(d :: nat) dvd 2 ^ Suc k \<Longrightarrow> d = 2 ^ Suc k \<or> d dvd 2 ^ k"
proof (induction k arbitrary: d)
  case 0
  then have "d \<le> 2" by (auto dest: dvd_imp_le)
  moreover have "d \<noteq> 0" using 0 by (intro notI) simp
  ultimately have "d = 1 \<or> d = 2" by arith
  then show ?case by auto
next
  case (Suc k)
  show ?case
  proof (cases "even d")
    case True
    then obtain c where c: "d = 2 * c" by (auto elim: evenE)
    then show ?thesis using Suc.IH [of c] Suc.prems by auto
  next
    case False
    then have "coprime d 2" by simp
    then show ?thesis using Suc.prems by (metis coprime_dvd_mult_right_iff power_Suc)
  qed
qed

lemma proth:
  assumes n: "n = h * 2 ^ Suc k + 1" "h < 2 ^ Suc k" "0 < h"
    and cert: "squarings k (a ^ h mod n) n = n - 1"
  shows "is_prime n"
proof (rule ccontr)
  assume not: "\<not> is_prime n"
  have "1 < n" using n by simp
  from small_prime_factor [OF this not] obtain q where q: "is_prime q" "q dvd n" "q * q \<le> n" by blast
  let ?b = "a ^ h mod n"
  have "odd n" by (simp add: n(1))
  then have "q \<noteq> 2" using q(2) by auto
  with is_prime_gt [OF q(1)] have q2: "2 < q" by linarith
  have pow: "?b ^ 2 ^ k mod n = n - 1" using squarings_power [of k ?b n] cert \<open>1 < n\<close> by simp
  have minus: "?b ^ 2 ^ k mod q = q - 1"
  proof -
    from q(2) obtain c where c: "n = q * c" by (auto elim: dvdE)
    have "0 < c" using c \<open>1 < n\<close> by (cases c) auto
    then have "n - 1 = q * (c - 1) + (q - 1)" using q2 by (simp add: c right_diff_distrib')
    then have "(n - 1) mod q = (q - 1) mod q" by (simp only: mod_mult_self4)
    then have "(n - 1) mod q = q - 1" using q2 by simp
    then show ?thesis using pow q(2) by (metis mod_mod_cancel)
  qed
  have "?b ^ 2 ^ Suc k mod q = (?b ^ 2 ^ k mod q) * (?b ^ 2 ^ k mod q) mod q"
    by (simp add: mod_mult_eq power_add [symmetric] mult_2)
  also have "\<dots> = 1"
  proof -
    have "(q - 1) * (q - 1) = q * (q - 2) + 1" using q2 by (cases q) (auto simp: algebra_simps diff_Suc split: nat.splits)
    then show ?thesis using minus q2 by (simp add: mod_Suc)
  qed
  finally have one: "?b ^ 2 ^ Suc k mod q = 1" .
  have "\<not> q dvd ?b"
  proof
    assume "q dvd ?b"
    then have "q dvd ?b ^ 2 ^ Suc k" by (rule dvd_trans) (simp add: dvd_power)
    then show False using one by simp
  qed
  then have "?b ^ (q - 1) mod q = 1" by (rule fermat_unit [OF q(1)])
  from power_gcd_one [OF one this] have g: "?b ^ gcd (2 ^ Suc k) (q - 1) mod q = 1" by simp
  have "gcd (2 ^ Suc k) (q - 1) = 2 ^ Suc k"
  proof (rule ccontr)
    assume "gcd (2 ^ Suc k) (q - 1) \<noteq> 2 ^ Suc k"
    then have "gcd (2 ^ Suc k) (q - 1) dvd 2 ^ k" using dvd_two_power [of "gcd (2 ^ Suc k) (q - 1)" k] by simp
    then obtain c where c: "2 ^ k = gcd (2 ^ Suc k) (q - 1) * c" by (auto elim: dvdE)
    have "?b ^ 2 ^ k mod q = (?b ^ gcd (2 ^ Suc k) (q - 1) mod q) ^ c mod q"
      unfolding c by (simp only: power_mult power_mod)
    also have "\<dots> = 1" unfolding g using q2 by simp
    finally show False using minus q2 by linarith
  qed
  then have "2 ^ Suc k dvd q - 1" by (metis gcd_dvd2)
  then have "2 ^ Suc k < q" using q2 by (auto dest: dvd_imp_le)
  then have "Suc (2 ^ Suc k) * Suc (2 ^ Suc k) \<le> q * q" by (intro mult_mono) auto
  also have "\<dots> \<le> n" by (rule q(3))
  also have "\<dots> < Suc (2 ^ Suc k) * Suc (2 ^ Suc k)"
  proof -
    have "h * 2 ^ Suc k \<le> 2 ^ Suc k * 2 ^ Suc k" using n(2) by (intro mult_le_mono1) simp
    moreover have "x * x + 1 < Suc x * Suc x" if "0 < x" for x :: nat using that by simp
    ultimately show ?thesis unfolding n(1) by (meson add_le_mono1 le_less_trans zero_less_numeral zero_less_power)
  qed
  finally show False by simp
qed

end
