(* ===== verification/Pgp_Signing.thy ===== *)
theory Pgp_Signing
  imports Pgp_Session Rsa_Math
begin

text \<open>
  What the signatures of the OpenPGP card are worth. A signature with a generated RSA key verifies
  under the public key that was returned when it was generated: through key generation, the stored
  blobs, the decoding with the modular inverse, padding and exponentiation. And a signature is only
  made after a PIN was presented, one for each in single-use mode.
\<close>

section \<open>RSASSA-PKCS1-v1_5\<close>

text \<open>\<open>modpow\<close> is exponentiation; digits have no leading zero, and 0 has one digit.\<close>

definition modpow_laws :: "'k env \<Rightarrow> bool" where
  "modpow_laws X \<longleftrightarrow> (\<forall>b e m. 0 < m \<longrightarrow> big_modpow X b e m = b ^ e mod m)"

definition digits_laws :: "'k env \<Rightarrow> bool" where
  "digits_laws X \<longleftrightarrow> (\<forall>n. n \<noteq> 0 \<longrightarrow> hd (big_to_bytes_be X n) \<noteq> 0) \<and> length (big_to_bytes_be X 0) = 1"

text \<open>The verifier of RFC 8017, 8.2.2, with the encoded message of the digest info.\<close>

definition rsa_verifies :: "byte list \<Rightarrow> byte list \<Rightarrow> byte list \<Rightarrow> byte list \<Rightarrow> bool" where
  "rsa_verifies n e digest_info sig \<longleftrightarrow>
     length sig = length n \<and> be_value sig < be_value n \<and>
     be_value sig ^ be_value e mod be_value n = be_value (pkcs1_pad (length n) digest_info)"

lemma be_value_ge: "bs \<noteq> [] \<Longrightarrow> hd bs \<noteq> 0 \<Longrightarrow> 256 ^ (length bs - 1) \<le> be_value bs"
proof (induction bs rule: rev_induct)
  case (snoc b bs)
  show ?case
  proof (cases "bs = []")
    case True
    then show ?thesis using snoc.prems be_value_snoc [of "[]" b] by (simp add: word_unat_eq_iff Suc_le_eq)
  next
    case False
    then have "256 ^ (length bs - 1) \<le> be_value bs" using snoc by simp
    moreover have "(256 :: nat) ^ length bs = 256 ^ (length bs - 1) * 256"
      using False by (cases bs) simp_all
    ultimately show ?thesis by simp
  qed
qed simp

lemma digits_bounds:
  assumes "big_laws X" "digits_laws X" "n \<noteq> 0"
  shows "256 ^ (length (big_to_bytes_be X n) - 1) \<le> n" "n < 256 ^ length (big_to_bytes_be X n)"
  using assms be_value_ge [of "big_to_bytes_be X n"] be_value_less [of "big_to_bytes_be X n"]
  by (auto simp: big_laws_def digits_laws_def)

lemma digits_shorter:
  assumes "big_laws X" "digits_laws X" "m < n"
  shows "length (big_to_bytes_be X m) \<le> length (big_to_bytes_be X n)"
proof (cases "m = 0")
  case True
  then show ?thesis using assms(1,2) by (simp add: digits_laws_def big_laws_def Suc_le_eq)
next
  case False
  have "256 ^ (length (big_to_bytes_be X m) - 1) \<le> m" using digits_bounds [OF assms(1,2) False] by simp
  also have "m < n" by (rule assms(3))
  also have "n < 256 ^ length (big_to_bytes_be X n)" using digits_bounds [OF assms(1,2), of n] assms(3) by simp
  finally have "length (big_to_bytes_be X m) - 1 < length (big_to_bytes_be X n)" by simp
  then show ?thesis by simp
qed

lemma pkcs1_pad_less:
  assumes "length d + 11 \<le> k"
  shows "be_value (pkcs1_pad k d) < 256 ^ (k - 1)"
proof -
  have "pkcs1_pad k d = 0 # tl (pkcs1_pad k d)" by (simp add: pkcs1_pad_def)
  then have "be_value (pkcs1_pad k d) = be_value (tl (pkcs1_pad k d))" by (metis be_value_Cons_0)
  also have "\<dots> < 256 ^ length (tl (pkcs1_pad k d))" by (rule be_value_less)
  also have "length (tl (pkcs1_pad k d)) = k - 1" using length_pkcs1_pad [OF assms] by simp
  finally show ?thesis .
qed

lemma sign_pkcs1v15_verifies:
  assumes laws: "big_laws X" "modpow_laws X" "digits_laws X"
    and primes: "is_prime p" "is_prime q" "p \<noteq> q"
    and key: "rsa_n X key = p * q" "rsa_size X key = length (big_to_bytes_be X (p * q))"
      "(e * rsa_d X key) mod ((p - 1) * (q - 1)) = 1 mod ((p - 1) * (q - 1))"
    and len: "length d + 11 \<le> length (big_to_bytes_be X (p * q))"
  shows "\<exists>sig. sign_pkcs1v15 X key d = Ok sig \<and>
    rsa_verifies (big_to_bytes_be X (p * q)) (big_to_bytes_be X e) d sig"
proof -
  let ?n = "p * q" and ?b = "big_to_bytes_be X"
  let ?m = "be_value (pkcs1_pad (length (?b ?n)) d)"
  let ?s = "?m ^ rsa_d X key mod ?n"
  have "?n \<noteq> 0" using primes is_prime_gt by fastforce
  then have m: "?m < ?n"
    using pkcs1_pad_less [OF len] digits_bounds(1) [OF laws(1,3), of ?n] by linarith
  have s: "?s < ?n" using \<open>?n \<noteq> 0\<close> by simp
  have big: "be_value (?b k) = k" "big_from_bytes_be X bs = be_value bs" for k bs
    using laws(1) by (simp_all add: big_laws_def)
  have "sign_pkcs1v15 X key d = Ok (pad_left (length (?b ?n)) (?b ?s))"
    using len laws(2) \<open>?n \<noteq> 0\<close> by (simp add: sign_pkcs1v15_def key big modpow_laws_def Let_def)
  moreover have "length (pad_left (length (?b ?n)) (?b ?s)) = length (?b ?n)"
    using digits_shorter [OF laws(1,3) s] by (simp add: pad_left_eq)
  moreover have "?s ^ e mod ?n = ?m" by (rule rsa_exponents [OF primes key(3) m])
  ultimately show ?thesis using s by (simp add: rsa_verifies_def pad_left_value big)
qed

section \<open>Signing with a generated key\<close>

text \<open>
  What \<open>RsaPrivateKey::new\<close> documents of its keys: two different primes, their product, and an
  exponent invertible modulo \<open>(p - 1) * (q - 1)\<close>. \<open>from_components\<close> accepts such a key with any
  such private exponent, and \<open>size\<close> is the length of the modulus in bytes.
\<close>

definition rsa_key_good :: "'k env \<Rightarrow> 'k \<Rightarrow> bool" where
  "rsa_key_good X k \<longleftrightarrow>
     (\<exists>p q. rsa_primes X k = [p, q] \<and> is_prime p \<and> is_prime q \<and> p \<noteq> q \<and> rsa_n X k = p * q \<and>
        gcd (rsa_e X k) ((p - 1) * (q - 1)) = 1)"

definition rsa_accepts :: "'k env \<Rightarrow> 'k env \<Rightarrow> 'k \<Rightarrow> bool" where
  "rsa_accepts Y X k \<longleftrightarrow>
     (\<forall>p q d. rsa_primes X k = [p, q] \<longrightarrow>
        (rsa_e X k * d) mod ((p - 1) * (q - 1)) = 1 mod ((p - 1) * (q - 1)) \<longrightarrow>
        rsa_from_components Y (rsa_n X k) (rsa_e X k) d [p, q] \<noteq> None) \<and>
     (\<forall>k'. rsa_size Y k' = length (big_to_bytes_be Y (rsa_n Y k')))"

definition crate_laws :: "'k env \<Rightarrow> bool" where
  "crate_laws X \<longleftrightarrow> big_laws X \<and> rsa_laws X \<and> modpow_laws X \<and> digits_laws X"

lemma digits_agree:
  assumes "crate_laws X" "crate_laws Y"
  shows "length (big_to_bytes_be X n) = length (big_to_bytes_be Y n)"
proof (cases "n = 0")
  case False
  have "256 ^ (length (big_to_bytes_be X n) - 1) < (256 :: nat) ^ length (big_to_bytes_be Y n)"
    "256 ^ (length (big_to_bytes_be Y n) - 1) < (256 :: nat) ^ length (big_to_bytes_be X n)"
    using digits_bounds [of X n] digits_bounds [of Y n] assms False
    by (meson crate_laws_def le_less_trans)+
  moreover have "big_to_bytes_be X n \<noteq> []" "big_to_bytes_be Y n \<noteq> []"
    using assms by (simp_all add: crate_laws_def big_laws_def)
  ultimately show ?thesis by simp
qed (use assms in \<open>simp add: crate_laws_def digits_laws_def\<close>)

definition generate_cmd :: "key_slot_type \<Rightarrow> apdu" where
  "generate_cmd kt = \<lparr>cla = 0, ins = INS_GENERATE_ASYMMETRIC_KEY_PAIR, p1 = 0x80, p2 = 0,
     cmd_data = [case kt of KT_Sig \<Rightarrow> 0xB6 | KT_Dec \<Rightarrow> 0xB8 | KT_Aut \<Rightarrow> 0xA4, 0x00], le = Some 65536\<rparr>"

abbreviation generate_sig_cmd :: apdu where
  "generate_sig_cmd \<equiv> generate_cmd KT_Sig"

definition sign_cmd :: "byte list \<Rightarrow> apdu" where
  "sign_cmd digest_info = \<lparr>cla = 0, ins = INS_PSO, p1 = 0x9E, p2 = 0x9A, cmd_data = digest_info, le = Some 65536\<rparr>"

lemma plain_cmd_process:
  assumes "command_buffer a = []" "\<not> terminated (pgp_state a)" "ins c \<noteq> INS_GET_RESPONSE" "\<not> is_chained c"
  shows "pgp_process X a c = pgp_route X (a\<lparr>current_le := le c\<rparr>) c"
  using assms by (simp add: pgp_process_def Let_def effective_cmd_def unchain_def)

lemma length_rsa_public_tlv: "length (rsa_public_tlv n e) \<le> length n + length e + 24"
  using length_tlv_encode [of "0x81" n] length_tlv_encode [of "0x82" e]
    length_tlv_encode [of "0x7F49" "tlv_encode 0x81 n @ tlv_encode 0x82 e"]
  by (simp add: rsa_public_tlv_def builder_defs)

lemma create_response_whole:
  "current_le a = Some 65536 \<Longrightarrow> length d \<le> 65536 \<Longrightarrow> create_response a d = (response_success d, a)"
  by (simp add: create_response_def)

text \<open>The slot after generation, and what the stored blobs are decoded to.\<close>

lemma rsa_material:
  assumes "algorithm_id alg = ALG_RSA" "rsa_new X (unat (param1 alg)) = Some k" "rsa_primes X k = [p, q]"
    and "length (big_to_bytes_be X (rsa_n X k)) < 65536" "length (big_to_bytes_be X (rsa_e X k)) < 65536"
  shows "generate_material X alg = Ok
    (lp_enc (big_to_bytes_be X (rsa_e X k)) @ lp_enc (big_to_bytes_be X p) @ lp_enc (big_to_bytes_be X q),
     lp_enc (big_to_bytes_be X (rsa_n X k)) @ lp_enc (big_to_bytes_be X (rsa_e X k)),
     rsa_public_tlv (big_to_bytes_be X (rsa_n X k)) (big_to_bytes_be X (rsa_e X k)))"
  using assms get_modulus_lp [OF assms(4), where r = "[]"] get_exponent_lp [OF assms(4,5), where r = "[]"]
  by (simp add: generate_material_def rsa_generate_keypair_def encode_private_key_def encode_public_key_lp
      lp_enc_def [symmetric] Let_def)

lemma generated_key_loads:
  assumes laws: "crate_laws X" "crate_laws Y" "rsa_accepts Y X k" and key: "rsa_key_good X k" "rsa_primes X k = [p, q]"
    and len: "length (big_to_bytes_be X (rsa_n X k)) < 65536" "length (big_to_bytes_be X (rsa_e X k)) < 65536"
    and slot: "private_key_data slot = lp_enc (big_to_bytes_be X (rsa_e X k)) @
        lp_enc (big_to_bytes_be X p) @ lp_enc (big_to_bytes_be X q)"
      "public_key_data slot = lp_enc (big_to_bytes_be X (rsa_n X k)) @ lp_enc (big_to_bytes_be X (rsa_e X k))"
  shows "\<exists>key. load_rsa_key Y slot = Some (Ok key) \<and> rsa_n Y key = p * q \<and>
    (rsa_e X k * rsa_d Y key) mod ((p - 1) * (q - 1)) = 1 mod ((p - 1) * (q - 1))"
proof -
  let ?b = "big_to_bytes_be X" and ?e = "rsa_e X k" and ?f = "(p - 1) * (q - 1)"
  have pq: "is_prime p" "is_prime q" "rsa_n X k = p * q" "gcd ?e ?f = 1"
    using key by (auto simp: rsa_key_good_def)
  then have pos: "1 < p" "1 < q" using is_prime_gt by blast+
  have less: "p < p * q" "q < p * q" using pos by simp_all
  have short: "length (?b p) < 65536" "length (?b q) < 65536"
    using digits_shorter [of X p "p * q"] digits_shorter [of X q "p * q"] less laws(1) len(1) pq(3)
    by (simp_all add: crate_laws_def)
  have big: "big_from_bytes_be Y (?b m) = m" for m
    using laws by (simp add: crate_laws_def big_laws_def)
  obtain d where d: "mod_inverse ?e ?f = Some (Some d)" "(?e * d) mod ?f = 1 mod ?f"
    using mod_inverse_correct [of ?e ?f] pq(4) by (auto split: option.splits)
  obtain key where comps: "rsa_from_components Y (rsa_n X k) ?e d [p, q] = Some key"
    using laws(3) key(2) d(2) by (auto simp: rsa_accepts_def)
  have "load_rsa_key Y slot = Some (Ok key)"
    using load_rsa_key_stored [OF len(2) short len(1) slot, where X = Y] pos d(1) comps by (simp add: big key_of_parts_def)
  moreover have "rsa_n Y key = p * q \<and> rsa_d Y key = d"
    using laws(2) comps pq(3) by (auto simp: crate_laws_def rsa_laws_def)
  ultimately show ?thesis using d(2) by auto
qed

text \<open>Generation: what the slot holds afterwards.\<close>

lemma generate_run:
  fixes a :: openpgp_applet and kt
  defines "alg \<equiv> algorithm (get_slot kt (pgp_state a))"
  assumes idle: "command_buffer a = []" "\<not> terminated (pgp_state a)" "verified SC_PW3 a"
    and alg: "algorithm_id alg = ALG_RSA" "rsa_new X (unat (param1 alg)) = Some k" "rsa_primes X k = [p, q]"
  defines "n \<equiv> big_to_bytes_be X (rsa_n X k)" and "e \<equiv> big_to_bytes_be X (rsa_e X k)"
  assumes len: "length n + length e \<le> 65000"
  obtains b slot where "pgp_process X a (generate_cmd kt) = Some (response_success (rsa_public_tlv n e), b)"
    "get_slot kt (pgp_state b) = slot" "algorithm slot = alg"
    "private_key_data slot = lp_enc e @ lp_enc (big_to_bytes_be X p) @ lp_enc (big_to_bytes_be X q)"
    "public_key_data slot = lp_enc n @ lp_enc e"
    "has_key slot \<longleftrightarrow> \<not> list_all (\<lambda>x. x = 0) (calculate_fingerprint_rsa X n e (current_timestamp X))"
    "\<not> terminated (pgp_state b)" "command_buffer b = []" "security b = security a"
proof -
  have short: "length n < 65536" "length e < 65536" using len by simp_all
  let ?a = "a\<lparr>current_le := Some 65536\<rparr>" and ?slot = "get_slot kt (pgp_state a)"
  let ?priv = "lp_enc e @ lp_enc (big_to_bytes_be X p) @ lp_enc (big_to_bytes_be X q)" and ?pub = "lp_enc n @ lp_enc e"
  define slot where "slot = ?slot\<lparr>private_key_data := ?priv, public_key_data := ?pub,
      generation_time := current_timestamp X, fingerprint := slot_fingerprint X alg ?pub (current_timestamp X)\<rparr>"
  define b where "b = pgp_save X (put_pgp_slot kt slot ?a)"
  have "pgp_process X a (generate_cmd kt) = Some (handle_generate_key X ?a (generate_cmd kt))"
    using idle by (simp add: plain_cmd_process generate_cmd_def INS_defs is_chained_def pgp_route_def)
  also have "handle_generate_key X ?a (generate_cmd kt) = create_response b (rsa_public_tlv n e)"
    using idle(3) rsa_material [OF alg] short
    by (simp add: generate_effect [where kt = kt] generate_cmd_def generate_slot_type_def
        b_def slot_def n_def e_def alg_def split: key_slot_type.split)
  also have "\<dots> = (response_success (rsa_public_tlv n e), b)"
    using length_rsa_public_tlv [of n e] len by (intro create_response_whole) (simp_all add: b_def)
  finally have gen: "pgp_process X a (generate_cmd kt) = Some (response_success (rsa_public_tlv n e), b)" .
  have "has_key slot \<longleftrightarrow> \<not> list_all (\<lambda>x. x = 0) (calculate_fingerprint_rsa X n e (current_timestamp X))"
    using alg(1) get_modulus_lp [of n e "[]"] get_exponent_lp [of n e "[]"] short
    by (simp add: has_key_def slot_def slot_fingerprint_def)
  then show thesis
    by (intro that [of b slot]) (use gen idle in \<open>simp_all add: b_def slot_def alg_def\<close>)
qed

lemma generated_key_signs:
  assumes idle: "command_buffer a = []" "\<not> terminated (pgp_state a)"
    and rights: "verified SC_PW3 a" "verified SC_PW1_81 a"
    and alg: "algorithm_id (algorithm (key_sig (pgp_state a))) = ALG_RSA"
      "rsa_new X (unat (param1 (algorithm (key_sig (pgp_state a))))) = Some k"
    and laws: "crate_laws X" "crate_laws Y" "rsa_key_good X k" "rsa_accepts Y X k"
  defines "n \<equiv> big_to_bytes_be X (rsa_n X k)" and "e \<equiv> big_to_bytes_be X (rsa_e X k)"
  assumes len: "length n + length e \<le> 65000" "length d + 11 \<le> length n"
    and known: "\<not> list_all (\<lambda>x. x = 0) (calculate_fingerprint_rsa X n e (current_timestamp X))"
  shows "\<exists>b c sig. pgp_process X a generate_sig_cmd = Some (response_success (rsa_public_tlv n e), b) \<and>
    pgp_process Y b (sign_cmd d) = Some (response_success sig, c) \<and> rsa_verifies n e d sig"
proof -
  obtain p q where pq: "rsa_primes X k = [p, q]" "is_prime p" "is_prime q" "p \<noteq> q" "rsa_n X k = p * q"
    using laws(3) by (auto simp: rsa_key_good_def)
  have alg': "algorithm_id (algorithm (get_slot KT_Sig (pgp_state a))) = ALG_RSA"
    "rsa_new X (unat (param1 (algorithm (get_slot KT_Sig (pgp_state a))))) = Some k"
    using alg by (simp_all add: get_slot_def)
  obtain b slot where b: "pgp_process X a generate_sig_cmd = Some (response_success (rsa_public_tlv n e), b)"
    "key_sig (pgp_state b) = slot" "algorithm slot = algorithm (key_sig (pgp_state a))"
    "private_key_data slot = lp_enc e @ lp_enc (big_to_bytes_be X p) @ lp_enc (big_to_bytes_be X q)"
    "public_key_data slot = lp_enc n @ lp_enc e" "has_key slot"
    "\<not> terminated (pgp_state b)" "command_buffer b = []" "security b = security a"
    using generate_run [OF idle rights(1) alg' pq(1)] len(1) known
    unfolding n_def e_def get_slot_def key_slot_type.case by blast
  obtain key where key: "load_rsa_key Y slot = Some (Ok key)" "rsa_n Y key = p * q"
    "(rsa_e X k * rsa_d Y key) mod ((p - 1) * (q - 1)) = 1 mod ((p - 1) * (q - 1))"
    using generated_key_loads [OF laws(1,2,4,3) pq(1), of slot] b(4,5) len(1) by (auto simp: n_def e_def)
  have same: "length (big_to_bytes_be Y (p * q)) = length n"
    using digits_agree [OF laws(1,2), of "p * q"] by (simp add: n_def pq(5))
  have size: "rsa_size Y key = length (big_to_bytes_be Y (p * q))"
    using laws(4) key(2) by (simp add: rsa_accepts_def)
  obtain sig where sig: "sign_pkcs1v15 Y key d = Ok sig"
    "rsa_verifies (big_to_bytes_be Y (p * q)) (big_to_bytes_be Y (rsa_e X k)) d sig"
    using sign_pkcs1v15_verifies [OF _ _ _ pq(2-4) key(2) size key(3), of d] laws(2) len(2) same
    by (auto simp: crate_laws_def)
  have val: "be_value (big_to_bytes_be A m) = m" if "crate_laws A" for A :: "'a env" and m
    using that by (simp add: crate_laws_def big_laws_def)
  have ver: "rsa_verifies n e d sig"
    using sig(2) same by (simp add: rsa_verifies_def val [OF laws(1)] val [OF laws(2)] n_def e_def pq(5))
  have "slot_sign Y (sign_pkcs1v15 Y) slot d = Some (Ok sig)"
    using key(1) sig(1) alg(1) b(3) by (simp add: slot_sign_def or_exec_error_def)
  moreover have "length sig \<le> 65536" using ver len(1) by (simp add: rsa_verifies_def)
  ultimately have "\<exists>c. handle_pso_sign Y (b\<lparr>current_le := Some 65536\<rparr>) (sign_cmd d) = Some (response_success sig, c)"
    using b rights(2) by (simp add: handle_pso_sign_def Let_def create_response_whole sign_cmd_def)
  then obtain c where "pgp_process Y b (sign_cmd d) = Some (response_success sig, c)"
    using b by (auto simp: plain_cmd_process sign_cmd_def INS_defs is_chained_def pgp_route_def handle_pso_def
        p1p2_def PSO_CDS_def)
  with b(1) ver show ?thesis by blast
qed

section \<open>INTERNAL AUTHENTICATE\<close>

text \<open>
  \<open>raw_sign\<close> exponentiates what it is given. Its result is padded to an eighth of the length of the
  modulus: \<open>size\<close> is in bytes already, and \<open>div_ceil(8)\<close> takes it for bits.
\<close>

lemma raw_sign_value:
  assumes laws: "crate_laws X" and key: "rsa_n X key \<noteq> 0"
  shows "\<exists>sig. raw_sign X key d = Ok sig \<and> be_value sig = be_value d ^ rsa_d X key mod rsa_n X key"
  using assms by (simp add: raw_sign_def crate_laws_def big_laws_def modpow_laws_def pad_left_value Let_def)

lemma raw_signature_length:
  assumes "crate_laws X" "rsa_n X key \<noteq> 0" "raw_sign X key d = Ok sig" "be_value sig < 256 ^ k"
    and "(rsa_size X key + 7) div 8 \<le> k" "0 < k"
  shows "length sig \<le> k"
proof -
  let ?s = "be_value d ^ rsa_d X key mod rsa_n X key"
  have sig: "sig = pad_left ((rsa_size X key + 7) div 8) (big_to_bytes_be X ?s)" "be_value sig = ?s"
    using assms(1-3) raw_sign_value [OF assms(1,2), of d]
    by (auto simp: raw_sign_def crate_laws_def big_laws_def modpow_laws_def Let_def)
  have "length (big_to_bytes_be X ?s) \<le> k"
  proof (cases "?s = 0")
    case True
    then show ?thesis using assms(1,6) by (simp add: crate_laws_def digits_laws_def)
  next
    case False
    have "256 ^ (length (big_to_bytes_be X ?s) - 1) \<le> ?s"
      using digits_bounds(1) [where X = X, OF _ _ False] assms(1) by (simp add: crate_laws_def)
    also have "\<dots> < 256 ^ k" using assms(4) sig(2) by simp
    finally show ?thesis by simp
  qed
  then show ?thesis using sig(1) assms(5) by (simp add: pad_left_eq)
qed

text \<open>A digest info is never what its padding is.\<close>

lemma pkcs1_pad_greater:
  assumes "length d + 11 \<le> k"
  shows "be_value d < be_value (pkcs1_pad k d)"
proof -
  have split: "pkcs1_pad k d = ([0x00, 0x01] @ replicate (k - length d - 3) 0xFF @ [0x00]) @ d"
    by (simp add: pkcs1_pad_def)
  have "be_value ([0x00, 0x01] @ replicate (k - length d - 3) 0xFF @ [0x00]) \<noteq> 0"
  proof -
    have "be_value [0x00, 0x01 :: byte] = 1" using be_value_snoc [of "[0x00]" 1] be_value_Cons_0 [of "[]"] by simp
    then show ?thesis by (subst be_value_append) simp
  qed
  then have "256 ^ length d \<le> be_value ([0x00, 0x01] @ replicate (k - length d - 3) 0xFF @ [0x00]) * 256 ^ length d"
    by simp
  then show ?thesis
    using be_value_less [of d] unfolding split
    by (subst be_value_append [of "[0x00, 0x01] @ replicate (k - length d - 3) 0xFF @ [0x00]" d]) linarith
qed

lemma raw_signature_unpadded:
  assumes laws: "crate_laws X" and primes: "is_prime p" "is_prime q" "p \<noteq> q"
    and key: "rsa_n X key = p * q" "(e * rsa_d X key) mod ((p - 1) * (q - 1)) = 1 mod ((p - 1) * (q - 1))"
    and len: "length d + 11 \<le> length n" "be_value n = p * q" "be_value e' = e" "hd n \<noteq> 0"
    and sig: "raw_sign X key d = Ok sig"
  shows "be_value sig ^ e mod (p * q) = be_value d \<and> \<not> rsa_verifies n e' d sig"
proof -
  have "n \<noteq> []" using len(1) by auto
  have "p * q \<noteq> 0" using primes is_prime_gt by fastforce
  have "be_value d < be_value (pkcs1_pad (length n) d)" by (rule pkcs1_pad_greater [OF len(1)])
  also have "\<dots> < 256 ^ (length n - 1)" by (rule pkcs1_pad_less [OF len(1)])
  also have "\<dots> \<le> p * q" using be_value_ge [OF \<open>n \<noteq> []\<close> len(4)] len(2) by simp
  finally have m: "be_value d < p * q" .
  have "be_value sig = be_value d ^ rsa_d X key mod (p * q)"
    using raw_sign_value [OF laws, of key d] sig key(1) \<open>p * q \<noteq> 0\<close> by auto
  then have eq: "be_value sig ^ e mod (p * q) = be_value d" using rsa_exponents [OF primes key(2) m] by simp
  with pkcs1_pad_greater [OF len(1)] show ?thesis by (auto simp: rsa_verifies_def len(2,3))
qed

lemma create_response_success:
  assumes "create_response a d = (response_success s, b)"
  shows "d = s"
proof -
  have "response_more_data c n \<noteq> response_success s" for c n
    using more_data_available [of c n] success_not_available [of s] by auto
  moreover have "response_success d = response_success s \<longleftrightarrow> d = s"
    by (simp add: response_success_def response_new_def)
  ultimately show ?thesis using assms by (simp add: create_response_def Let_def split: if_splits)
qed

section \<open>One PIN for one signature\<close>

definition is_sign_cmd :: "apdu \<Rightarrow> bool" where
  "is_sign_cmd cmd \<longleftrightarrow> ins cmd = INS_PSO \<and> p1p2 cmd = PSO_CDS \<and> \<not> is_chained cmd"

lemma sign_cmd_routed:
  assumes "pgp_process X a cmd = Some (r, b)" "is_sign_cmd cmd" "is_okay r"
  shows "handle_pso_sign X (unchain (a\<lparr>current_le := le cmd\<rparr>)) (effective_cmd a cmd) = Some (r, b)"
proof -
  have refused: "\<not> is_okay (response_error SW_CONDITIONS_NOT_SATISFIED)"
    by (simp add: is_okay_def response_error_def response_new_def SW_defs)
  have eff: "effective_cmd (a\<lparr>current_le := le cmd\<rparr>) cmd = effective_cmd a cmd" by (simp add: effective_cmd_def)
  have "ins (effective_cmd a cmd) = INS_PSO" "p1p2 (effective_cmd a cmd) = PSO_CDS"
    using assms(2) by (simp_all add: effective_cmd_def is_sign_cmd_def p1p2_def)
  with assms refused show ?thesis
    by (auto simp: pgp_process_def is_sign_cmd_def INS_defs Let_def eff pgp_route_def handle_pso_def split: if_splits)
qed

text \<open>No VERIFY presents the accepted PW1 for signing.\<close>

definition without_pw1 :: "'k env \<Rightarrow> openpgp_applet \<Rightarrow> apdu \<Rightarrow> bool" where
  "without_pw1 X a cmd \<longleftrightarrow> (ins cmd = INS_VERIFY \<longrightarrow> verify_pin_type (p2 cmd) = Some PW1_81 \<longrightarrow>
     \<not> pin_good X PW1_81 (pgp_pins a) (strip_padding (cmd_data (effective_cmd a cmd))))"

lemma without_pw1_reachable:
  assumes "reachable (without_pw1 :: 'k env \<Rightarrow> _) a b" "\<not> verified SC_PW1_81 a"
  shows "\<not> verified SC_PW1_81 b"
proof
  assume "verified SC_PW1_81 b"
  from reachable_flag [OF assms(1) this assms(2)] obtain X :: "'k env" and s cmd t where s: "without_pw1 X s cmd"
    "ins cmd = INS_VERIFY" "verify_pin_type (p2 cmd) = Some t" "condition_of t = Some SC_PW1_81"
    "pin_good X t (pgp_pins s) (strip_padding (cmd_data (effective_cmd s cmd)))" by (elim exE conjE)
  then have "t = PW1_81" by (cases t) (simp_all add: condition_of_def)
  with s show False by (simp add: without_pw1_def)
qed

section \<open>Demonstration keys\<close>

text \<open>Two primes of the form \<open>h * 2 ^ k + 1\<close>, large enough to sign two bytes.\<close>

abbreviation demo_p :: nat where "demo_p \<equiv> 6597069766657"
abbreviation demo_q :: nat where "demo_q \<equiv> 180143985094819841"
abbreviation demo_n :: nat where "demo_n \<equiv> 1188422437714145214485323841537"

lemma squarings_numeral [simp]: "squarings (numeral v) b n = squarings (pred_numeral v) (b * b mod n) n"
  by (simp add: numeral_eq_Suc)

lemma demo_primes: "is_prime demo_p" "is_prime demo_q"
  by (rule proth [where h = 3 and k = 40 and a = 5], simp_all) (rule proth [where h = 5 and k = 54 and a = 3], simp_all)

definition sign_env :: "demo_key env" where
  "sign_env = demo_env\<lparr>rsa_new := (\<lambda>bits. Some (demo_n, 7, 0, [demo_p, demo_q])),
     rsa_size := (\<lambda>k. length (demo_digits (fst k)))\<rparr>"

lemma sign_env_simps [simp]:
  "big_to_bytes_be sign_env = demo_digits" "rsa_n sign_env k = fst k" "rsa_e sign_env k = fst (snd k)"
  "rsa_primes sign_env k = snd (snd (snd k))" "rsa_new sign_env bits = Some (demo_n, 7, 0, [demo_p, demo_q])"
  "rsa_size sign_env k = length (demo_digits (fst k))" "rsa_from_components sign_env n e d ps = Some (n, e, d, ps)"
  "sha1 sign_env = vec_resize 20"
  by (simp_all add: sign_env_def demo_env_def)

lemma hd_demo_digits: "n \<noteq> 0 \<Longrightarrow> hd (demo_digits n) \<noteq> 0"
proof (induction n rule: demo_digits.induct)
  case (1 n)
  show ?case
  proof (cases "n < 256")
    case True
    then have "unat (of_nat n :: byte) = n" by (simp add: unat_of_nat)
    then show ?thesis using True 1(2) by (subst demo_digits.simps) (auto simp: word_unat_eq_iff)
  next
    case False
    then show ?thesis using 1(1) by (subst demo_digits.simps) (simp add: div_eq_0_iff)
  qed
qed

lemma sign_env_laws: "crate_laws sign_env" "rsa_accepts sign_env sign_env (demo_n, 7, 0, [demo_p, demo_q])"
proof -
  have "demo_digits 0 = [0]" by (subst demo_digits.simps) simp
  then have "digits_laws sign_env" using hd_demo_digits by (simp add: digits_laws_def)
  moreover have "big_laws sign_env" "rsa_laws sign_env" "modpow_laws sign_env"
    by (simp_all add: big_laws_def rsa_laws_def modpow_laws_def sign_env_def demo_env_def)
  ultimately show "crate_laws sign_env" by (simp add: crate_laws_def)
qed (simp add: rsa_accepts_def)

lemma demo_key_good: "rsa_key_good sign_env (demo_n, 7, 0, [demo_p, demo_q])"
proof -
  have "gcd 7 ((demo_p - 1) * (demo_q - 1)) = (1 :: nat)" by (simp add: gcd_non_0_nat)
  then show ?thesis using demo_primes by (simp add: rsa_key_good_def)
qed

lemma demo_key_digits: "length (demo_digits demo_n) = 13" "demo_digits 7 = [7]"
  by (simp_all add: demo_digits.simps)

text \<open>A card on which both PINs needed are verified.\<close>

definition sign_pgp :: openpgp_applet where
  "sign_pgp = demo_pgp\<lparr>security := set_verified SC_PW1_81 (set_verified SC_PW3 security_state_new)\<rparr>"

lemma sign_pgp_simps [simp]:
  "pgp_state sign_pgp = factory_state demo_env" "command_buffer sign_pgp = []" "response_buffer sign_pgp = []"
  "verified SC_PW3 sign_pgp" "verified SC_PW1_81 sign_pgp"
  by (simp_all add: sign_pgp_def demo_pgp_def pgp_new_def pgp_state_def demo_store_def)

section \<open>Properties\<close>

text \<open>
  C4: a signature made with a generated RSA key verifies (RFC 8017) under the public key that the
  card returned when it generated the key, unless the fingerprint of the new key is all zero, which
  the code takes for an empty slot.
\<close>

theorem signatures_verify:
  assumes "command_buffer a = []" "\<not> terminated (pgp_state a)" "verified SC_PW3 a" "verified SC_PW1_81 a"
    and "algorithm_id (algorithm (key_sig (pgp_state a))) = ALG_RSA"
    and "rsa_new X (unat (param1 (algorithm (key_sig (pgp_state a))))) = Some k"
    and "crate_laws X" "crate_laws Y" "rsa_key_good X k" "rsa_accepts Y X k"
    and "n = big_to_bytes_be X (rsa_n X k)" "e = big_to_bytes_be X (rsa_e X k)"
    and "length n + length e \<le> 65000" "length d + 11 \<le> length n"
    and "\<not> list_all (\<lambda>x. x = 0) (calculate_fingerprint_rsa X n e (current_timestamp X))"
  shows "\<exists>b c sig. pgp_process X a generate_sig_cmd = Some (response_success (rsa_public_tlv n e), b) \<and>
    pgp_process Y b (sign_cmd d) = Some (response_success sig, c) \<and> rsa_verifies n e d sig"
  using generated_key_signs [OF assms(1-10), where d = d] assms(11-15) by simp

theorem signatures_verify_witness:
  "\<exists>b c sig. pgp_process sign_env sign_pgp generate_sig_cmd =
       Some (response_success (rsa_public_tlv (demo_digits demo_n) [7]), b) \<and>
     pgp_process sign_env b (sign_cmd [0xAB, 0xCD]) = Some (response_success sig, c) \<and>
     rsa_verifies (demo_digits demo_n) [7] [0xAB, 0xCD] sig"
proof (rule signatures_verify [where k = "(demo_n, 7, 0, [demo_p, demo_q])"])
  show "\<not> list_all (\<lambda>x. x = 0) (calculate_fingerprint_rsa sign_env (demo_digits demo_n) [7] (current_timestamp sign_env))"
    by (simp add: calculate_fingerprint_rsa_def hash_packet_def vec_resize_def)
qed (simp_all add: sign_env_laws demo_key_good demo_key_digits factory_state_def card_state_default_def
    key_slot_default_def attrs_default_def attrs_rsa_def)

text \<open>
  C39: INTERNAL AUTHENTICATE with an RSA key signs the digest info as it is, where PSO COMPUTE DIGITAL
  SIGNATURE pads it: the signature recovers the bare digest info and is never valid under PKCS#1 v1.5.
\<close>

theorem internal_authenticate_never_verifies:
  assumes "handle_internal_authenticate X a cmd = Some (response_success sig, b)"
    and "algorithm_id (algorithm (key_aut (pgp_state a))) = ALG_RSA"
    and "load_rsa_key X (key_aut (pgp_state a)) = Some (Ok key)"
    and "crate_laws X" "is_prime p" "is_prime q" "p \<noteq> q" "rsa_n X key = p * q"
    and "(be_value e * rsa_d X key) mod ((p - 1) * (q - 1)) = 1 mod ((p - 1) * (q - 1))"
    and "be_value n = p * q" "hd n \<noteq> 0" "length (cmd_data cmd) + 11 \<le> length n"
  shows "be_value sig ^ be_value e mod be_value n = be_value (cmd_data cmd) \<and>
    \<not> rsa_verifies n e (cmd_data cmd) sig"
proof -
  obtain s where s: "raw_sign X key (cmd_data cmd) = Ok s" by (simp add: raw_sign_def Let_def)
  have cr: "create_response a s = (response_success sig, b)"
    using assms(1-3) s
    by (auto simp: handle_internal_authenticate_def slot_sign_def or_exec_error_def Let_def
        response_success_def response_error_def response_new_def SW_defs split: if_splits)
  have "raw_sign X key (cmd_data cmd) = Ok sig" using s create_response_success [OF cr] by simp
  from raw_signature_unpadded [OF assms(4-9) assms(12,10) refl assms(11) this] show ?thesis
    using assms(10) by simp
qed

definition auth_cmd_aut :: apdu where
  "auth_cmd_aut = \<lparr>cla = 0, ins = INS_INTERNAL_AUTHENTICATE, p1 = 0, p2 = 0, cmd_data = [0xAB, 0xCD], le = None\<rparr>"

definition aut_pgp :: openpgp_applet where
  "aut_pgp = (put_state ((factory_state demo_env)\<lparr>key_aut := key_slot_default\<lparr>fingerprint := [1],
       private_key_data := lp_enc [7] @ lp_enc (demo_digits demo_p) @ lp_enc (demo_digits demo_q),
       public_key_data := lp_enc (demo_digits demo_n) @ lp_enc [7]\<rparr>\<rparr>) demo_pgp)
     \<lparr>security := set_verified SC_PW1_82 security_state_new\<rparr>"

lemma small_values: "be_value [7] = 7" "be_value [0xAB, 0xCD] = 0xABCD"
  by (simp_all add: be_value_def)

theorem internal_authenticate_never_verifies_witness:
  "\<exists>sig b. handle_internal_authenticate sign_env aut_pgp auth_cmd_aut = Some (response_success sig, b) \<and>
     be_value sig ^ 7 mod demo_n = 0xABCD \<and> \<not> rsa_verifies (demo_digits demo_n) [7] [0xAB, 0xCD] sig"
proof -
  have st: "pgp_state aut_pgp = (factory_state demo_env)\<lparr>key_aut := key_aut (pgp_state aut_pgp)\<rparr>"
    "verified SC_PW1_82 aut_pgp" "has_key (key_aut (pgp_state aut_pgp))" "current_le aut_pgp = None"
    "algorithm_id (algorithm (key_aut (pgp_state aut_pgp))) = ALG_RSA"
    by (simp_all add: aut_pgp_def has_key_def key_slot_default_def attrs_default_def attrs_rsa_def)
  obtain key where key: "load_rsa_key sign_env (key_aut (pgp_state aut_pgp)) = Some (Ok key)"
    "rsa_n sign_env key = demo_p * demo_q"
    "(7 * rsa_d sign_env key) mod ((demo_p - 1) * (demo_q - 1)) = 1 mod ((demo_p - 1) * (demo_q - 1))"
    using generated_key_loads [OF sign_env_laws(1,1,2) demo_key_good, of demo_p demo_q "key_aut (pgp_state aut_pgp)"]
    by (auto simp: demo_key_digits aut_pgp_def)
  obtain s where s: "raw_sign sign_env key [0xAB, 0xCD] = Ok s" by (simp add: raw_sign_def Let_def)
  have "length s \<le> 13"
    using raw_signature_length [OF sign_env_laws(1) _ s, of 13] raw_sign_value [OF sign_env_laws(1), of key "[0xAB, 0xCD]"] s key(2)
      mod_less_divisor [of demo_n "be_value [0xAB, 0xCD] ^ rsa_d sign_env key"]
    by (auto simp: demo_key_digits)
  then have run: "handle_internal_authenticate sign_env aut_pgp auth_cmd_aut = Some (response_success s, aut_pgp)"
    using st(2-5) key(1) s
    by (simp add: handle_internal_authenticate_def slot_sign_def or_exec_error_def auth_cmd_aut_def
        create_response_def Let_def)
  from internal_authenticate_never_verifies [OF run st(5) key(1) sign_env_laws(1) demo_primes _ key(2), of "[7]" "demo_digits demo_n"]
  have "be_value s ^ be_value [7] mod be_value (demo_digits demo_n) = be_value (cmd_data auth_cmd_aut) \<and>
      \<not> rsa_verifies (demo_digits demo_n) [7] (cmd_data auth_cmd_aut) s"
    using key(3) hd_demo_digits [of demo_n] by (simp add: demo_key_digits auth_cmd_aut_def small_values)
  then show ?thesis using run by (auto simp: auth_cmd_aut_def small_values)
qed

text \<open>
  C6: in single-use mode a signature costs a PIN: it is only made with PW1 verified, counts, and
  afterwards no signature is made until VERIFY presents the accepted PW1 again, whatever else is sent.
\<close>

theorem each_signature_needs_the_pin:
  assumes "pgp_process X a cmd = Some (r, b)" "is_sign_cmd cmd" "is_okay r" "\<not> ss_valid_multiple (security a)"
    and "reachable (without_pw1 :: 'k env \<Rightarrow> _) b c"
    and "pgp_process Y c cmd' = Some (r', c')" "is_sign_cmd cmd'"
  shows "verified SC_PW1_81 a \<and>
    signature_counter (pgp_state b) = saturating_inc (signature_counter (pgp_state a)) \<and> \<not> is_okay r'"
proof -
  let ?u = "unchain (a\<lparr>current_le := le cmd\<rparr>)"
  have s: "verified SC_PW1_81 ?u" "security b = after_sign (security ?u)"
    "pgp_state b = (pgp_state ?u)\<lparr>signature_counter := saturating_inc (signature_counter (pgp_state ?u))\<rparr>"
    using sign_success [OF sign_cmd_routed [OF assms(1-3)] assms(3)] by auto
  then have "\<not> verified SC_PW1_81 b" using assms(4) by simp
  then have "\<not> verified SC_PW1_81 c" by (rule without_pw1_reachable [OF assms(5)])
  then have "\<not> is_okay r'"
    using sign_success [OF sign_cmd_routed [OF assms(6,7)]] sign_cmd_routed [OF assms(6,7)] by auto
  with s show ?thesis by simp
qed

text \<open>An Ed25519 key for signing, PW1 in single-use mode and verified.\<close>

definition single_pgp :: openpgp_applet where
  "single_pgp = (put_state ((factory_state demo_env)\<lparr>key_sig := key_slot_default\<lparr>algorithm := attrs_ed25519,
       fingerprint := [1], private_key_data := replicate 32 1\<rparr>\<rparr>) demo_pgp)
     \<lparr>security := set_verified SC_PW1_81 (set_pw1_valid_multiple False security_state_new)\<rparr>"

theorem each_signature_needs_the_pin_witness:
  "\<exists>r b r' c'. pgp_process demo_env single_pgp (sign_cmd [1]) = Some (r, b) \<and> is_okay r \<and>
     pgp_process demo_env b (sign_cmd [1]) = Some (r', c') \<and> signature_counter (pgp_state b) = 1 \<and> \<not> is_okay r'"
proof -
  let ?a = "single_pgp\<lparr>current_le := Some 65536\<rparr>"
  have a: "command_buffer single_pgp = []" "\<not> terminated (pgp_state single_pgp)"
    "key_sig (pgp_state single_pgp) = key_slot_default\<lparr>algorithm := attrs_ed25519, fingerprint := [1],
       private_key_data := replicate 32 1\<rparr>" "verified SC_PW1_81 single_pgp"
    "\<not> ss_valid_multiple (security single_pgp)" "signature_counter (pgp_state single_pgp) = 0"
    by (simp_all add: single_pgp_def factory_state_def card_state_default_def)
  have sign: "slot_sign demo_env f (key_sig (pgp_state single_pgp)) [1] = Some (Ok (vec_resize 64 [1]))" for f
    by (simp add: a(3) slot_sign_def ecdsa_sign_def attrs_ed25519_def ALG_defs or_exec_error_def
        ed25519_sign_def demo_env_def)
  have "has_key (key_sig (pgp_state single_pgp))" by (simp add: a(3) has_key_def)
  then have "\<exists>b. handle_pso_sign demo_env ?a (sign_cmd [1]) = Some (response_success (vec_resize 64 [1]), b) \<and>
      command_buffer b = [] \<and> \<not> terminated (pgp_state b) \<and> \<not> verified SC_PW1_81 b"
    using a sign
    by (simp add: handle_pso_sign_def Let_def create_response_whole sign_cmd_def vec_resize_def)
  then obtain b where b: "pgp_process demo_env single_pgp (sign_cmd [1]) = Some (response_success (vec_resize 64 [1]), b)"
    "command_buffer b = []" "\<not> terminated (pgp_state b)" "\<not> verified SC_PW1_81 b"
    using a(1,2) by (auto simp: plain_cmd_process sign_cmd_def INS_defs is_chained_def pgp_route_def handle_pso_def
        p1p2_def PSO_CDS_def)
  have ok: "is_okay (response_success d)" for d
    by (simp add: is_okay_def response_success_def response_new_def SW_defs)
  have cmd: "is_sign_cmd (sign_cmd d)" for d
    by (simp add: is_sign_cmd_def sign_cmd_def is_chained_def p1p2_def PSO_CDS_def)
  obtain r' c' where c: "pgp_process demo_env b (sign_cmd [1]) = Some (r', c')"
    using b(2-4) by (auto simp: plain_cmd_process sign_cmd_def INS_defs is_chained_def pgp_route_def handle_pso_def
        p1p2_def PSO_CDS_def handle_pso_sign_def)
  show ?thesis
    using each_signature_needs_the_pin [OF b(1) cmd ok a(5) cmd_reach.start c cmd] b(1) c ok a(6)
    by (auto simp: saturating_inc_def)
qed

end
