(* ===== verification/Pgp_Decipher.thy ===== *)
theory Pgp_Decipher
  imports Pgp_Signing
begin

text \<open>
  PSO DECIPHER with a generated RSA key: what a host encrypts under the public key that the card
  returned, the card deciphers. The counterpart of \<open>signatures_verify\<close> for the decryption slot.
\<close>

section \<open>RSAES-PKCS1-v1_5\<close>

text \<open>The encoded message of RFC 8017, 7.2.1, with padding string \<open>ps\<close>.\<close>

definition encryption_block :: "byte list \<Rightarrow> byte list \<Rightarrow> byte list" where
  "encryption_block ps m = [0x00, 0x02] @ ps @ [0x00] @ m"

definition padding_good :: "nat \<Rightarrow> byte list \<Rightarrow> byte list \<Rightarrow> bool" where
  "padding_good k ps m \<longleftrightarrow> 8 \<le> length ps \<and> 0 \<notin> set ps \<and> length ps + length m + 3 = k"

text \<open>\<open>c\<close> is an encryption of \<open>m\<close> under the public key \<open>(n, e)\<close>.\<close>

definition rsa_encrypts :: "byte list \<Rightarrow> byte list \<Rightarrow> byte list \<Rightarrow> byte list \<Rightarrow> bool" where
  "rsa_encrypts n e m c \<longleftrightarrow> length c = length n \<and>
     (\<exists>ps. padding_good (length n) ps m \<and>
        be_value c = be_value (encryption_block ps m) ^ be_value e mod be_value n)"

text \<open>
  \<open>decrypt(Pkcs1v15Encrypt, _)\<close> is the operation of RFC 8017, 7.2.2, on well-formed ciphertexts: as
  long as the modulus, and less than it when read as a number (7.2.2 and RSADP reject any other).
\<close>

definition rsaes_laws :: "'k env \<Rightarrow> bool" where
  "rsaes_laws X \<longleftrightarrow>
     (\<forall>key ps m c. padding_good (rsa_size X key) ps m \<longrightarrow> length c = rsa_size X key \<longrightarrow>
        be_value c < rsa_n X key \<longrightarrow> be_value c ^ rsa_d X key mod rsa_n X key = be_value (encryption_block ps m) \<longrightarrow>
        rsa_decrypt_pkcs1v15 X key c = Some m)"

lemma encryption_block_less:
  assumes "padding_good (length n) ps m" "hd n \<noteq> 0"
  shows "be_value (encryption_block ps m) < be_value n"
proof -
  have "n \<noteq> []" using assms(1) by (auto simp: padding_good_def)
  have "be_value (encryption_block ps m) = be_value (0x02 # ps @ 0x00 # m)" by (simp add: encryption_block_def)
  also have "\<dots> < 256 ^ length (0x02 # ps @ 0x00 # m)" by (rule be_value_less)
  also have "length (0x02 # ps @ 0x00 # m) = length n - 1" using assms(1) by (auto simp: padding_good_def)
  also have "256 ^ (length n - 1) \<le> be_value n" by (rule be_value_ge [OF \<open>n \<noteq> []\<close> assms(2)])
  finally show ?thesis .
qed

section \<open>Deciphering with a generated key\<close>

definition decipher_cmd :: "byte list \<Rightarrow> apdu" where
  "decipher_cmd c = \<lparr>cla = 0, ins = INS_PSO, p1 = 0x80, p2 = 0x86, cmd_data = 0x00 # c, le = Some 65536\<rparr>"

lemma rsa_decrypt_recovers:
  assumes laws: "crate_laws X" "crate_laws Y" "rsaes_laws Y" and primes: "is_prime p" "is_prime q" "p \<noteq> q"
    and key: "rsa_n Y key = p * q" "rsa_size Y key = length (big_to_bytes_be Y (p * q))"
      "(e * rsa_d Y key) mod ((p - 1) * (q - 1)) = 1 mod ((p - 1) * (q - 1))"
    and enc: "rsa_encrypts (big_to_bytes_be X (p * q)) (big_to_bytes_be X e) m c"
  shows "rsa_decrypt Y key c = Ok m"
proof -
  let ?n = "big_to_bytes_be X (p * q)"
  have val: "be_value (big_to_bytes_be X k) = k" for k using laws(1) by (simp add: crate_laws_def big_laws_def)
  have "p * q \<noteq> 0" using primes is_prime_gt by fastforce
  then have "hd ?n \<noteq> 0" using laws(1) by (simp add: crate_laws_def digits_laws_def)
  from enc obtain ps where c: "length c = length ?n" "padding_good (length ?n) ps m"
    "be_value c = be_value (encryption_block ps m) ^ e mod (p * q)"
    by (auto simp: rsa_encrypts_def val)
  have "be_value (encryption_block ps m) < p * q"
    using encryption_block_less [OF c(2) \<open>hd ?n \<noteq> 0\<close>] by (simp add: val)
  moreover have "(rsa_d Y key * e) mod ((p - 1) * (q - 1)) = 1 mod ((p - 1) * (q - 1))"
    using key(3) by (simp add: mult.commute)
  ultimately have "be_value c ^ rsa_d Y key mod (p * q) = be_value (encryption_block ps m)"
    using rsa_exponents [OF primes] c(3) by simp
  moreover have "rsa_size Y key = length ?n" using key(2) digits_agree [OF laws(1,2)] by simp
  moreover have "be_value c < rsa_n Y key" using c(3) key(1) \<open>p * q \<noteq> 0\<close> by simp
  ultimately have "rsa_decrypt_pkcs1v15 Y key c = Some m"
    using laws(3) c(1,2) key(1) by (simp add: rsaes_laws_def)
  then show ?thesis by (simp add: rsa_decrypt_def)
qed

lemma generated_key_deciphers:
  assumes idle: "command_buffer a = []" "\<not> terminated (pgp_state a)"
    and rights: "verified SC_PW3 a" "verified SC_PW1_82 a"
    and alg: "algorithm_id (algorithm (key_dec (pgp_state a))) = ALG_RSA"
      "rsa_new X (unat (param1 (algorithm (key_dec (pgp_state a))))) = Some k"
    and laws: "crate_laws X" "crate_laws Y" "rsa_key_good X k" "rsa_accepts Y X k" "rsaes_laws Y"
  defines "n \<equiv> big_to_bytes_be X (rsa_n X k)" and "e \<equiv> big_to_bytes_be X (rsa_e X k)"
  assumes len: "length n + length e \<le> 65000" and enc: "rsa_encrypts n e m c"
    and known: "\<not> list_all (\<lambda>x. x = 0) (calculate_fingerprint_rsa X n e (current_timestamp X))"
  shows "\<exists>b b'. pgp_process X a (generate_cmd KT_Dec) = Some (response_success (rsa_public_tlv n e), b) \<and>
    pgp_process Y b (decipher_cmd c) = Some (response_success m, b')"
proof -
  obtain p q where pq: "rsa_primes X k = [p, q]" "is_prime p" "is_prime q" "p \<noteq> q" "rsa_n X k = p * q"
    using laws(3) by (auto simp: rsa_key_good_def)
  have alg': "algorithm_id (algorithm (get_slot KT_Dec (pgp_state a))) = ALG_RSA"
    "rsa_new X (unat (param1 (algorithm (get_slot KT_Dec (pgp_state a))))) = Some k"
    using alg by (simp_all add: get_slot_def)
  obtain b slot where b: "pgp_process X a (generate_cmd KT_Dec) = Some (response_success (rsa_public_tlv n e), b)"
    "key_dec (pgp_state b) = slot" "algorithm slot = algorithm (key_dec (pgp_state a))"
    "private_key_data slot = lp_enc e @ lp_enc (big_to_bytes_be X p) @ lp_enc (big_to_bytes_be X q)"
    "public_key_data slot = lp_enc n @ lp_enc e" "has_key slot"
    "\<not> terminated (pgp_state b)" "command_buffer b = []" "security b = security a"
    using generate_run [OF idle rights(1) alg' pq(1)] len known
    unfolding n_def e_def get_slot_def key_slot_type.case by blast
  obtain key where key: "load_rsa_key Y slot = Some (Ok key)" "rsa_n Y key = p * q"
    "(rsa_e X k * rsa_d Y key) mod ((p - 1) * (q - 1)) = 1 mod ((p - 1) * (q - 1))"
    using generated_key_loads [OF laws(1,2,4,3) pq(1), of slot] b(4,5) len by (auto simp: n_def e_def)
  have size: "rsa_size Y key = length (big_to_bytes_be Y (p * q))"
    using laws(4) key(2) by (simp add: rsa_accepts_def)
  have "rsa_decrypt Y key c = Ok m"
    using rsa_decrypt_recovers [OF laws(1,2,5) pq(2-4) key(2) size key(3)] enc by (simp add: n_def e_def pq(5))
  then have "decipher_data Y slot (0x00 # c) = Some (Ok m)"
    using key(1) alg(1) b(3) by (simp add: decipher_data_def or_exec_error_def)
  moreover have "length m \<le> 65536" using enc len by (auto simp: rsa_encrypts_def padding_good_def)
  ultimately have "\<exists>b'. handle_pso_decipher Y (b\<lparr>current_le := Some 65536\<rparr>) (decipher_cmd c) = Some (response_success m, b')"
    using b rights(2) by (simp add: handle_pso_decipher_def Let_def create_response_whole decipher_cmd_def)
  then obtain b' where "pgp_process Y b (decipher_cmd c) = Some (response_success m, b')"
    using b by (auto simp: plain_cmd_process decipher_cmd_def INS_defs is_chained_def pgp_route_def handle_pso_def
        p1p2_def PSO_CDS_def PSO_DECIPHER_def)
  with b(1) show ?thesis by blast
qed

section \<open>A demonstration of the crate's decryption\<close>

definition unpad_block :: "byte list \<Rightarrow> byte list option" where
  "unpad_block d = (if take 2 d = [0x00, 0x02] then Some (drop 1 (dropWhile (\<lambda>b. b \<noteq> 0) (drop 2 d))) else None)"

definition decipher_env :: "demo_key env" where
  "decipher_env = sign_env\<lparr>rsa_decrypt_pkcs1v15 := (\<lambda>k c.
     if be_value c < rsa_n sign_env k then
       unpad_block (pad_left (length c) (demo_digits (be_value c ^ rsa_d sign_env k mod rsa_n sign_env k)))
     else None)\<rparr>"

lemma unpad_encryption_block: "0 \<notin> set ps \<Longrightarrow> unpad_block (encryption_block ps m) = Some m"
proof -
  assume "0 \<notin> set ps"
  then have "dropWhile (\<lambda>b. b \<noteq> 0) (ps @ 0 # m) = 0 # m"
    by (subst dropWhile_append2) (auto intro: gr0I)
  then show ?thesis by (simp add: unpad_block_def encryption_block_def)
qed

lemma be_value_inject: "length xs = length ys \<Longrightarrow> be_value xs = be_value ys \<Longrightarrow> xs = ys"
proof (induction xs arbitrary: ys rule: rev_induct)
  case (snoc x xs)
  then obtain zs z where ys: "ys = zs @ [z]" by (cases ys rule: rev_cases) auto
  with snoc.prems have eq: "be_value xs * 256 + unat x = be_value zs * 256 + unat z" by simp
  have "unat x < 256" "unat z < 256" by (simp_all add: unat_u8_less)
  then have "be_value xs = be_value zs" "unat x = unat z"
    using arg_cong [OF eq, of "\<lambda>n. n div 256"] arg_cong [OF eq, of "\<lambda>n. n mod 256"] by simp_all
  with snoc ys show ?case by (simp add: word_unat_eq_iff)
qed simp

lemma pad_digits:
  assumes "n < 256 ^ k" "0 < k"
  shows "length (pad_left k (demo_digits n)) = k"
proof -
  have "length (demo_digits n) \<le> k"
  proof (cases "n = 0")
    case True
    then show ?thesis using assms(2) by (simp add: demo_digits.simps Suc_le_eq)
  next
    case False
    have "256 ^ (length (demo_digits n) - 1) \<le> n"
      using digits_bounds(1) [of sign_env n] False sign_env_laws(1) by (simp add: crate_laws_def)
    also have "n < 256 ^ k" by (rule assms(1))
    finally show ?thesis by simp
  qed
  then show ?thesis by (simp add: pad_left_eq)
qed

lemma decipher_env_simps [simp]:
  "big_to_bytes_be decipher_env = demo_digits" "rsa_n decipher_env k = fst k" "rsa_e decipher_env k = fst (snd k)"
  "rsa_primes decipher_env k = snd (snd (snd k))" "rsa_new decipher_env bits = Some (demo_n, 7, 0, [demo_p, demo_q])"
  "rsa_size decipher_env k = length (demo_digits (fst k))" "sha1 decipher_env = vec_resize 20"
  by (simp_all add: decipher_env_def)

lemma decipher_env_laws:
  "crate_laws decipher_env" "rsa_accepts decipher_env decipher_env (demo_n, 7, 0, [demo_p, demo_q])"
  "rsa_key_good decipher_env (demo_n, 7, 0, [demo_p, demo_q])" "rsaes_laws decipher_env"
proof -
  show "crate_laws decipher_env"
    using sign_env_laws(1)
    by (simp add: crate_laws_def big_laws_def rsa_laws_def modpow_laws_def digits_laws_def decipher_env_def)
  show "rsa_accepts decipher_env decipher_env (demo_n, 7, 0, [demo_p, demo_q])"
    by (simp add: rsa_accepts_def decipher_env_def)
  show "rsa_key_good decipher_env (demo_n, 7, 0, [demo_p, demo_q])"
    using demo_key_good by (simp add: rsa_key_good_def)
  show "rsaes_laws decipher_env"
    unfolding rsaes_laws_def
  proof (intro allI impI)
    fix key :: demo_key and ps m c
    assume good: "padding_good (rsa_size decipher_env key) ps m" and len: "length c = rsa_size decipher_env key"
      and less: "be_value c < rsa_n decipher_env key"
      and eq: "be_value c ^ rsa_d decipher_env key mod rsa_n decipher_env key = be_value (encryption_block ps m)"
    let ?b = "pad_left (length c) (demo_digits (be_value (encryption_block ps m)))"
    have "length (encryption_block ps m) = length c"
      using good len by (simp add: padding_good_def encryption_block_def)
    moreover from this have "length ?b = length c"
      using be_value_less [of "encryption_block ps m"] good len by (intro pad_digits) (auto simp: padding_good_def)
    ultimately have "?b = encryption_block ps m"
      by (intro be_value_inject) (simp_all add: pad_left_value)
    then show "rsa_decrypt_pkcs1v15 decipher_env key c = Some m"
      using eq less good unpad_encryption_block [of ps m] by (simp add: decipher_env_def padding_good_def)
  qed
qed

text \<open>A card with a key to be generated for decryption, and both PINs verified.\<close>

definition decipher_pgp :: openpgp_applet where
  "decipher_pgp = demo_pgp\<lparr>security := set_verified SC_PW1_82 (set_verified SC_PW3 security_state_new)\<rparr>"

definition demo_cipher :: "byte list" where
  "demo_cipher = pad_left 13 (demo_digits
     (be_value (encryption_block (replicate 8 0xFF) [0xAB, 0xCD]) ^ 7 mod demo_n))"

lemma demo_cipher_encrypts: "rsa_encrypts (demo_digits demo_n) (demo_digits 7) [0xAB, 0xCD] demo_cipher"
proof -
  let ?M = "be_value (encryption_block (replicate 8 0xFF) [0xAB, 0xCD])"
  have "?M ^ 7 mod demo_n < demo_n" by (rule mod_less_divisor) simp
  also have "demo_n < 256 ^ 13" by simp
  finally have "length demo_cipher = 13" unfolding demo_cipher_def by (rule pad_digits) simp
  moreover have "be_value demo_cipher = ?M ^ 7 mod demo_n"
    unfolding demo_cipher_def pad_left_value be_value_digits ..
  moreover have "padding_good 13 (replicate 8 0xFF) [0xAB, 0xCD]" by (simp add: padding_good_def)
  ultimately show ?thesis
    unfolding rsa_encrypts_def be_value_digits demo_key_digits(1) by blast
qed

section \<open>Properties\<close>

text \<open>
  C5: what is encrypted (RFC 8017, RSAES-PKCS1-v1_5) under the public key that the card returned when
  it generated its decryption key, with whatever padding string, PSO DECIPHER returns in the clear to
  a host that verified PW1, unless the fingerprint of the new key is all zero.
\<close>

theorem encrypted_message_is_deciphered:
  assumes "command_buffer a = []" "\<not> terminated (pgp_state a)" "verified SC_PW3 a" "verified SC_PW1_82 a"
    and "algorithm_id (algorithm (key_dec (pgp_state a))) = ALG_RSA"
    and "rsa_new X (unat (param1 (algorithm (key_dec (pgp_state a))))) = Some k"
    and "crate_laws X" "crate_laws Y" "rsa_key_good X k" "rsa_accepts Y X k" "rsaes_laws Y"
    and "n = big_to_bytes_be X (rsa_n X k)" "e = big_to_bytes_be X (rsa_e X k)"
    and "length n + length e \<le> 65000" "rsa_encrypts n e m c"
    and "\<not> list_all (\<lambda>x. x = 0) (calculate_fingerprint_rsa X n e (current_timestamp X))"
  shows "\<exists>b b'. pgp_process X a (generate_cmd KT_Dec) = Some (response_success (rsa_public_tlv n e), b) \<and>
    pgp_process Y b (decipher_cmd c) = Some (response_success m, b')"
  using generated_key_deciphers [OF assms(1-11)] assms(12-16) by simp

theorem encrypted_message_is_deciphered_witness:
  "\<exists>b b'. pgp_process decipher_env decipher_pgp (generate_cmd KT_Dec) =
       Some (response_success (rsa_public_tlv (demo_digits demo_n) (demo_digits 7)), b) \<and>
     pgp_process decipher_env b (decipher_cmd demo_cipher) = Some (response_success [0xAB, 0xCD], b')"
proof (rule encrypted_message_is_deciphered [where k = "(demo_n, 7, 0, [demo_p, demo_q])"])
  show "\<not> list_all (\<lambda>x. x = 0)
      (calculate_fingerprint_rsa decipher_env (demo_digits demo_n) (demo_digits 7) (current_timestamp decipher_env))"
    by (simp add: calculate_fingerprint_rsa_def hash_packet_def vec_resize_def)
  show "rsa_encrypts (demo_digits demo_n) (demo_digits 7) [0xAB, 0xCD] demo_cipher"
    by (rule demo_cipher_encrypts)
qed (simp_all add: decipher_env_laws demo_key_digits decipher_pgp_def factory_state_def card_state_default_def
    key_slot_default_def attrs_default_def attrs_rsa_def)

end
