(* ===== verification/Piv_Objects.thy ===== *)
theory Piv_Objects
  imports Tlv Apdu Rsa_Ops Ecc_Ops Digest_Ops
begin

text \<open>
  The data of the PIV applet (\<open>src/piv/data_objects.rs\<close>) and which of its secrets are
  authenticated (\<open>src/piv/security_state.rs\<close>). The PIN and the PUK are each a \<open>retry_guard\<close>: the
  interpretations are at the end.
\<close>

section \<open>Key slots and algorithms\<close>

datatype piv_key_slot =
  Authentication | CardManagement | DigitalSignature | KeyManagement | CardAuthentication

definition piv_slot_of_byte :: "byte \<Rightarrow> piv_key_slot option" where
  "piv_slot_of_byte b =
     (if b = 0x9A then Some Authentication
      else if b = 0x9B then Some CardManagement
      else if b = 0x9C then Some DigitalSignature
      else if b = 0x9D then Some KeyManagement
      else if b = 0x9E then Some CardAuthentication
      else None)"

text \<open>The discriminants of the enumerations: \<open>slot as u8\<close>, \<open>algorithm as u8\<close>.\<close>

definition piv_slot_byte :: "piv_key_slot \<Rightarrow> byte" where
  "piv_slot_byte s =
     (case s of Authentication \<Rightarrow> 0x9A | CardManagement \<Rightarrow> 0x9B | DigitalSignature \<Rightarrow> 0x9C
      | KeyManagement \<Rightarrow> 0x9D | CardAuthentication \<Rightarrow> 0x9E)"

datatype piv_algorithm = TDES | RSA2048 | ECCP256 | ECCP384

definition piv_alg_of_byte :: "byte \<Rightarrow> piv_algorithm option" where
  "piv_alg_of_byte b =
     (if b = 0x03 then Some TDES
      else if b = 0x07 then Some RSA2048
      else if b = 0x11 then Some ECCP256
      else if b = 0x14 then Some ECCP384
      else None)"

definition piv_alg_byte :: "piv_algorithm \<Rightarrow> byte" where
  "piv_alg_byte a = (case a of TDES \<Rightarrow> 0x03 | RSA2048 \<Rightarrow> 0x07 | ECCP256 \<Rightarrow> 0x11 | ECCP384 \<Rightarrow> 0x14)"

lemma piv_bytes [simp]:
  "piv_slot_of_byte (piv_slot_byte s) = Some s" "piv_alg_of_byte (piv_alg_byte a) = Some a"
  by (cases s; simp add: piv_slot_of_byte_def piv_slot_byte_def)
    (cases a; simp add: piv_alg_of_byte_def piv_alg_byte_def)

section \<open>Data objects\<close>

record piv_key_data =
  pk_algorithm :: byte
  pk_private :: "byte list"
  pk_public :: "byte list"
  pk_certificate :: "byte list"

definition piv_key_default :: piv_key_data where
  "piv_key_default = \<lparr>pk_algorithm = 0, pk_private = [], pk_public = [], pk_certificate = []\<rparr>"

record piv_data_objects =
  chuid :: "byte list"
  ccc :: "byte list"
  key_9a :: piv_key_data
  key_9c :: piv_key_data
  key_9d :: piv_key_data
  key_9e :: piv_key_data
  management_key :: "byte list"
  card_pin :: "byte list"
  card_puk :: "byte list"
  pin_retries :: byte
  puk_retries :: byte
  printed_info :: "byte list"
  discovery :: "byte list"
  key_history :: "byte list"

definition DEFAULT_MGMT_KEY :: "byte list" where
  "DEFAULT_MGMT_KEY =
     [0x01, 0x02, 0x03, 0x04, 0x05, 0x06, 0x07, 0x08,
      0x01, 0x02, 0x03, 0x04, 0x05, 0x06, 0x07, 0x08,
      0x01, 0x02, 0x03, 0x04, 0x05, 0x06, 0x07, 0x08]"

definition DEFAULT_PIN :: "byte list" where
  "DEFAULT_PIN = [0x31, 0x32, 0x33, 0x34, 0x35, 0x36]"

definition DEFAULT_PUK :: "byte list" where
  "DEFAULT_PUK = [0x31, 0x32, 0x33, 0x34, 0x35, 0x36, 0x37, 0x38]"

definition piv_objects_new :: piv_data_objects where
  "piv_objects_new =
     \<lparr>chuid = [], ccc = [], key_9a = piv_key_default, key_9c = piv_key_default,
      key_9d = piv_key_default, key_9e = piv_key_default, management_key = DEFAULT_MGMT_KEY,
      card_pin = DEFAULT_PIN, card_puk = DEFAULT_PUK, pin_retries = 3, puk_retries = 3,
      printed_info = [], discovery = [], key_history = []\<rparr>"

definition piv_get_key :: "piv_key_slot \<Rightarrow> piv_data_objects \<Rightarrow> piv_key_data option" where
  "piv_get_key s d =
     (case s of
        Authentication \<Rightarrow> Some (key_9a d)
      | DigitalSignature \<Rightarrow> Some (key_9c d)
      | KeyManagement \<Rightarrow> Some (key_9d d)
      | CardAuthentication \<Rightarrow> Some (key_9e d)
      | CardManagement \<Rightarrow> None)"

text \<open>Writing through \<open>get_key_mut\<close>: nothing happens for the management slot.\<close>

definition piv_update_key ::
  "piv_key_slot \<Rightarrow> (piv_key_data \<Rightarrow> piv_key_data) \<Rightarrow> piv_data_objects \<Rightarrow> piv_data_objects" where
  "piv_update_key s f d =
     (case s of
        Authentication \<Rightarrow> d\<lparr>key_9a := f (key_9a d)\<rparr>
      | DigitalSignature \<Rightarrow> d\<lparr>key_9c := f (key_9c d)\<rparr>
      | KeyManagement \<Rightarrow> d\<lparr>key_9d := f (key_9d d)\<rparr>
      | CardAuthentication \<Rightarrow> d\<lparr>key_9e := f (key_9e d)\<rparr>
      | CardManagement \<Rightarrow> d)"

lemma piv_get_update:
  "piv_get_key s (piv_update_key s f d) = map_option f (piv_get_key s d)"
  "s \<noteq> t \<Longrightarrow> piv_get_key t (piv_update_key s f d) = piv_get_key t d"
  by (cases s; cases t; simp add: piv_get_key_def piv_update_key_def)+

lemma piv_update_frame [simp]:
  "card_pin (piv_update_key s f d) = card_pin d" "card_puk (piv_update_key s f d) = card_puk d"
  "pin_retries (piv_update_key s f d) = pin_retries d" "puk_retries (piv_update_key s f d) = puk_retries d"
  "management_key (piv_update_key s f d) = management_key d" "chuid (piv_update_key s f d) = chuid d"
  by (cases s; simp add: piv_update_key_def)+

section \<open>Security state\<close>

datatype piv_security_condition = PINVerified | ManagementKeyAuthenticated

record piv_security_state =
  pin_verified :: bool
  mgmt_authenticated :: bool

definition piv_security_new :: piv_security_state where
  "piv_security_new = \<lparr>pin_verified = False, mgmt_authenticated = False\<rparr>"

definition set_pin_verified :: "bool \<Rightarrow> piv_security_state \<Rightarrow> piv_security_state" where
  "set_pin_verified v s = s\<lparr>pin_verified := v\<rparr>"

definition set_management_key_authenticated :: "bool \<Rightarrow> piv_security_state \<Rightarrow> piv_security_state" where
  "set_management_key_authenticated v s = s\<lparr>mgmt_authenticated := v\<rparr>"

definition piv_clear_all :: "piv_security_state \<Rightarrow> piv_security_state" where
  "piv_clear_all s = s\<lparr>pin_verified := False, mgmt_authenticated := False\<rparr>"

lemma piv_security_simps [simp]:
  "pin_verified (set_pin_verified v s) = v" "mgmt_authenticated (set_pin_verified v s) = mgmt_authenticated s"
  "mgmt_authenticated (set_management_key_authenticated v s) = v"
  "pin_verified (set_management_key_authenticated v s) = pin_verified s"
  "\<not> pin_verified (piv_clear_all s)" "\<not> mgmt_authenticated (piv_clear_all s)"
  "\<not> pin_verified piv_security_new" "\<not> mgmt_authenticated piv_security_new"
  by (simp_all add: set_pin_verified_def set_management_key_authenticated_def piv_clear_all_def
      piv_security_new_def)

section \<open>PIN and PUK attempts\<close>

text \<open>
  The comparison that VERIFY, CHANGE REFERENCE DATA and RESET RETRY COUNTER make, with its effect on
  the counter: on a blocked counter nothing happens.
\<close>

definition piv_try_pin :: "byte list \<Rightarrow> piv_data_objects \<Rightarrow> bool \<times> piv_data_objects" where
  "piv_try_pin p d =
     (if pin_retries d = 0 then (False, d)
      else if p = card_pin d then (True, d\<lparr>pin_retries := 3\<rparr>)
      else (False, d\<lparr>pin_retries := saturating_dec (pin_retries d)\<rparr>))"

definition piv_try_puk :: "byte list \<Rightarrow> piv_data_objects \<Rightarrow> bool \<times> piv_data_objects" where
  "piv_try_puk p d =
     (if puk_retries d = 0 then (False, d)
      else if p = card_puk d then (True, d\<lparr>puk_retries := 3\<rparr>)
      else (False, d\<lparr>puk_retries := saturating_dec (puk_retries d)\<rparr>))"

interpretation piv_pin: retry_guard
  "\<lambda>d p. piv_try_pin p d" "\<lambda>d. unat (pin_retries d)" "\<lambda>d. 3" "\<lambda>d p. p = card_pin d"
  by unfold_locales (auto simp: piv_try_pin_def unsigned_eq_0_iff)

interpretation piv_puk: retry_guard
  "\<lambda>d p. piv_try_puk p d" "\<lambda>d. unat (puk_retries d)" "\<lambda>d. 3" "\<lambda>d p. p = card_puk d"
  by unfold_locales (auto simp: piv_try_puk_def unsigned_eq_0_iff)

end
