(* ===== verification/Piv_Applet.thy ===== *)
theory Piv_Applet
  imports Piv_Objects
begin

text \<open>
  The PIV applet (\<open>src/piv/applet.rs\<close>): state, command chaining, and every command handler. A
  handler takes the applet and returns the response with the new applet; the commands that decode
  an RSA key or slice the response buffer can panic, which is \<open>None\<close>.
\<close>

definition PIV_AID :: "byte list" where
  "PIV_AID = [0xA0, 0x00, 0x00, 0x03, 0x08]"

definition REF_PIV_PIN :: byte where "REF_PIV_PIN = 0x80"
definition REF_PIV_PUK :: byte where "REF_PIV_PUK = 0x81"
definition REF_MGMT_KEY :: byte where "REF_MGMT_KEY = 0x9B"

lemmas REF_defs = REF_PIV_PIN_def REF_PIV_PUK_def REF_MGMT_KEY_def

record piv_applet =
  piv_objects :: piv_data_objects
  piv_security :: piv_security_state
  piv_response_buffer :: "byte list"
  piv_response_offset :: nat
  current_challenge :: "byte list option"
  piv_version :: "byte \<times> byte \<times> byte"
  piv_serial :: u32
  command_chain_buffer :: "byte list"
  command_chain_ins :: "byte option"
  command_chain_p1 :: byte
  command_chain_p2 :: byte

definition piv_new :: "'k env \<Rightarrow> piv_applet" where
  "piv_new X =
     (let serial_bytes = rand_bytes X 4 in
      \<lparr>piv_objects = piv_objects_new, piv_security = piv_security_new,
       piv_response_buffer = [], piv_response_offset = 0, current_challenge = None,
       piv_version = (1, 0, 0),
       piv_serial = from_be32 (serial_bytes ! 0) (serial_bytes ! 1) (serial_bytes ! 2) (serial_bytes ! 3),
       command_chain_buffer = [], command_chain_ins = None, command_chain_p1 = 0,
       command_chain_p2 = 0\<rparr>)"

definition piv_reset :: "piv_applet \<Rightarrow> piv_applet" where
  "piv_reset a = a\<lparr>piv_security := piv_clear_all (piv_security a), piv_response_buffer := [],
     piv_response_offset := 0, current_challenge := None\<rparr>"

abbreviation with_objects :: "piv_data_objects \<Rightarrow> piv_applet \<Rightarrow> piv_applet" where
  "with_objects d a \<equiv> a\<lparr>piv_objects := d\<rparr>"

section \<open>SELECT, VERIFY, CHANGE REFERENCE DATA, RESET RETRY COUNTER\<close>

definition piv_handle_select :: "piv_applet \<Rightarrow> apdu \<Rightarrow> response \<times> piv_applet" where
  "piv_handle_select a cmd =
     (if p1 cmd \<noteq> 0x04 then (response_error SW_WRONG_P1_P2, a)
      else if take (length PIV_AID) (cmd_data cmd) \<noteq> PIV_AID then (response_error SW_FILE_NOT_FOUND, a)
      else
        (response_success
           ([0x4F, 0x06, 0x00, 0x00, 0x10, 0x00, 0x01, 0x00, 0x79, 0x07, 0x4F, 0x05] @ PIV_AID),
         a\<lparr>piv_security := piv_clear_all (piv_security a), current_challenge := None\<rparr>))"

text \<open>The answer to a failed attempt, and to one on a blocked counter.\<close>

definition piv_retry_response :: "byte \<Rightarrow> response" where
  "piv_retry_response n =
     (if n = 0 then response_error SW_AUTH_METHOD_BLOCKED else response_counter_warning n)"

definition strip_ff :: "byte list \<Rightarrow> byte list" where
  "strip_ff = takeWhile (\<lambda>b. b \<noteq> 0xFF)"

definition piv_handle_verify :: "piv_applet \<Rightarrow> apdu \<Rightarrow> response \<times> piv_applet" where
  "piv_handle_verify a cmd =
     (if p2 cmd = REF_PIV_PIN then
        (if cmd_data cmd = [] then (response_counter_warning (pin_retries (piv_objects a)), a)
         else let (ok, d) = piv_try_pin (strip_ff (cmd_data cmd)) (piv_objects a) in
           if ok then (response_ok, (with_objects d a)\<lparr>piv_security := set_pin_verified True (piv_security a)\<rparr>)
           else (piv_retry_response (pin_retries d), with_objects d a))
      else if p2 cmd = REF_PIV_PUK then
        (if cmd_data cmd = [] then (response_counter_warning (puk_retries (piv_objects a)), a)
         else let (ok, d) = piv_try_puk (cmd_data cmd) (piv_objects a) in
           if ok then (response_ok, with_objects d a)
           else (piv_retry_response (puk_retries d), with_objects d a))
      else (response_error SW_WRONG_P1_P2, a))"

definition piv_handle_change_reference_data :: "piv_applet \<Rightarrow> apdu \<Rightarrow> response \<times> piv_applet" where
  "piv_handle_change_reference_data a cmd =
     (if length (cmd_data cmd) \<noteq> 16 then (response_error SW_WRONG_LENGTH, a)
      else let old_value = strip_ff (take 8 (cmd_data cmd)); new_value = strip_ff (drop 8 (cmd_data cmd)) in
        if p2 cmd = REF_PIV_PIN then
          (let (ok, d) = piv_try_pin old_value (piv_objects a) in
           if ok then (response_ok, with_objects (d\<lparr>card_pin := new_value\<rparr>) a)
           else (piv_retry_response (pin_retries d), with_objects d a))
        else if p2 cmd = REF_PIV_PUK then
          (let (ok, d) = piv_try_puk old_value (piv_objects a) in
           if ok then (response_ok, with_objects (d\<lparr>card_puk := new_value\<rparr>) a)
           else (piv_retry_response (puk_retries d), with_objects d a))
        else (response_error SW_WRONG_P1_P2, a))"

text \<open>The PUK is compared with all its eight bytes here.\<close>

definition piv_handle_reset_retry_counter :: "piv_applet \<Rightarrow> apdu \<Rightarrow> response \<times> piv_applet" where
  "piv_handle_reset_retry_counter a cmd =
     (if p2 cmd \<noteq> REF_PIV_PIN then (response_error SW_WRONG_P1_P2, a)
      else if length (cmd_data cmd) \<noteq> 16 then (response_error SW_WRONG_LENGTH, a)
      else let new_pin = strip_ff (drop 8 (cmd_data cmd));
               (ok, d) = piv_try_puk (take 8 (cmd_data cmd)) (piv_objects a) in
        if ok then (response_ok, with_objects (d\<lparr>card_pin := new_pin, pin_retries := 3\<rparr>) a)
        else (piv_retry_response (puk_retries d), with_objects d a))"

section \<open>GET DATA and PUT DATA\<close>

definition piv_object :: "byte list \<Rightarrow> piv_data_objects \<Rightarrow> byte list option" where
  "piv_object object_id d =
     (if object_id = [0x5F, 0xC1, 0x02] then Some (chuid d)
      else if object_id = [0x5F, 0xC1, 0x07] then Some (ccc d)
      else if object_id = [0x5F, 0xC1, 0x05] then Some (pk_certificate (key_9a d))
      else if object_id = [0x5F, 0xC1, 0x0A] then Some (pk_certificate (key_9c d))
      else if object_id = [0x5F, 0xC1, 0x0B] then Some (pk_certificate (key_9d d))
      else if object_id = [0x5F, 0xC1, 0x01] then Some (pk_certificate (key_9e d))
      else if object_id = [0x7E] then Some (discovery d)
      else None)"

definition piv_store_object :: "byte list \<Rightarrow> byte list \<Rightarrow> piv_data_objects \<Rightarrow> piv_data_objects option" where
  "piv_store_object object_id v d =
     (if object_id = [0x5F, 0xC1, 0x02] then Some (d\<lparr>chuid := v\<rparr>)
      else if object_id = [0x5F, 0xC1, 0x07] then Some (d\<lparr>ccc := v\<rparr>)
      else if object_id = [0x5F, 0xC1, 0x05] then Some (d\<lparr>key_9a := (key_9a d)\<lparr>pk_certificate := v\<rparr>\<rparr>)
      else if object_id = [0x5F, 0xC1, 0x0A] then Some (d\<lparr>key_9c := (key_9c d)\<lparr>pk_certificate := v\<rparr>\<rparr>)
      else if object_id = [0x5F, 0xC1, 0x0B] then Some (d\<lparr>key_9d := (key_9d d)\<lparr>pk_certificate := v\<rparr>\<rparr>)
      else if object_id = [0x5F, 0xC1, 0x01] then Some (d\<lparr>key_9e := (key_9e d)\<lparr>pk_certificate := v\<rparr>\<rparr>)
      else if object_id = [0x7E] then Some (d\<lparr>discovery := v\<rparr>)
      else None)"

text \<open>The tag list 5C that both commands start with: the object and what follows it.\<close>

definition parse_object_id :: "byte list \<Rightarrow> (byte list \<times> byte list) option" where
  "parse_object_id d =
     (if length d < 2 \<or> d ! 0 \<noteq> 0x5C then None
      else let tag_len = unat (d ! 1) in
        if length d < 2 + tag_len then None
        else Some (take tag_len (drop 2 d), drop (2 + tag_len) d))"

definition piv_handle_get_data :: "piv_applet \<Rightarrow> apdu \<Rightarrow> response" where
  "piv_handle_get_data a cmd =
     (if p1 cmd \<noteq> 0x3F \<or> p2 cmd \<noteq> 0xFF then response_error SW_WRONG_P1_P2
      else case parse_object_id (cmd_data cmd) of
          None \<Rightarrow> response_error SW_WRONG_DATA
        | Some (object_id, _) \<Rightarrow>
            (case piv_object object_id (piv_objects a) of
               None \<Rightarrow> response_error SW_FILE_NOT_FOUND
             | Some d \<Rightarrow>
                 if d = [] then response_error SW_FILE_NOT_FOUND
                 else response_success (tlv_encode 0x53 d)))"

text \<open>The 53 object: \<open>None\<close> is the answer 6A80.\<close>

definition parse_object_data :: "byte list \<Rightarrow> byte list option" where
  "parse_object_data remaining =
     (if remaining = [] \<or> remaining ! 0 \<noteq> 0x53 then None
      else if length remaining < 2 then None
      else case
          (if remaining ! 1 = 0x82 then
             (if length remaining < 4 then None
              else Some (unat (remaining ! 2) * 256 + unat (remaining ! 3), 4))
           else if remaining ! 1 = 0x81 then
             (if length remaining < 3 then None else Some (unat (remaining ! 2), 3))
           else Some (unat (remaining ! 1), 2)) of
          None \<Rightarrow> None
        | Some (data_len, data_offset) \<Rightarrow>
            if length remaining < data_offset + data_len then None
            else Some (take data_len (drop data_offset remaining)))"

definition piv_handle_put_data :: "piv_applet \<Rightarrow> apdu \<Rightarrow> response \<times> piv_applet" where
  "piv_handle_put_data a cmd =
     (if \<not> mgmt_authenticated (piv_security a) then (response_error SW_SECURITY_STATUS_NOT_SATISFIED, a)
      else if p1 cmd \<noteq> 0x3F \<or> p2 cmd \<noteq> 0xFF then (response_error SW_WRONG_P1_P2, a)
      else case parse_object_id (cmd_data cmd) of
          None \<Rightarrow> (response_error SW_WRONG_DATA, a)
        | Some (object_id, remaining) \<Rightarrow>
            (case parse_object_data remaining of
               None \<Rightarrow> (response_error SW_WRONG_DATA, a)
             | Some v \<Rightarrow>
                 (case piv_store_object object_id v (piv_objects a) of
                    None \<Rightarrow> (response_error SW_FILE_NOT_FOUND, a)
                  | Some d \<Rightarrow> (response_ok, with_objects d a))))"

section \<open>GENERATE ASYMMETRIC KEY PAIR\<close>

function find_algorithm :: "byte list \<Rightarrow> nat \<Rightarrow> byte option" where
  "find_algorithm d idx =
     (if idx + 2 \<le> length d then
        (let tag = d ! idx; len = unat (d ! (idx + 1)) in
         if tag = 0x80 \<and> len = 1 \<and> idx + 2 < length d then Some (d ! (idx + 2))
         else find_algorithm d (idx + 2 + len))
      else None)"
  by pat_completeness auto
termination by (relation "measure (\<lambda>(d, idx). length d - idx)") auto

declare find_algorithm.simps [simp del]

definition generate_rsa_key :: "'k env \<Rightarrow> piv_applet \<Rightarrow> piv_key_slot \<Rightarrow> nat \<Rightarrow> response \<times> piv_applet" where
  "generate_rsa_key X a slot bits =
     (case rsa_generate_keypair X bits of
        Ok (priv_key, pub_key_data) \<Rightarrow>
          (let n = (case get_modulus pub_key_data of Some n \<Rightarrow> n | None \<Rightarrow> []);
               e = (case get_exponent pub_key_data of Some e \<Rightarrow> e | None \<Rightarrow> []);
               pub_tlv = builder_build (builder_wrap 0x7F49 (builder_add 0x82 e (builder_add 0x81 n builder_new)));
               set_key = (\<lambda>k. k\<lparr>pk_algorithm := piv_alg_byte RSA2048, pk_private := priv_key,
                                 pk_public := pub_tlv\<rparr>) in
           (response_success pub_tlv, with_objects (piv_update_key slot set_key (piv_objects a)) a))
      | Err _ \<Rightarrow> (response_error SW_EXEC_ERROR, a))"

definition generate_ecc_key ::
  "'k env \<Rightarrow> piv_applet \<Rightarrow> piv_key_slot \<Rightarrow> piv_algorithm \<Rightarrow> response \<times> piv_applet" where
  "generate_ecc_key X a slot alg =
     (let curve = (if alg = ECCP256 then P256 else P384) in
      case nist_generate_keypair X curve of
        Ok (priv_key, pub_point) \<Rightarrow>
          (let pub_tlv = builder_build (builder_wrap 0x7F49 (builder_add 0x86 pub_point builder_new));
               set_key = (\<lambda>k. k\<lparr>pk_algorithm := piv_alg_byte alg, pk_private := priv_key,
                                 pk_public := pub_tlv\<rparr>) in
           (response_success pub_tlv, with_objects (piv_update_key slot set_key (piv_objects a)) a))
      | Err _ \<Rightarrow> (response_error SW_EXEC_ERROR, a))"

definition piv_handle_generate_key :: "'k env \<Rightarrow> piv_applet \<Rightarrow> apdu \<Rightarrow> response \<times> piv_applet" where
  "piv_handle_generate_key X a cmd =
     (if \<not> mgmt_authenticated (piv_security a) then (response_error SW_SECURITY_STATUS_NOT_SATISFIED, a)
      else case piv_slot_of_byte (p2 cmd) of
          None \<Rightarrow> (response_error SW_WRONG_P1_P2, a)
        | Some slot \<Rightarrow>
            if length (cmd_data cmd) < 5 \<or> cmd_data cmd ! 0 \<noteq> 0xAC then (response_error SW_WRONG_DATA, a)
            else case Option.bind (find_algorithm (cmd_data cmd) 2) piv_alg_of_byte of
                None \<Rightarrow> (response_error SW_WRONG_DATA, a)
              | Some RSA2048 \<Rightarrow> generate_rsa_key X a slot 2048
              | Some ECCP256 \<Rightarrow> generate_ecc_key X a slot ECCP256
              | Some ECCP384 \<Rightarrow> generate_ecc_key X a slot ECCP384
              | Some TDES \<Rightarrow> (response_error SW_FUNCTION_NOT_SUPPORTED, a))"

section \<open>GENERAL AUTHENTICATE\<close>

text \<open>The contents of the 7C template; a later tag replaces an earlier one.\<close>

type_synonym tag_map = "byte \<rightharpoonup> byte list"

function auth_tags :: "byte list \<Rightarrow> nat \<Rightarrow> tag_map \<Rightarrow> tag_map" where
  "auth_tags contents idx tags =
     (if idx + 1 < length contents then
        (let tag = contents ! idx; len = unat (contents ! (idx + 1));
             v = (if idx + 2 + len \<le> length contents then take len (drop (idx + 2) contents) else []) in
         auth_tags contents (idx + 2 + len) (tags(tag \<mapsto> v)))
      else tags)"
  by pat_completeness auto
termination by (relation "measure (\<lambda>(d, idx, _). length d - idx)") auto

declare auth_tags.simps [simp del]

definition authenticate_mgmt_key :: "'k env \<Rightarrow> piv_applet \<Rightarrow> tag_map \<Rightarrow> response \<times> piv_applet" where
  "authenticate_mgmt_key X a tags =
     (if tags 0x80 = Some [] \<and> tags 0x81 = None then
        (let witness = rand_bytes X 8; a1 = a\<lparr>current_challenge := Some witness\<rparr> in
         case tdes_encrypt_ecb X (management_key (piv_objects a1)) witness of
           Ok encrypted_witness \<Rightarrow> (response_success ([0x7C, 0x0A, 0x80, 0x08] @ encrypted_witness), a1)
         | Err _ \<Rightarrow> (response_error SW_EXEC_ERROR, a1))
      else case (tags 0x80, tags 0x81) of
          (Some host_witness, Some host_challenge) \<Rightarrow>
            (case current_challenge a of
               None \<Rightarrow> (response_error SW_CONDITIONS_NOT_SATISFIED, a)
             | Some original_challenge \<Rightarrow>
                 if host_witness \<noteq> original_challenge then
                   (response_error SW_SECURITY_STATUS_NOT_SATISFIED, a\<lparr>current_challenge := None\<rparr>)
                 else (case tdes_encrypt_ecb X (management_key (piv_objects a)) host_challenge of
                     Ok our_response \<Rightarrow>
                       (response_success ([0x7C, 0x0A, 0x82, 0x08] @ our_response),
                        a\<lparr>piv_security := set_management_key_authenticated True (piv_security a),
                          current_challenge := None\<rparr>)
                   | Err _ \<Rightarrow> (response_error SW_EXEC_ERROR, a\<lparr>current_challenge := None\<rparr>)))
        | _ \<Rightarrow> (response_error SW_WRONG_DATA, a))"

text \<open>The RSA key of a slot: outer \<open>None\<close> a panic, inner \<open>None\<close> the answer 6400.\<close>

definition piv_rsa_key :: "'k env \<Rightarrow> piv_key_data \<Rightarrow> 'k option option" where
  "piv_rsa_key X key_data =
     (case get_modulus (pk_public key_data) of
        None \<Rightarrow> Some None
      | Some n \<Rightarrow>
          (case decode_private_key X (pk_private key_data) n of
             None \<Rightarrow> None
           | Some (Err _) \<Rightarrow> Some None
           | Some (Ok key) \<Rightarrow> Some (Some key)))"

definition auth_template :: "byte list \<Rightarrow> byte list" where
  "auth_template d =
     (if length d \<le> 127 then [0x7C, of_nat (length d + 2), 0x82, of_nat (length d)] @ d
      else [0x7C, 0x81, of_nat (length d + 3), 0x82, 0x81, of_nat (length d)] @ d)"

definition template_or_error :: "'e + byte list \<Rightarrow> response" where
  "template_or_error r =
     (case r of Ok d \<Rightarrow> response_success (auth_template d) | Err _ \<Rightarrow> response_error SW_EXEC_ERROR)"

definition piv_sign_data :: "'k env \<Rightarrow> piv_key_data \<Rightarrow> byte list \<Rightarrow> response option" where
  "piv_sign_data X key_data d =
     (case piv_alg_of_byte (pk_algorithm key_data) of
        Some RSA2048 \<Rightarrow>
          (case piv_rsa_key X key_data of
             None \<Rightarrow> None
           | Some None \<Rightarrow> Some (response_error SW_EXEC_ERROR)
           | Some (Some key) \<Rightarrow> Some (template_or_error (raw_sign X key d)))
      | Some ECCP256 \<Rightarrow> Some (template_or_error (nist_sign X P256 (pk_private key_data) d))
      | Some ECCP384 \<Rightarrow> Some (template_or_error (nist_sign X P384 (pk_private key_data) d))
      | _ \<Rightarrow> Some (response_error SW_FUNCTION_NOT_SUPPORTED))"

definition piv_decrypt_data :: "'k env \<Rightarrow> piv_key_data \<Rightarrow> byte list \<Rightarrow> response option" where
  "piv_decrypt_data X key_data cipher_text =
     (case piv_alg_of_byte (pk_algorithm key_data) of
        Some RSA2048 \<Rightarrow>
          (case piv_rsa_key X key_data of
             None \<Rightarrow> None
           | Some None \<Rightarrow> Some (response_error SW_EXEC_ERROR)
           | Some (Some key) \<Rightarrow> Some (template_or_error (rsa_decrypt X key cipher_text)))
      | _ \<Rightarrow> Some (response_error SW_FUNCTION_NOT_SUPPORTED))"

definition piv_key_operation :: "'k env \<Rightarrow> piv_applet \<Rightarrow> piv_key_slot \<Rightarrow> tag_map \<Rightarrow> response option" where
  "piv_key_operation X a slot tags =
     (if slot \<noteq> CardAuthentication \<and> \<not> pin_verified (piv_security a) then
        Some (response_error SW_SECURITY_STATUS_NOT_SATISFIED)
      else case piv_get_key slot (piv_objects a) of
          None \<Rightarrow> Some (response_error SW_REFERENCED_DATA_NOT_FOUND)
        | Some key_data \<Rightarrow>
            if pk_private key_data = [] then Some (response_error SW_REFERENCED_DATA_NOT_FOUND)
            else if tags 0x82 = Some [] then
              (case tags 0x81 of
                 Some challenge \<Rightarrow> piv_sign_data X key_data challenge
               | None \<Rightarrow> Some (response_error SW_WRONG_DATA))
            else (case tags 0x85 of
                Some cipher_text \<Rightarrow> piv_decrypt_data X key_data cipher_text
              | None \<Rightarrow> Some (response_error SW_WRONG_DATA)))"

definition piv_handle_general_authenticate ::
  "'k env \<Rightarrow> piv_applet \<Rightarrow> apdu \<Rightarrow> (response \<times> piv_applet) option" where
  "piv_handle_general_authenticate X a cmd =
     (if cmd_data cmd = [] \<or> cmd_data cmd ! 0 \<noteq> 0x7C then Some (response_error SW_WRONG_DATA, a)
      else let contents = (if length (cmd_data cmd) > 2 then drop 2 (cmd_data cmd) else []);
               tags = auth_tags contents 0 Map.empty in
        if p2 cmd = REF_MGMT_KEY then Some (authenticate_mgmt_key X a tags)
        else case piv_slot_of_byte (p2 cmd) of
            None \<Rightarrow> Some (response_error SW_WRONG_P1_P2, a)
          | Some slot \<Rightarrow> map_option (\<lambda>r. (r, a)) (piv_key_operation X a slot tags))"

section \<open>GET RESPONSE, GET VERSION, GET SERIAL\<close>

definition piv_handle_get_response :: "piv_applet \<Rightarrow> apdu \<Rightarrow> (response \<times> piv_applet) option" where
  "piv_handle_get_response a cmd =
     (if piv_response_buffer a = [] then Some (response_error SW_CONDITIONS_NOT_SATISFIED, a)
      else if piv_response_offset a > length (piv_response_buffer a) then None
      else let l = (case le cmd of Some x \<Rightarrow> unat x | None \<Rightarrow> 256);
               remaining = length (piv_response_buffer a) - piv_response_offset a;
               to_send = min l remaining;
               d = take to_send (drop (piv_response_offset a) (piv_response_buffer a));
               a1 = a\<lparr>piv_response_offset := piv_response_offset a + to_send\<rparr> in
        Some
          (if piv_response_offset a1 \<ge> length (piv_response_buffer a1) then
             (response_success d, a1\<lparr>piv_response_buffer := [], piv_response_offset := 0\<rparr>)
           else let still_remaining = length (piv_response_buffer a1) - piv_response_offset a1 in
             (response_more_data d (of_nat (min still_remaining 255)), a1)))"

definition piv_handle_get_version :: "piv_applet \<Rightarrow> response" where
  "piv_handle_get_version a =
     (case piv_version a of (v0, v1, v2) \<Rightarrow> response_success [v0, v1, v2])"

definition piv_handle_get_serial :: "piv_applet \<Rightarrow> response" where
  "piv_handle_get_serial a = response_success (be_bytes32 (piv_serial a))"

section \<open>Dispatch\<close>

definition piv_route :: "'k env \<Rightarrow> piv_applet \<Rightarrow> apdu \<Rightarrow> (response \<times> piv_applet) option" where
  "piv_route X a cmd =
     (if ins cmd = 0xA4 then Some (piv_handle_select a cmd)
      else if ins cmd = 0x20 then Some (piv_handle_verify a cmd)
      else if ins cmd = 0x24 then Some (piv_handle_change_reference_data a cmd)
      else if ins cmd = 0x2C then Some (piv_handle_reset_retry_counter a cmd)
      else if ins cmd = 0xCB then Some (piv_handle_get_data a cmd, a)
      else if ins cmd = 0xDB then Some (piv_handle_put_data a cmd)
      else if ins cmd = 0x47 then Some (piv_handle_generate_key X a cmd)
      else if ins cmd = 0x87 then piv_handle_general_authenticate X a cmd
      else if ins cmd = 0xC0 then piv_handle_get_response a cmd
      else if ins cmd = 0xFD then Some (piv_handle_get_version a, a)
      else if ins cmd = 0xF8 then Some (piv_handle_get_serial a, a)
      else Some (response_error SW_INS_NOT_SUPPORTED, a))"

definition piv_start_chain :: "piv_applet \<Rightarrow> apdu \<Rightarrow> piv_applet" where
  "piv_start_chain a cmd =
     (if command_chain_ins a = None then
        a\<lparr>command_chain_ins := Some (ins cmd), command_chain_p1 := p1 cmd, command_chain_p2 := p2 cmd,
          command_chain_buffer := []\<rparr>
      else a)"

definition piv_process :: "'k env \<Rightarrow> piv_applet \<Rightarrow> apdu \<Rightarrow> (response \<times> piv_applet) option" where
  "piv_process X a cmd =
     (if is_chained cmd \<or> command_chain_ins a \<noteq> None then
        (let a1 = piv_start_chain a cmd in
         if command_chain_ins a1 \<noteq> Some (ins cmd) then
           Some (response_error SW_CONDITIONS_NOT_SATISFIED,
             a1\<lparr>command_chain_ins := None, command_chain_buffer := []\<rparr>)
         else let a2 = a1\<lparr>command_chain_buffer := command_chain_buffer a1 @ cmd_data cmd\<rparr> in
           if is_chained cmd then Some (response_ok, a2)
           else let complete_cmd =
                      \<lparr>cla = cla cmd AND 0xEF, ins = ins cmd, p1 = command_chain_p1 a2,
                       p2 = command_chain_p2 a2, cmd_data = command_chain_buffer a2, le = le cmd\<rparr>;
                    a3 = a2\<lparr>command_chain_buffer := [], command_chain_ins := None\<rparr> in
             Some (if ins complete_cmd = 0xDB then piv_handle_put_data a3 complete_cmd
                   else (response_error SW_INS_NOT_SUPPORTED, a3)))
      else piv_route X a cmd)"

end
