(* ===== verification/Piv_Session.thy ===== *)
theory Piv_Session
  imports Piv_Applet Command_Runs Demo_Env
begin

text \<open>
  Facts on the PIV applet over sequences of commands: what each command may change, an attacker
  without PIN and PUK, one without the management key, and the challenge-response protocol of the
  management key. The properties are at the end.
\<close>

section \<open>What a command may change\<close>

definition piv_core :: "piv_applet \<Rightarrow> piv_data_objects \<times> piv_security_state \<times> byte list option" where
  "piv_core a = (piv_objects a, piv_security a, current_challenge a)"

lemma piv_core_eqD:
  "piv_core a = piv_core b \<Longrightarrow> piv_objects a = piv_objects b \<and> piv_security a = piv_security b \<and>
     current_challenge a = current_challenge b"
  by (simp add: piv_core_def)

lemma piv_core_buffers [simp]:
  "piv_core (a\<lparr>command_chain_ins := i\<rparr>) = piv_core a" "piv_core (a\<lparr>command_chain_buffer := d\<rparr>) = piv_core a"
  "piv_core (a\<lparr>command_chain_p1 := p\<rparr>) = piv_core a" "piv_core (a\<lparr>command_chain_p2 := p\<rparr>) = piv_core a"
  "piv_core (a\<lparr>piv_response_buffer := d\<rparr>) = piv_core a" "piv_core (a\<lparr>piv_response_offset := n\<rparr>) = piv_core a"
  "piv_core (piv_start_chain a cmd) = piv_core a"
  by (simp_all add: piv_core_def piv_start_chain_def)

lemma piv_process_cases [consumes 1, case_names buffers put routed]:
  assumes "piv_process X a cmd = Some (r, b)"
    and "piv_core b = piv_core a \<Longrightarrow> P"
    and "\<And>s c. piv_core s = piv_core a \<Longrightarrow> b = snd (piv_handle_put_data s c) \<Longrightarrow> P"
    and "\<not> is_chained cmd \<Longrightarrow> command_chain_ins a = None \<Longrightarrow> piv_route X a cmd = Some (r, b) \<Longrightarrow> P"
  shows P
proof (cases "is_chained cmd \<or> command_chain_ins a \<noteq> None")
  case True
  let ?s = "(piv_start_chain a cmd)\<lparr>command_chain_buffer := [], command_chain_ins := None\<rparr>"
  have s: "piv_core ?s = piv_core a" by simp
  consider "piv_core b = piv_core a" | c where "b = snd (piv_handle_put_data ?s c)"
    using assms(1) True by (auto simp: piv_process_def Let_def split: if_splits dest!: sndI)
  then show ?thesis using assms(2) assms(3) [OF s] by cases auto
next
  case False
  with assms(1,4) show ?thesis by (simp add: piv_process_def)
qed

lemma piv_get_response_core: "piv_handle_get_response a cmd = Some (r, b) \<Longrightarrow> piv_core b = piv_core a"
  by (auto simp: piv_handle_get_response_def Let_def split: if_splits)

lemma piv_route_cases [consumes 1, case_names none select verify change reset put generate auth]:
  assumes "piv_route X a cmd = Some (r, b)"
    and "piv_core b = piv_core a \<Longrightarrow> P"
    and "b = snd (piv_handle_select a cmd) \<Longrightarrow> P"
    and "ins cmd = 0x20 \<Longrightarrow> b = snd (piv_handle_verify a cmd) \<Longrightarrow> P"
    and "ins cmd = 0x24 \<Longrightarrow> b = snd (piv_handle_change_reference_data a cmd) \<Longrightarrow> P"
    and "ins cmd = 0x2C \<Longrightarrow> b = snd (piv_handle_reset_retry_counter a cmd) \<Longrightarrow> P"
    and "b = snd (piv_handle_put_data a cmd) \<Longrightarrow> P"
    and "b = snd (piv_handle_generate_key X a cmd) \<Longrightarrow> P"
    and "ins cmd = 0x87 \<Longrightarrow> piv_handle_general_authenticate X a cmd = Some (r, b) \<Longrightarrow> P"
  shows P
  using assms(1) unfolding piv_route_def
  by (elim if_eqE) (use assms(2-) piv_get_response_core in auto)

lemma piv_handlers_frame:
  "piv_security (snd (piv_handle_change_reference_data a cmd)) = piv_security a"
  "piv_security (snd (piv_handle_reset_retry_counter a cmd)) = piv_security a"
  "piv_security (snd (piv_handle_put_data a cmd)) = piv_security a"
  "piv_security (snd (piv_handle_generate_key X a cmd)) = piv_security a"
  "mgmt_authenticated (piv_security (snd (piv_handle_verify a cmd))) = mgmt_authenticated (piv_security a)"
  "current_challenge (snd (piv_handle_verify a cmd)) = current_challenge a"
  "piv_objects (snd (piv_handle_select a cmd)) = piv_objects a"
  by (simp_all add: piv_handle_change_reference_data_def piv_handle_reset_retry_counter_def
      piv_handle_put_data_def piv_handle_generate_key_def piv_handle_verify_def piv_handle_select_def
      generate_rsa_key_def generate_ecc_key_def Let_def split_beta
      split: option.splits sum.splits piv_algorithm.splits prod.splits)

lemma piv_auth_effect:
  assumes "piv_handle_general_authenticate X a cmd = Some (r, b)"
  shows "piv_objects b = piv_objects a \<and> pin_verified (piv_security b) = pin_verified (piv_security a)"
  using assms
  by (auto simp: piv_handle_general_authenticate_def authenticate_mgmt_key_def Let_def
      split: if_splits option.splits sum.splits prod.splits)

section \<open>PIN and PUK\<close>

text \<open>The secrets with their counters, and the value a command presents for them.\<close>

definition piv_secrets :: "piv_data_objects \<Rightarrow> byte list \<times> byte list" where
  "piv_secrets d = (card_pin d, card_puk d)"

definition presents_pin :: "apdu \<Rightarrow> byte list option" where
  "presents_pin cmd =
     (if p2 cmd \<noteq> REF_PIV_PIN then None
      else if ins cmd = 0x20 then Some (strip_ff (cmd_data cmd))
      else if ins cmd = 0x24 then Some (strip_ff (take 8 (cmd_data cmd)))
      else None)"

definition presents_puk :: "apdu \<Rightarrow> byte list option" where
  "presents_puk cmd =
     (if ins cmd = 0x2C then Some (take 8 (cmd_data cmd))
      else if p2 cmd \<noteq> REF_PIV_PUK then None
      else if ins cmd = 0x20 then Some (cmd_data cmd)
      else if ins cmd = 0x24 then Some (strip_ff (take 8 (cmd_data cmd)))
      else None)"

text \<open>Without the right PIN and PUK nothing about them changes but that tries are used up.\<close>

definition not_more_tries :: "piv_data_objects \<Rightarrow> piv_data_objects \<Rightarrow> bool" where
  "not_more_tries d e \<longleftrightarrow> piv_secrets e = piv_secrets d \<and>
     unat (pin_retries e) \<le> unat (pin_retries d) \<and> unat (puk_retries e) \<le> unat (puk_retries d)"

lemma not_more_tries_refl [simp]: "not_more_tries d d"
  by (simp add: not_more_tries_def)

lemma not_more_tries_trans: "not_more_tries d e \<Longrightarrow> not_more_tries e f \<Longrightarrow> not_more_tries d f"
  by (simp add: not_more_tries_def)

lemma piv_retry_not_success [simp]: "resp_sw (piv_retry_response n) \<noteq> SW_SUCCESS"
  by (simp add: piv_retry_response_def SW_AUTH_METHOD_BLOCKED_def) (simp add: SW_SUCCESS_def)

lemma wrong_try:
  "p \<noteq> card_pin d \<Longrightarrow> \<not> fst (piv_try_pin p d) \<and> not_more_tries d (snd (piv_try_pin p d))"
  "p \<noteq> card_puk d \<Longrightarrow> \<not> fst (piv_try_puk p d) \<and> not_more_tries d (snd (piv_try_puk p d))"
  by (auto simp: piv_try_pin_def piv_try_puk_def not_more_tries_def piv_secrets_def)

lemma put_generate_tries:
  "not_more_tries (piv_objects a) (piv_objects (snd (piv_handle_put_data a cmd)))"
  "not_more_tries (piv_objects a) (piv_objects (snd (piv_handle_generate_key X a cmd)))"
proof -
  have "not_more_tries d e" if "piv_store_object i v d = Some e" for i v d e
    using that by (auto simp: piv_store_object_def not_more_tries_def piv_secrets_def split: if_splits)
  then show "not_more_tries (piv_objects a) (piv_objects (snd (piv_handle_put_data a cmd)))"
    by (simp add: piv_handle_put_data_def split: option.splits)
  show "not_more_tries (piv_objects a) (piv_objects (snd (piv_handle_generate_key X a cmd)))"
    by (auto simp: piv_handle_generate_key_def generate_rsa_key_def generate_ecc_key_def Let_def
        not_more_tries_def piv_secrets_def split: option.splits sum.splits piv_algorithm.splits)
qed

definition without_pin :: "'k env \<Rightarrow> piv_applet \<Rightarrow> apdu \<Rightarrow> bool" where
  "without_pin X a cmd \<longleftrightarrow>
     presents_pin cmd \<noteq> Some (card_pin (piv_objects a)) \<and> presents_puk cmd \<noteq> Some (card_puk (piv_objects a))"

lemma without_pin_handlers:
  assumes "without_pin X a cmd"
  shows "ins cmd = 0x20 \<Longrightarrow> \<not> pin_verified (piv_security a) \<Longrightarrow>
      not_more_tries (piv_objects a) (piv_objects (snd (piv_handle_verify a cmd))) \<and>
      \<not> pin_verified (piv_security (snd (piv_handle_verify a cmd)))"
    and "ins cmd = 0x24 \<Longrightarrow> not_more_tries (piv_objects a) (piv_objects (snd (piv_handle_change_reference_data a cmd)))"
    and "ins cmd = 0x2C \<Longrightarrow> not_more_tries (piv_objects a) (piv_objects (snd (piv_handle_reset_retry_counter a cmd)))"
proof -
  note ne = assms [unfolded without_pin_def presents_pin_def presents_puk_def]
  show "not_more_tries (piv_objects a) (piv_objects (snd (piv_handle_verify a cmd))) \<and>
      \<not> pin_verified (piv_security (snd (piv_handle_verify a cmd)))"
    if "ins cmd = 0x20" "\<not> pin_verified (piv_security a)"
    using ne that wrong_try(1) [of "strip_ff (cmd_data cmd)" "piv_objects a"]
      wrong_try(2) [of "cmd_data cmd" "piv_objects a"]
    by (auto simp: piv_handle_verify_def Let_def split_beta REF_defs)
  show "not_more_tries (piv_objects a) (piv_objects (snd (piv_handle_change_reference_data a cmd)))"
    if "ins cmd = 0x24"
    using ne that wrong_try [of "strip_ff (take 8 (cmd_data cmd))" "piv_objects a"]
    by (auto simp: piv_handle_change_reference_data_def Let_def split_beta REF_defs)
  show "not_more_tries (piv_objects a) (piv_objects (snd (piv_handle_reset_retry_counter a cmd)))"
    if "ins cmd = 0x2C"
    using ne that wrong_try(2) [of "take 8 (cmd_data cmd)" "piv_objects a"]
    by (auto simp: piv_handle_reset_retry_counter_def Let_def split_beta REF_defs)
qed

lemma without_pin_step:
  assumes "without_pin X a cmd" "piv_process X a cmd = Some (r, b)" "\<not> pin_verified (piv_security a)"
  shows "not_more_tries (piv_objects a) (piv_objects b) \<and> \<not> pin_verified (piv_security b)"
  using assms(2)
proof (cases rule: piv_process_cases)
  case buffers
  with assms(3) show ?thesis by (auto dest: piv_core_eqD)
next
  case (put s c)
  then show ?thesis
    using assms(3) put_generate_tries(1) [of s c] piv_handlers_frame(3) [of s c] by (auto dest!: piv_core_eqD)
next
  case routed
  from routed(3) show ?thesis
  proof (cases rule: piv_route_cases)
    case none
    with assms(3) show ?thesis by (auto dest: piv_core_eqD)
  next
    case select
    with assms(3) show ?thesis by (simp add: piv_handlers_frame) (simp add: piv_handle_select_def)
  next
    case auth
    with piv_auth_effect [OF auth(2)] assms(3) show ?thesis by simp
  qed (use assms(3) without_pin_handlers [OF assms(1)] put_generate_tries in \<open>simp_all add: piv_handlers_frame\<close>)
qed

abbreviation piv_reachable ::
  "('k env \<Rightarrow> piv_applet \<Rightarrow> apdu \<Rightarrow> bool) \<Rightarrow> piv_applet \<Rightarrow> piv_applet \<Rightarrow> bool" where
  "piv_reachable \<equiv> cmd_reach piv_process"

lemma without_pin_reachable:
  assumes "piv_reachable without_pin a b" "\<not> pin_verified (piv_security a)"
  shows "not_more_tries (piv_objects a) (piv_objects b) \<and> \<not> pin_verified (piv_security b)"
  by (rule cmd_reach_keeps [OF assms(1)]) (auto simp: assms(2) dest: without_pin_step intro: not_more_tries_trans)

section \<open>The management key\<close>

text \<open>Everything that only the card manager may write: all objects but the PIN, the PUK and the counters.\<close>

definition piv_managed :: "piv_data_objects \<Rightarrow> piv_data_objects" where
  "piv_managed d = d\<lparr>card_pin := [], card_puk := [], pin_retries := 0, puk_retries := 0\<rparr>"

definition piv_tags :: "apdu \<Rightarrow> tag_map" where
  "piv_tags cmd = auth_tags (if length (cmd_data cmd) > 2 then drop 2 (cmd_data cmd) else []) 0 Map.empty"

definition without_witness :: "'k env \<Rightarrow> piv_applet \<Rightarrow> apdu \<Rightarrow> bool" where
  "without_witness X a cmd \<longleftrightarrow>
     (ins cmd = 0x87 \<and> p2 cmd = REF_MGMT_KEY \<longrightarrow>
        pred_option (\<lambda>w. piv_tags cmd 0x80 \<noteq> Some w) (current_challenge a))"

lemma managed_tries [simp]:
  "piv_managed (snd (piv_try_pin p d)) = piv_managed d" "piv_managed (snd (piv_try_puk p d)) = piv_managed d"
  "piv_managed (d\<lparr>card_pin := q\<rparr>) = piv_managed d" "piv_managed (d\<lparr>card_puk := q\<rparr>) = piv_managed d"
  "piv_managed (d\<lparr>pin_retries := n\<rparr>) = piv_managed d"
  by (simp_all add: piv_managed_def piv_try_pin_def piv_try_puk_def)

lemma managed_pin_handlers:
  "piv_managed (piv_objects (snd (piv_handle_verify a cmd))) = piv_managed (piv_objects a)"
  "piv_managed (piv_objects (snd (piv_handle_change_reference_data a cmd))) = piv_managed (piv_objects a)"
  "piv_managed (piv_objects (snd (piv_handle_reset_retry_counter a cmd))) = piv_managed (piv_objects a)"
  by (simp_all add: piv_handle_verify_def piv_handle_change_reference_data_def
      piv_handle_reset_retry_counter_def Let_def split_beta)

lemma managed_denied:
  "\<not> mgmt_authenticated (piv_security a) \<Longrightarrow> snd (piv_handle_put_data a cmd) = a"
  "\<not> mgmt_authenticated (piv_security a) \<Longrightarrow> snd (piv_handle_generate_key X a cmd) = a"
  by (simp_all add: piv_handle_put_data_def piv_handle_generate_key_def)

lemma auth_without_witness:
  assumes "without_witness X a cmd" "ins cmd = 0x87" "piv_handle_general_authenticate X a cmd = Some (r, b)"
    and "\<not> mgmt_authenticated (piv_security a)"
  shows "\<not> mgmt_authenticated (piv_security b)"
proof (cases "p2 cmd = REF_MGMT_KEY")
  case True
  then have "b = a \<or> b = snd (authenticate_mgmt_key X a (piv_tags cmd))"
    using assms(3) by (auto simp: piv_handle_general_authenticate_def piv_tags_def Let_def split: if_splits)
  moreover have "\<not> mgmt_authenticated (piv_security (snd (authenticate_mgmt_key X a (piv_tags cmd))))"
    using assms(1,2,4) True
    by (auto simp: without_witness_def authenticate_mgmt_key_def Let_def split: option.splits sum.splits)
  ultimately show ?thesis using assms(4) by blast
next
  case False
  then show ?thesis
    using assms(3,4) by (auto simp: piv_handle_general_authenticate_def Let_def split: if_splits option.splits)
qed

lemma without_witness_step:
  assumes "without_witness X a cmd" "piv_process X a cmd = Some (r, b)" "\<not> mgmt_authenticated (piv_security a)"
  shows "piv_managed (piv_objects b) = piv_managed (piv_objects a) \<and> \<not> mgmt_authenticated (piv_security b)"
  using assms(2)
proof (cases rule: piv_process_cases)
  case buffers
  with assms(3) show ?thesis by (auto dest: piv_core_eqD)
next
  case (put s c)
  then show ?thesis using assms(3) managed_denied(1) [of s c] by (auto dest!: piv_core_eqD)
next
  case routed
  from routed(3) show ?thesis
  proof (cases rule: piv_route_cases)
    case none
    with assms(3) show ?thesis by (auto dest: piv_core_eqD)
  next
    case select
    with assms(3) show ?thesis by (simp add: piv_handlers_frame) (simp add: piv_handle_select_def)
  next
    case auth
    with piv_auth_effect [OF auth(2)] auth_without_witness [OF assms(1) auth assms(3)] show ?thesis by simp
  next
    case generate
    with managed_denied(2) [OF assms(3), of X cmd] assms(3) show ?thesis by (simp only: not_False_eq_True simp_thms)
  qed (use assms(3) managed_denied(1) [OF assms(3)] in \<open>simp_all add: managed_pin_handlers piv_handlers_frame\<close>)
qed

lemma without_witness_reachable:
  assumes "piv_reachable without_witness a b" "\<not> mgmt_authenticated (piv_security a)"
  shows "piv_managed (piv_objects b) = piv_managed (piv_objects a) \<and> \<not> mgmt_authenticated (piv_security b)"
  by (rule cmd_reach_keeps [OF assms(1)]) (auto simp: assms(2) dest: without_witness_step)

section \<open>The protocol of the management key\<close>

definition auth_cmd :: "byte \<Rightarrow> byte list \<Rightarrow> apdu" where
  "auth_cmd ref d = \<lparr>cla = 0, ins = 0x87, p1 = 0x03, p2 = ref, cmd_data = d, le = Some 256\<rparr>"

text \<open>Tags with one-byte lengths are read in order.\<close>

fun auth_entries :: "(byte \<times> byte list) list \<Rightarrow> byte list" where
  "auth_entries [] = []"
| "auth_entries ((t, v) # es) = t # of_nat (length v) # v @ auth_entries es"

lemma auth_tags_entries:
  assumes "list_all (\<lambda>(t, v). length v < 256) es"
  shows "auth_tags (pre @ auth_entries es) (length pre) tags = fold (\<lambda>(t, v) m. m(t \<mapsto> v)) es tags"
  using assms
proof (induction es arbitrary: pre tags)
  case (Cons e es)
  obtain t v where e: "e = (t, v)" by force
  have "auth_tags (pre @ auth_entries (e # es)) (length pre) tags =
      auth_tags ((pre @ t # of_nat (length v) # v) @ auth_entries es)
        (length (pre @ t # of_nat (length v) # v)) (tags(t \<mapsto> v))"
    using Cons.prems by (subst auth_tags.simps) (simp add: e nth_append unat_of_nat_u8 Let_def)
  also have "\<dots> = fold (\<lambda>(t, v) m. m(t \<mapsto> v)) es (tags(t \<mapsto> v))"
    using Cons.prems by (intro Cons.IH) simp
  finally show ?case by (simp only: e fold_simps split_conv)
qed (simp add: auth_tags.simps)

lemma piv_tags_entries:
  assumes "list_all (\<lambda>(t, v). length v < 256) es" "es \<noteq> []"
  shows "piv_tags (auth_cmd ref (0x7C # l # auth_entries es)) = fold (\<lambda>(t, v) m. m(t \<mapsto> v)) es Map.empty"
  using auth_tags_entries [OF assms(1), of "[]" Map.empty] assms(2)
  by (cases es) (auto simp: piv_tags_def auth_cmd_def)

lemma auth_cmd_process:
  assumes "command_chain_ins a = None"
  shows "piv_process X a (auth_cmd REF_MGMT_KEY (0x7C # d)) =
    Some (authenticate_mgmt_key X a (piv_tags (auth_cmd REF_MGMT_KEY (0x7C # d))))"
  using assms
  by (simp add: piv_process_def auth_cmd_def is_chained_def piv_route_def
      piv_handle_general_authenticate_def piv_tags_def Let_def)

text \<open>A host that knows the key decrypts the witness, is authenticated, and can check the card.\<close>

lemma mgmt_protocol:
  assumes laws: "tdes_laws X" "length (rand_bytes X 8) = 8"
    and key: "length (management_key (piv_objects a)) = 24" and ch: "length challenge = 8"
    and idle: "command_chain_ins a = None"
  defines "k \<equiv> management_key (piv_objects a)"
  shows "\<exists>enc a1 a2.
    piv_process X a (auth_cmd REF_MGMT_KEY [0x7C, 0x02, 0x80, 0x00]) =
      Some (response_success ([0x7C, 0x0A, 0x80, 0x08] @ enc), a1) \<and>
    piv_process X a1 (auth_cmd REF_MGMT_KEY
        ([0x7C, 0x14] @ auth_entries [(0x80, tdes_decrypt X k enc), (0x81, challenge)])) =
      Some (response_success ([0x7C, 0x0A, 0x82, 0x08] @ tdes_encrypt X k challenge), a2) \<and>
    mgmt_authenticated (piv_security a2) \<and> piv_objects a2 = piv_objects a"
proof -
  define w where "w = rand_bytes X 8"
  have one: "tdes_encrypt_ecb X k d = Ok (tdes_encrypt X k d)" if "length d = 8" for d
    using that key chunks8_append [of d "[]"] by (simp add: tdes_encrypt_ecb_def KEY_SIZE_def BLOCK_SIZE_def k_def)
  have dec: "tdes_decrypt X k (tdes_encrypt X k w) = w"
    using laws by (simp add: tdes_laws_def w_def)
  let ?a1 = "a\<lparr>current_challenge := Some w\<rparr>"
  let ?c1 = "auth_cmd REF_MGMT_KEY [0x7C, 0x02, 0x80, 0x00]"
  let ?c2 = "auth_cmd REF_MGMT_KEY ([0x7C, 0x14] @ auth_entries [(0x80, w), (0x81, challenge)])"
  have t1: "piv_tags ?c1 = [0x80 \<mapsto> []]"
    using piv_tags_entries [of "[(0x80, [])]" REF_MGMT_KEY 2] by simp
  have t2: "piv_tags ?c2 = [0x80 \<mapsto> w, 0x81 \<mapsto> challenge]"
    using piv_tags_entries [of "[(0x80, w), (0x81, challenge)]" REF_MGMT_KEY "0x14"] laws(2) ch
    by (simp add: w_def)
  have s1: "piv_process X a ?c1 =
      Some (response_success ([0x7C, 0x0A, 0x80, 0x08] @ tdes_encrypt X k w), ?a1)"
    using auth_cmd_process [OF idle, of X "[2, 0x80, 0]"] t1 one [of w] laws(2)
    by (simp add: authenticate_mgmt_key_def k_def w_def Let_def)
  have "w \<noteq> []" using laws(2) by (auto simp: w_def)
  then have "piv_process X ?a1 ?c2 = Some (response_success ([0x7C, 0x0A, 0x82, 0x08] @ tdes_encrypt X k challenge),
      ?a1\<lparr>piv_security := set_management_key_authenticated True (piv_security a), current_challenge := None\<rparr>)"
    using auth_cmd_process [of ?a1 X "0x14 # auth_entries [(0x80, w), (0x81, challenge)]"] idle t2 one [OF ch]
    by (simp add: authenticate_mgmt_key_def k_def)
  with s1 show ?thesis
    by (intro exI conjI) (assumption, simp add: dec, simp_all)
qed

section \<open>PUT DATA then GET DATA\<close>

definition put_object_data :: "byte list \<Rightarrow> byte list \<Rightarrow> byte list" where
  "put_object_data object_id v = [0x5C, of_nat (length object_id)] @ object_id @ tlv_encode 0x53 v"

definition piv_object_ids :: "byte list list" where
  "piv_object_ids = [[0x5F, 0xC1, 0x02], [0x5F, 0xC1, 0x07], [0x5F, 0xC1, 0x05], [0x5F, 0xC1, 0x0A],
     [0x5F, 0xC1, 0x0B], [0x5F, 0xC1, 0x01], [0x7E]]"

lemma parse_object_id_put:
  "length i < 256 \<Longrightarrow> parse_object_id ([0x5C, of_nat (length i)] @ i @ rest) = Some (i, rest)"
  by (simp add: parse_object_id_def unat_of_nat_u8 Let_def)

lemma of_nat_byte_neq: "n < 128 \<Longrightarrow> 128 \<le> m \<Longrightarrow> m < 256 \<Longrightarrow> (of_nat n :: byte) \<noteq> of_nat m"
  by (auto simp: word_unat_eq_iff unat_of_nat_u8)

lemma parse_object_data_tlv:
  assumes "length v < 65536"
  shows "parse_object_data (tlv_encode 0x53 v) = Some v"
proof -
  have tag: "encode_tag 0x53 = [0x53]" by (simp add: encode_tag_def)
  have short: "(of_nat (length v) :: byte) \<noteq> 0x82 \<and> (of_nat (length v) :: byte) \<noteq> 0x81" if "length v < 128"
    using of_nat_byte_neq [OF that, of 130] of_nat_byte_neq [OF that, of 129] by simp
  have long: "unat (of_nat (length v div 256) :: byte) * 256 + unat (of_nat (length v mod 256) :: byte) = length v"
    using assms by (simp add: unat_of_nat_u8)
  consider "length v < 128" | "128 \<le> length v" "length v < 256" | "256 \<le> length v" by linarith
  then show ?thesis
    using assms short long
    by cases (simp_all add: parse_object_data_def tlv_encode_def tag encode_length_def unat_of_nat_u8)
qed

lemma piv_store_then_read:
  assumes "i \<in> set piv_object_ids"
  shows "\<exists>e. piv_store_object i v d = Some e \<and> piv_object i e = Some v"
  using assms by (auto simp: piv_object_ids_def piv_store_object_def piv_object_def)

section \<open>RSA keys in a slot\<close>

text \<open>The stored public key is the 7F49 template, whose first bytes are read as a modulus length.\<close>

lemma template_has_no_modulus:
  assumes "length (tlv_encode 0x7F49 c) < 32587"
  shows "get_modulus (tlv_encode 0x7F49 c) = None"
proof -
  have "encode_tag 0x7F49 = [0x7F, 0x49]" by (simp add: encode_tag_def)
  moreover have "unat (from_be16 0x7F 0x49) = 32585" by (simp add: unat_from_be16)
  ultimately show ?thesis
    using assms by (auto simp: get_modulus_def tlv_encode_def Let_def)
qed

lemma generated_rsa_unusable:
  assumes "generate_rsa_key X a slot bits = (response_success pub, b)" "length pub < 32587"
    and "piv_get_key slot (piv_objects b) = Some k"
  shows "piv_sign_data X k d = Some (response_error SW_EXEC_ERROR) \<and>
    piv_decrypt_data X k d = Some (response_error SW_EXEC_ERROR)"
proof -
  have ne: "response_error SW_EXEC_ERROR \<noteq> response_success p" for p
    by (simp add: response_error_def response_success_def response_new_def SW_defs)
  from assms(1) obtain c f where f: "b = with_objects (piv_update_key slot f (piv_objects a)) a"
    "pub = tlv_encode 0x7F49 c" "\<And>k. pk_public (f k) = pub \<and> pk_algorithm (f k) = piv_alg_byte RSA2048"
    by (auto simp: generate_rsa_key_def builder_defs Let_def ne split: sum.splits prod.splits)
  have "pk_public k = pub \<and> pk_algorithm k = piv_alg_byte RSA2048"
    using assms(3) f by (auto simp: piv_get_update)
  then show ?thesis
    using template_has_no_modulus [of c] assms(2) f(2)
    by (simp add: piv_sign_data_def piv_decrypt_data_def piv_rsa_key_def)
qed

section \<open>The response buffer is never filled\<close>

lemma put_generate_buffer [simp]:
  "piv_response_buffer (snd (piv_handle_put_data a cmd)) = piv_response_buffer a"
  "piv_response_buffer (snd (piv_handle_generate_key X a cmd)) = piv_response_buffer a"
  by (simp_all add: piv_handle_put_data_def piv_handle_generate_key_def generate_rsa_key_def
      generate_ecc_key_def Let_def split: option.splits sum.splits piv_algorithm.splits)

lemma pin_handlers_buffer [simp]:
  "piv_response_buffer (snd (piv_handle_select a cmd)) = piv_response_buffer a"
  "piv_response_buffer (snd (piv_handle_verify a cmd)) = piv_response_buffer a"
  "piv_response_buffer (snd (piv_handle_change_reference_data a cmd)) = piv_response_buffer a"
  "piv_response_buffer (snd (piv_handle_reset_retry_counter a cmd)) = piv_response_buffer a"
  by (simp_all add: piv_handle_select_def piv_handle_verify_def piv_handle_change_reference_data_def
      piv_handle_reset_retry_counter_def Let_def split_beta)

lemma auth_buffer:
  "piv_handle_general_authenticate X a cmd = Some (r, b) \<Longrightarrow> piv_response_buffer b = piv_response_buffer a"
  by (auto simp: piv_handle_general_authenticate_def authenticate_mgmt_key_def Let_def
      split: if_splits option.splits sum.splits prod.splits)

lemma piv_buffer_step:
  assumes "piv_process X a cmd = Some (r, b)" "piv_response_buffer a = []"
  shows "piv_response_buffer b = []"
proof -
  have route: "piv_response_buffer b = []" if "piv_route X a cmd = Some (r, b)"
    using that assms(2) unfolding piv_route_def
    by (elim if_eqE) (auto simp: piv_handle_get_response_def dest: auth_buffer dest!: sndI)
  show ?thesis
    using assms route
    by (auto simp: piv_process_def piv_start_chain_def Let_def split: if_splits dest!: sndI)
qed

lemma piv_buffer_reachable:
  "piv_reachable C a b \<Longrightarrow> piv_response_buffer a = [] \<Longrightarrow> piv_response_buffer b = []"
  by (erule cmd_reach_keeps) (auto dest: piv_buffer_step)

section \<open>Demonstration applets\<close>

definition demo_piv :: piv_applet where
  "demo_piv = piv_new demo_env"

definition demo_manager :: piv_applet where
  "demo_manager = demo_piv\<lparr>piv_security := set_management_key_authenticated True piv_security_new\<rparr>"

lemma demo_piv_simps [simp]:
  "piv_objects demo_piv = piv_objects_new" "piv_security demo_piv = piv_security_new"
  "command_chain_ins demo_piv = None" "current_challenge demo_piv = None" "piv_response_buffer demo_piv = []"
  "piv_objects demo_manager = piv_objects_new" "mgmt_authenticated (piv_security demo_manager)"
  "command_chain_ins demo_manager = None"
  by (simp_all add: demo_piv_def demo_manager_def piv_new_def Let_def)

section \<open>Properties\<close>

text \<open>
  A sequence of commands that never presents the right PIN or PUK leaves the PIN unverified, PIN
  and PUK as they were, and never gives back a try.
\<close>

theorem piv_pin_survives_guessing:
  assumes "piv_reachable without_pin a b" "\<not> pin_verified (piv_security a)"
  shows "\<not> pin_verified (piv_security b) \<and> card_pin (piv_objects b) = card_pin (piv_objects a) \<and>
    card_puk (piv_objects b) = card_puk (piv_objects a) \<and>
    unat (pin_retries (piv_objects b)) \<le> unat (pin_retries (piv_objects a)) \<and>
    unat (puk_retries (piv_objects b)) \<le> unat (puk_retries (piv_objects a))"
  using without_pin_reachable [OF assms] by (simp add: not_more_tries_def piv_secrets_def)

abbreviation piv_guess :: apdu where
  "piv_guess \<equiv> \<lparr>cla = 0, ins = 0x20, p1 = 0, p2 = 0x80, cmd_data = [0x39, 0xFF], le = None\<rparr>"

lemma demo_guess:
  "piv_process demo_env demo_piv piv_guess =
     Some (response_counter_warning 2, with_objects (piv_objects_new\<lparr>pin_retries := 2\<rparr>) demo_piv)"
  "without_pin demo_env demo_piv piv_guess"
  by (simp_all add: piv_process_def is_chained_def piv_route_def piv_handle_verify_def REF_defs strip_ff_def
      piv_try_pin_def piv_objects_new_def DEFAULT_PIN_def saturating_dec_def piv_retry_response_def Let_def
      without_pin_def presents_pin_def presents_puk_def)

theorem piv_pin_survives_guessing_witness:
  "\<exists>r b. piv_process demo_env demo_piv piv_guess = Some (r, b) \<and> \<not> pin_verified (piv_security b) \<and>
     card_pin (piv_objects b) = DEFAULT_PIN"
proof -
  have "piv_reachable (without_pin :: demo_key env \<Rightarrow> _) demo_piv (with_objects (piv_objects_new\<lparr>pin_retries := 2\<rparr>) demo_piv)"
    by (rule cmd_reach_one [where P = piv_process and C = without_pin, OF demo_guess(2) demo_guess(1)])
  from piv_pin_survives_guessing [OF this] demo_guess(1) show ?thesis
    by (simp add: piv_objects_new_def)
qed

text \<open>
  C24: a sequence of commands that never answers the pending challenge leaves the management key
  unauthenticated and everything it protects (certificates, keys, data objects, the key itself) as
  it was.
\<close>

theorem piv_objects_need_management_key:
  assumes "piv_reachable without_witness a b" "\<not> mgmt_authenticated (piv_security a)"
  shows "\<not> mgmt_authenticated (piv_security b) \<and> piv_managed (piv_objects b) = piv_managed (piv_objects a)"
  using without_witness_reachable [OF assms] by blast

theorem piv_objects_need_management_key_witness:
  "\<exists>r b. piv_process demo_env demo_piv piv_guess = Some (r, b) \<and> \<not> mgmt_authenticated (piv_security b)"
proof -
  have "without_witness demo_env demo_piv piv_guess" by (simp add: without_witness_def)
  then have "piv_reachable (without_witness :: demo_key env \<Rightarrow> _) demo_piv (with_objects (piv_objects_new\<lparr>pin_retries := 2\<rparr>) demo_piv)"
    using demo_guess(1) by (rule cmd_reach_one [where P = piv_process and C = without_witness])
  from piv_objects_need_management_key [OF this] demo_guess(1) show ?thesis by simp
qed

text \<open>
  C25: the challenge-response protocol of the management key completes: a host that asks for a
  witness, decrypts it with the key and sends it back with a challenge of its own is authenticated,
  and receives its challenge encrypted under the key.
\<close>

theorem management_key_protocol:
  assumes "tdes_laws X" "length (rand_bytes X 8) = 8" "length (management_key (piv_objects a)) = 24"
    and "length challenge = 8" "command_chain_ins a = None"
  shows "\<exists>enc a1 a2.
    piv_process X a (auth_cmd REF_MGMT_KEY [0x7C, 0x02, 0x80, 0x00]) =
      Some (response_success ([0x7C, 0x0A, 0x80, 0x08] @ enc), a1) \<and>
    piv_process X a1 (auth_cmd REF_MGMT_KEY ([0x7C, 0x14] @
        auth_entries [(0x80, tdes_decrypt X (management_key (piv_objects a)) enc), (0x81, challenge)])) =
      Some (response_success ([0x7C, 0x0A, 0x82, 0x08] @
        tdes_encrypt X (management_key (piv_objects a)) challenge), a2) \<and>
    mgmt_authenticated (piv_security a2) \<and> piv_objects a2 = piv_objects a"
  by (rule mgmt_protocol [OF assms])

theorem management_key_protocol_witness:
  "\<exists>a1 r a2. piv_process demo_env demo_piv (auth_cmd REF_MGMT_KEY [0x7C, 0x02, 0x80, 0x00]) = Some (r, a1) \<and>
     (\<exists>c r'. piv_process demo_env a1 c = Some (r', a2) \<and> mgmt_authenticated (piv_security a2))"
proof -
  have "length (management_key (piv_objects demo_piv)) = 24"
    by (simp add: piv_objects_new_def DEFAULT_MGMT_KEY_def)
  from management_key_protocol [of demo_env demo_piv "[1, 2, 3, 4, 5, 6, 7, 8]", OF _ _ this]
  show ?thesis by fastforce
qed

text \<open>C26: what PUT DATA stores with the management key authenticated, GET DATA returns, wrapped in tag 53.\<close>

theorem piv_put_then_get:
  assumes "i \<in> set piv_object_ids" "v \<noteq> []" "length v < 65536"
    and "mgmt_authenticated (piv_security a)" "command_chain_ins a = None"
  shows "\<exists>b. piv_process X a \<lparr>cla = 0, ins = 0xDB, p1 = 0x3F, p2 = 0xFF,
      cmd_data = put_object_data i v, le = None\<rparr> = Some (response_ok, b) \<and>
    piv_process Y b \<lparr>cla = 0, ins = 0xCB, p1 = 0x3F, p2 = 0xFF,
      cmd_data = [0x5C, of_nat (length i)] @ i, le = Some 256\<rparr> =
      Some (response_success (tlv_encode 0x53 v), b)"
proof -
  have i: "length i < 256" using assms(1) by (auto simp: piv_object_ids_def)
  obtain e where e: "piv_store_object i v (piv_objects a) = Some e" "piv_object i e = Some v"
    using piv_store_then_read [OF assms(1)] by blast
  have "parse_object_id (put_object_data i v) = Some (i, tlv_encode 0x53 v)"
    using parse_object_id_put [OF i] by (simp add: put_object_data_def)
  moreover have "parse_object_id (0x5C # of_nat (length i) # i) = Some (i, [])"
    using parse_object_id_put [OF i, of "[]"] by simp
  ultimately show ?thesis
    using assms e
    by (simp add: piv_process_def is_chained_def piv_route_def piv_handle_put_data_def
        piv_handle_get_data_def parse_object_data_tlv)
qed

theorem piv_put_then_get_witness:
  "\<exists>b. piv_process demo_env demo_manager \<lparr>cla = 0, ins = 0xDB, p1 = 0x3F, p2 = 0xFF,
      cmd_data = put_object_data [0x7E] [1, 2, 3], le = None\<rparr> = Some (response_ok, b) \<and>
    piv_process demo_env b \<lparr>cla = 0, ins = 0xCB, p1 = 0x3F, p2 = 0xFF, cmd_data = [0x5C, 1, 0x7E], le = Some 256\<rparr> =
      Some (response_success (tlv_encode 0x53 [1, 2, 3]), b)"
  using piv_put_then_get [of "[0x7E]" "[1, 2, 3]" demo_manager demo_env demo_env]
  by (simp add: piv_object_ids_def)

text \<open>
  C40: a generated RSA key cannot be used: its public half is stored as the 7F49 template, which the
  signature and decryption commands read as the length-prefixed encoding; they answer 6400 for every
  input.
\<close>

theorem piv_rsa_key_never_signs:
  assumes "generate_rsa_key X a slot bits = (response_success pub, b)" "length pub < 32587"
    and "piv_get_key slot (piv_objects b) = Some k"
  shows "piv_sign_data X k d = Some (response_error SW_EXEC_ERROR) \<and>
    piv_decrypt_data X k d = Some (response_error SW_EXEC_ERROR)"
  by (rule generated_rsa_unusable [OF assms])

lemma demo_rsa_public:
  "get_modulus (lp_enc (demo_digits 3233) @ lp_enc (demo_digits 17)) = Some (demo_digits 3233)"
  "get_exponent (lp_enc (demo_digits 3233) @ lp_enc (demo_digits 17)) = Some (demo_digits 17)"
proof -
  have l: "length (demo_digits 3233) < 65536" "length (demo_digits 17) < 65536"
    using length_demo_digits [of 3233] length_demo_digits [of 17] by simp_all
  show "get_modulus (lp_enc (demo_digits 3233) @ lp_enc (demo_digits 17)) = Some (demo_digits 3233)"
    using get_modulus_lp [OF l(1), of "demo_digits 17" "[]"] by simp
  show "get_exponent (lp_enc (demo_digits 3233) @ lp_enc (demo_digits 17)) = Some (demo_digits 17)"
    using get_exponent_lp [OF l, of "[]"] by simp
qed

theorem piv_rsa_key_never_signs_witness:
  "\<exists>pub b k. generate_rsa_key demo_env demo_manager DigitalSignature 2048 = (response_success pub, b) \<and>
     piv_get_key DigitalSignature (piv_objects b) = Some k \<and>
     piv_sign_data demo_env k [1, 2, 3] = Some (response_error SW_EXEC_ERROR)"
proof -
  have k: "rsa_n demo_env (3233, 17, 2753, [61, 53]) = 3233" "rsa_e demo_env (3233, 17, 2753, [61, 53]) = 17"
    "rsa_primes demo_env (3233, 17, 2753, [61, 53]) = [61, 53]"
    by (simp_all add: demo_env_def)
  let ?pub = "tlv_encode 0x7F49 (tlv_encode 0x81 (demo_digits 3233) @ tlv_encode 0x82 (demo_digits 17))"
  obtain b where b: "generate_rsa_key demo_env demo_manager DigitalSignature 2048 = (response_success ?pub, b)"
    "piv_get_key DigitalSignature (piv_objects b) \<noteq> None"
    by (simp add: generate_rsa_key_def rsa_generate_keypair_def encode_private_key_def k encode_public_key_lp
        demo_rsa_public builder_defs piv_get_update Let_def) (simp add: piv_get_key_def)
  have "length ?pub < 32587"
    using length_demo_digits [of 3233] length_demo_digits [of 17]
    by (simp add: tlv_encode_def encode_tag_def encode_length_def)
  from piv_rsa_key_never_signs [OF b(1) this] b show ?thesis by blast
qed

text \<open>
  A PUK that is not eight bytes long can never reset the PIN: CHANGE REFERENCE DATA strips the FF
  padding of a new PUK, RESET RETRY COUNTER compares all eight bytes.
\<close>

theorem short_puk_cannot_unblock:
  assumes "length (card_puk (piv_objects a)) \<noteq> 8"
  shows "resp_sw (fst (piv_handle_reset_retry_counter a cmd)) \<noteq> SW_SUCCESS \<and>
    card_pin (piv_objects (snd (piv_handle_reset_retry_counter a cmd))) = card_pin (piv_objects a)"
proof -
  have "\<not> fst (piv_try_puk (take 8 (cmd_data cmd)) d) \<and> card_pin (snd (piv_try_puk (take 8 (cmd_data cmd)) d)) = card_pin d"
    if "card_puk d = card_puk (piv_objects a)" "length (cmd_data cmd) = 16" for d
  proof -
    have "take 8 (cmd_data cmd) \<noteq> card_puk d"
      using that assms by (auto dest: arg_cong [where f = length])
    then show ?thesis by (simp add: piv_try_puk_def)
  qed
  moreover have not_success: "SW_WRONG_P1_P2 \<noteq> SW_SUCCESS" "SW_WRONG_LENGTH \<noteq> SW_SUCCESS"
    by (simp_all add: SW_defs)
  ultimately show ?thesis
    using not_success by (auto simp: piv_handle_reset_retry_counter_def Let_def split_beta)
qed

theorem short_puk_cannot_unblock_witness:
  "\<exists>a r. piv_handle_change_reference_data demo_piv
       \<lparr>cla = 0, ins = 0x24, p1 = 0, p2 = 0x81, cmd_data = DEFAULT_PUK @ [1, 2, 3, 4, 5, 6, 0xFF, 0xFF], le = None\<rparr> =
       (response_ok, a) \<and>
     resp_sw (fst (piv_handle_reset_retry_counter a
       \<lparr>cla = 0, ins = 0x2C, p1 = 0, p2 = 0x80, cmd_data = [1, 2, 3, 4, 5, 6, 0xFF, 0xFF] @ replicate 8 0x31,
        le = None\<rparr>)) \<noteq> SW_SUCCESS"
proof -
  let ?a = "with_objects (piv_objects_new\<lparr>card_puk := [1, 2, 3, 4, 5, 6]\<rparr>) demo_piv"
  have "piv_handle_change_reference_data demo_piv
       \<lparr>cla = 0, ins = 0x24, p1 = 0, p2 = 0x81, cmd_data = DEFAULT_PUK @ [1, 2, 3, 4, 5, 6, 0xFF, 0xFF], le = None\<rparr> =
       (response_ok, ?a)"
    by (simp add: piv_handle_change_reference_data_def piv_try_puk_def piv_objects_new_def DEFAULT_PUK_def
        strip_ff_def REF_defs Let_def)
  moreover have "length (card_puk (piv_objects ?a)) \<noteq> 8" by simp
  ultimately show ?thesis using short_puk_cannot_unblock [of ?a] by blast
qed

end
