(* ===== verification/Atr.thy ===== *)
theory Atr
  imports Jc_Prelude
begin

text \<open>Answer to reset (\<open>src/card/atr.rs\<close>, \<open>src/nitrokey/atr.rs\<close>).\<close>

definition DEFAULT_ATR :: "byte list" where
  "DEFAULT_ATR = [0x3B, 0x88, 0x01, 0x00, 0x73, 0x00, 0x00, 0xE0, 0x05, 0x90, 0x00, 0x8F]"

definition SIMPLE_ATR :: "byte list" where
  "SIMPLE_ATR = [0x3B, 0x80, 0x80, 0x01, 0x01]"

definition xor_all :: "byte list \<Rightarrow> byte" where
  "xor_all bs = foldl (\<lambda>acc b. acc XOR b) 0 bs"

definition build_atr :: "byte list \<Rightarrow> byte list" where
  "build_atr historical_bytes =
     (let hist_len = (of_nat (min (length historical_bytes) 15) :: byte);
          atr = [0x3B] @ [0x80 OR hist_len] @ [0x01] @ take (unat hist_len) historical_bytes;
          tck = xor_all (drop 1 atr) in
      atr @ [tck])"

definition create_openpgp_atr :: "byte list" where
  "create_openpgp_atr = build_atr [0x00, 0x73, 0x00, 0x00, 0xE0, 0x05, 0x90, 0x00]"

definition NITROKEY3_ATR :: "byte list" where
  "NITROKEY3_ATR =
     [0x3B, 0x8F, 0x01, 0x80, 0x5D, 0x4E, 0x69, 0x74, 0x72, 0x6F, 0x6B, 0x65, 0x79,
      0x00, 0x00, 0x00, 0x00, 0x00, 0x6A]"

lemma xor_foldl: "foldl (\<lambda>acc b. acc XOR b) a bs = a XOR xor_all bs"
proof (induction bs rule: rev_induct)
  case (snoc b bs)
  then show ?case by (simp add: xor_all_def xor.assoc)
qed (simp add: xor_all_def)

lemma xor_all_append: "xor_all (bs @ cs) = xor_all bs XOR xor_all cs"
  by (simp add: xor_all_def xor_foldl [of "foldl (\<lambda>acc b. acc XOR b) 0 bs" cs, unfolded xor_all_def])

lemma hist_len: "unat (of_nat (min n 15) :: byte) = min n 15"
  by (simp add: unat_of_nat_u8)

text \<open>The check byte makes the exclusive or from T0 on zero; the low nibble of T0 counts the historical bytes.\<close>

lemma build_atr_check: "xor_all (drop 1 (build_atr h)) = 0"
proof -
  define body where "body = [0x80 OR (of_nat (min (length h) 15) :: byte), 0x01] @ take (min (length h) 15) h"
  have b: "build_atr h = 0x3B # body @ [xor_all body]"
    by (simp add: build_atr_def Let_def body_def hist_len)
  have "xor_all [xor_all body] = xor_all body" by (simp add: xor_all_def)
  then show ?thesis by (simp add: b xor_all_append)
qed

lemma build_atr_shape:
  "length (build_atr h) = min (length h) 15 + 4"
  "unat (build_atr h ! 1 AND 0x0F) = min (length h) 15"
  "drop 3 (butlast (build_atr h)) = take 15 h"
proof -
  let ?n = "of_nat (min (length h) 15) :: byte"
  show "length (build_atr h) = min (length h) 15 + 4"
    by (simp add: build_atr_def Let_def hist_len)
  have "(0x80 OR ?n) AND 0x0F = ?n AND 0x0F"
    by (simp add: bit.conj_disj_distrib2)
  moreover have "?n AND 0x0F = ?n mod 16"
    using take_bit_eq_mask [of 4 ?n] by (simp add: mask_eq_exp_minus_1 take_bit_eq_mod)
  moreover have "unat (?n mod 16) = min (length h) 15"
    by (simp add: unat_mod hist_len)
  ultimately show "unat (build_atr h ! 1 AND 0x0F) = min (length h) 15"
    by (simp add: build_atr_def Let_def)
  show "drop 3 (butlast (build_atr h)) = take 15 h"
    by (simp add: build_atr_def Let_def hist_len butlast_append) (simp add: min_def)
qed

lemma card_atrs:
  "create_openpgp_atr = DEFAULT_ATR" "length create_openpgp_atr \<le> 33" "length NITROKEY3_ATR \<le> 33"
  "xor_all (drop 1 NITROKEY3_ATR) = 0"
  by (simp_all add: create_openpgp_atr_def build_atr_def DEFAULT_ATR_def NITROKEY3_ATR_def xor_all_def
      Let_def)

end
