(* ===== verification/Card_Trait.thy ===== *)
theory Card_Trait
  imports Jc_Prelude Command_Runs
begin

text \<open>
  The interface between the IFD handler and the cards (\<open>src/card/card_trait.rs\<close>): the trait
  \<open>Card\<close> is the locale \<open>card\<close>, whose parameters are its methods and whose assumptions are what
  the comments of the trait promise. The two implementations interpret it in their theories.
\<close>

section \<open>Calls of the trait\<close>

datatype card_call = PowerOn | PowerOff | Reset | Transmit "byte list"

text \<open>One call of a boxed card: what it returns (nothing for \<open>power_off\<close>) and the card after it.\<close>

definition card_do ::
  "('c \<Rightarrow> byte list \<times> 'c) \<Rightarrow> ('c \<Rightarrow> 'c) \<Rightarrow> ('c \<Rightarrow> byte list \<times> 'c) \<Rightarrow>
   ('x \<Rightarrow> byte list \<Rightarrow> 'c \<Rightarrow> (byte list \<times> 'c) option) \<Rightarrow>
   'x \<Rightarrow> 'c \<Rightarrow> card_call \<Rightarrow> (byte list \<times> 'c) option" where
  "card_do on off rst tx x c call =
     (case call of
        PowerOn \<Rightarrow> Some (on c)
      | PowerOff \<Rightarrow> Some ([], off c)
      | Reset \<Rightarrow> Some (rst c)
      | Transmit d \<Rightarrow> tx x d c)"

text \<open>Whether a card is powered after a call, as a function of the call alone.\<close>

definition powered_after :: "card_call \<Rightarrow> bool \<Rightarrow> bool" where
  "powered_after call p = (case call of PowerOn \<Rightarrow> True | PowerOff \<Rightarrow> False | Reset \<Rightarrow> True | Transmit d \<Rightarrow> p)"

section \<open>The contract\<close>

text \<open>
  \<open>env_ok\<close> restricts the surroundings in which answers are promised to be well formed (for the
  Nitrokey card: the dispatcher answers with a status word).
\<close>

locale card =
  fixes power_on :: "'c \<Rightarrow> byte list \<times> 'c"
    and power_off :: "'c \<Rightarrow> 'c"
    and reset :: "'c \<Rightarrow> byte list \<times> 'c"
    and transmit_apdu :: "'x \<Rightarrow> byte list \<Rightarrow> 'c \<Rightarrow> (byte list \<times> 'c) option"
    and is_powered :: "'c \<Rightarrow> bool"
    and atr :: "'c \<Rightarrow> byte list"
    and env_ok :: "'x \<Rightarrow> bool"
  assumes power_on_powers: "is_powered (snd (power_on c))"
    and power_on_atr: "fst (power_on c) = atr c" "atr (snd (power_on c)) = atr c"
    and power_off_powers: "\<not> is_powered (power_off c)"
    and power_off_atr: "atr (power_off c) = atr c"
    and reset_powers: "is_powered (snd (reset c))"
    and reset_atr: "fst (reset c) = atr c" "atr (snd (reset c)) = atr c"
    and unpowered: "\<not> is_powered c \<Longrightarrow> transmit_apdu x d c = Some ([0x69, 0x85], c)"
    and transmit_powers: "transmit_apdu x d c = Some (r, c') \<Longrightarrow> is_powered c' = is_powered c"
    and transmit_atr: "transmit_apdu x d c = Some (r, c') \<Longrightarrow> atr c' = atr c"
    and transmit_answers: "env_ok x \<Longrightarrow> transmit_apdu x d c = Some (r, c') \<Longrightarrow> 2 \<le> length r"
begin

abbreviation do_call :: "'x \<Rightarrow> 'c \<Rightarrow> card_call \<Rightarrow> (byte list \<times> 'c) option" where
  "do_call \<equiv> card_do power_on power_off reset transmit_apdu"

lemma call_powers: "do_call x c call = Some (r, c') \<Longrightarrow> is_powered c' = powered_after call (is_powered c)"
  by (auto simp: card_do_def powered_after_def power_on_powers power_off_powers reset_powers
      split: card_call.splits dest: transmit_powers dest!: sndI)

lemma call_atr: "do_call x c call = Some (r, c') \<Longrightarrow> atr c' = atr c"
  by (auto simp: card_do_def power_on_atr power_off_atr reset_atr
      split: card_call.splits dest: transmit_atr dest!: sndI)

text \<open>The ATR never changes, whatever is called.\<close>

lemma atr_fixed: "cmd_reach do_call C c c' \<Longrightarrow> atr c' = atr c"
  by (erule cmd_reach_keeps [where I = "\<lambda>s. atr s = atr c"]) (auto dest: call_atr)

text \<open>Without a power-up or reset a card that is off stays as it is: no command reaches it.\<close>

lemma off_is_silent:
  assumes "cmd_reach do_call (\<lambda>x c call. \<exists>d. call = Transmit d) c c'" "\<not> is_powered c"
  shows "c' = c"
  by (rule cmd_reach_keeps [OF assms(1), where I = "\<lambda>s. s = c"])
    (auto simp: card_do_def unpowered assms(2))

lemma power_call_total: "(\<And>d. call \<noteq> Transmit d) \<Longrightarrow> do_call x c call \<noteq> None"
  by (cases call) (auto simp: card_do_def)

lemma answer_length: "env_ok x \<Longrightarrow> do_call x c (Transmit d) = Some (r, c') \<Longrightarrow> 2 \<le> length r"
  by (simp add: card_do_def transmit_answers)

end

end
