(* ===== verification/Virtual_Card.thy ===== *)
theory Virtual_Card
  imports Pgp_Session Piv_Session Atr Card_Trait
begin

text \<open>
  The card of slot 0 (\<open>VirtualCard\<close> in \<open>src/lib.rs\<close>): the OpenPGP and the PIV applet behind one
  power switch, and the routing of commands between them. A panic of an applet is \<open>None\<close>.
\<close>

datatype active_applet = NoApplet | OpenPGP | PIV

record virtual_card =
  openpgp :: openpgp_applet
  piv :: piv_applet
  active_applet :: active_applet
  vc_atr :: "byte list"
  powered :: bool

text \<open>\<open>fs\<close> is the file system as the card finds it when it is created.\<close>

definition virtual_card_new :: "'k env \<Rightarrow> files \<Rightarrow> virtual_card" where
  "virtual_card_new X fs =
     (let card_store = snd (store_load X (store_new_for_slot X fs None 0)) in
      \<lparr>openpgp = pgp_new card_store, piv = piv_new X, active_applet = NoApplet,
       vc_atr = create_openpgp_atr, powered = False\<rparr>)"

definition response_to_bytes :: "response \<Rightarrow> byte list" where
  "response_to_bytes r = resp_data r @ [resp_sw1 r] @ [resp_sw2 r]"

definition pgp_answer :: "'k env \<Rightarrow> virtual_card \<Rightarrow> apdu \<Rightarrow> (byte list \<times> virtual_card) option" where
  "pgp_answer X c cmd =
     map_option (\<lambda>(r, a). (response_to_bytes r, c\<lparr>openpgp := a\<rparr>)) (pgp_process X (openpgp c) cmd)"

definition piv_answer :: "'k env \<Rightarrow> virtual_card \<Rightarrow> apdu \<Rightarrow> (byte list \<times> virtual_card) option" where
  "piv_answer X c cmd =
     map_option (\<lambda>(r, a). (response_to_bytes r, c\<lparr>piv := a\<rparr>)) (piv_process X (piv c) cmd)"

definition YUBIKEY_MGMT_AID :: "byte list" where
  "YUBIKEY_MGMT_AID = [0xA0, 0x00, 0x00, 0x05, 0x27, 0x47, 0x11, 0x17]"

text \<open>The bytes of the string literal, \<open>jcecard - FW version 5.4.3\<close>.\<close>

definition mgmt_version_string :: "byte list" where
  "mgmt_version_string = map of_char ''jcecard - FW version 5.4.3''"

definition vc_handle_select :: "'k env \<Rightarrow> virtual_card \<Rightarrow> apdu \<Rightarrow> (byte list \<times> virtual_card) option" where
  "vc_handle_select X c cmd =
     (if take (length OPENPGP_AID_PREFIX) (cmd_data cmd) = OPENPGP_AID_PREFIX then
        pgp_answer X (c\<lparr>active_applet := OpenPGP\<rparr>) cmd
      else if take (length PIV_AID) (cmd_data cmd) = PIV_AID then
        piv_answer X (c\<lparr>active_applet := PIV\<rparr>) cmd
      else if cmd_data cmd = YUBIKEY_MGMT_AID then
        Some (mgmt_version_string @ [0x90] @ [0x00], c)
      else Some ([0x6A, 0x82], c))"

definition vc_process :: "'k env \<Rightarrow> byte list \<Rightarrow> virtual_card \<Rightarrow> (byte list \<times> virtual_card) option" where
  "vc_process X apdu_bytes c =
     (if \<not> powered c then Some ([0x69, 0x85], c)
      else case parse_apdu apdu_bytes of
          Err e \<Rightarrow> Some ([0x67, 0x00], c)
        | Ok cmd \<Rightarrow>
            if ins cmd = 0xA4 then
              (if p1 cmd = 0x04 then vc_handle_select X c cmd else Some ([0x6D, 0x00], c))
            else (case active_applet c of
                OpenPGP \<Rightarrow> pgp_answer X c cmd
              | PIV \<Rightarrow> piv_answer X c cmd
              | NoApplet \<Rightarrow>
                  Some (response_to_bytes (response_error SW_CONDITIONS_NOT_SATISFIED), c)))"

definition vc_power_on :: "virtual_card \<Rightarrow> byte list \<times> virtual_card" where
  "vc_power_on c = (vc_atr c, c\<lparr>powered := True, active_applet := NoApplet\<rparr>)"

definition vc_power_off :: "virtual_card \<Rightarrow> virtual_card" where
  "vc_power_off c =
     c\<lparr>powered := False, active_applet := NoApplet, openpgp := pgp_reset (openpgp c),
       piv := piv_reset (piv c)\<rparr>"

definition vc_reset :: "virtual_card \<Rightarrow> byte list \<times> virtual_card" where
  "vc_reset c =
     (vc_atr c, c\<lparr>openpgp := pgp_reset (openpgp c), piv := piv_reset (piv c),
                  active_applet := NoApplet, powered := True\<rparr>)"

section \<open>Routing\<close>

lemma length_response_to_bytes: "2 \<le> length (response_to_bytes r)"
  by (simp add: response_to_bytes_def)

lemma response_to_bytes_eq: "response_to_bytes r = to_bytes r"
  by (simp add: response_to_bytes_def to_bytes_def)

lemma pgp_answerE:
  assumes "pgp_answer X c cmd = Some (d, c')"
  obtains r a where "pgp_process X (openpgp c) cmd = Some (r, a)" "d = response_to_bytes r" "c' = c\<lparr>openpgp := a\<rparr>"
  using assms by (auto simp: pgp_answer_def)

lemma piv_answerE:
  assumes "piv_answer X c cmd = Some (d, c')"
  obtains r a where "piv_process X (piv c) cmd = Some (r, a)" "d = response_to_bytes r" "c' = c\<lparr>piv := a\<rparr>"
  using assms by (auto simp: piv_answer_def)

text \<open>What a command to the card can do: nothing to the applets, or one command to one of them.\<close>

lemma vc_process_cases:
  assumes "vc_process X bs c = Some (d, c')"
  obtains (own) "openpgp c' = openpgp c" "piv c' = piv c" "c' = c" "2 \<le> length d"
  | (pgp) cmd r a s where "parse_apdu bs = Ok cmd" "powered c" "pgp_process X (openpgp c) cmd = Some (r, a)"
      "active_applet c = OpenPGP \<or> ins cmd = 0xA4"
      "d = response_to_bytes r" "c' = c\<lparr>active_applet := s, openpgp := a\<rparr>"
  | (piv) cmd r a s where "parse_apdu bs = Ok cmd" "powered c" "piv_process X (piv c) cmd = Some (r, a)"
      "d = response_to_bytes r" "c' = c\<lparr>active_applet := s, piv := a\<rparr>"
proof (cases "\<not> powered c \<or> (\<exists>e. parse_apdu bs = Err e)")
  case True
  then have "c' = c \<and> 2 \<le> length d" using assms by (auto simp: vc_process_def split: if_splits)
  then show thesis using own by simp
next
  case False
  then obtain cmd where cmd: "powered c" "parse_apdu bs = Ok cmd" by (cases "parse_apdu bs") auto
  have keep: "c\<lparr>openpgp := a\<rparr> = c\<lparr>active_applet := active_applet c, openpgp := a\<rparr>"
    "c\<lparr>piv := p\<rparr> = c\<lparr>active_applet := active_applet c, piv := p\<rparr>" for a p by simp_all
  consider "c' = c \<and> 2 \<le> length d"
    | s where "active_applet c = OpenPGP \<or> ins cmd = 0xA4" "pgp_answer X (c\<lparr>active_applet := s\<rparr>) cmd = Some (d, c')"
    | s where "piv_answer X (c\<lparr>active_applet := s\<rparr>) cmd = Some (d, c')"
  proof -
    have "active_applet c = OpenPGP \<Longrightarrow> pgp_answer X c cmd = Some (d, c') \<Longrightarrow> thesis" "piv_answer X c cmd = Some (d, c') \<Longrightarrow> thesis"
    proof -
      have self: "c\<lparr>active_applet := active_applet c\<rparr> = c" by simp
      show "active_applet c = OpenPGP \<Longrightarrow> pgp_answer X c cmd = Some (d, c') \<Longrightarrow> thesis"
        "piv_answer X c cmd = Some (d, c') \<Longrightarrow> thesis"
        using that(2,3) [of "active_applet c"] unfolding self by blast+
    qed
    with assms cmd that show thesis
      by (auto simp: vc_process_def vc_handle_select_def length_response_to_bytes
          split: if_splits active_applet.splits)
  qed
  then show thesis
  proof cases
    case 1
    then show thesis using own by simp
  next
    case 2
    then show thesis by (elim pgp_answerE) (use pgp [OF cmd(2,1)] 2(1) in simp)
  next
    case 3
    then show thesis by (rule piv_answerE) (use piv [OF cmd(2,1)] in simp)
  qed
qed

lemma vc_process_frame:
  assumes "vc_process X bs c = Some (d, c')"
  shows "powered c' = powered c \<and> vc_atr c' = vc_atr c \<and> 2 \<le> length d"
  using assms by (cases rule: vc_process_cases) (simp_all add: length_response_to_bytes)

lemma vc_unpowered: "\<not> powered c \<Longrightarrow> vc_process X bs c = Some ([0x69, 0x85], c)"
  by (simp add: vc_process_def)

interpretation vc: card vc_power_on vc_power_off vc_reset vc_process powered vc_atr "\<lambda>_. True"
  by unfold_locales
    (auto simp: vc_power_on_def vc_power_off_def vc_reset_def vc_unpowered dest: vc_process_frame)

section \<open>After a power-down or a reset\<close>

text \<open>Nothing is verified, no applet is selected and no response is left to be fetched.\<close>

definition vc_locked :: "virtual_card \<Rightarrow> bool" where
  "vc_locked c \<longleftrightarrow> active_applet c = NoApplet \<and> (\<forall>f. \<not> verified f (openpgp c)) \<and>
     \<not> pin_verified (piv_security (piv c)) \<and> \<not> mgmt_authenticated (piv_security (piv c)) \<and>
     current_challenge (piv c) = None \<and> response_buffer (openpgp c) = [] \<and>
     command_buffer (openpgp c) = [] \<and> piv_response_buffer (piv c) = []"

lemma reset_applets:
  "pgp_state (pgp_reset a) = pgp_state a" "store (pgp_reset a) = store a" "\<not> verified f (pgp_reset a)"
  "response_buffer (pgp_reset a) = []" "command_buffer (pgp_reset a) = []"
  "piv_objects (piv_reset p) = piv_objects p" "\<not> pin_verified (piv_security (piv_reset p))"
  "\<not> mgmt_authenticated (piv_security (piv_reset p))" "current_challenge (piv_reset p) = None"
  "piv_response_buffer (piv_reset p) = []" "command_chain_ins (piv_reset p) = command_chain_ins p"
  by (simp_all add: pgp_reset_def piv_reset_def pgp_state_def)

lemma vc_power_locks: "vc_locked (vc_power_off c)" "vc_locked (snd (vc_reset c))"
  by (simp_all add: vc_locked_def vc_power_off_def vc_reset_def reset_applets)

text \<open>With no applet selected every command but SELECT is refused.\<close>

lemma vc_no_applet:
  assumes "active_applet c = NoApplet" "\<And>cmd. parse_apdu d = Ok cmd \<Longrightarrow> ins cmd \<noteq> 0xA4"
  shows "vc_process X d c = Some ([0x69, 0x85], c) \<or> vc_process X d c = Some ([0x67, 0x00], c)"
  using assms
  by (auto simp: vc_process_def response_to_bytes_def response_error_def response_new_def SW_defs
      split: sum.splits)

section \<open>Properties\<close>

text \<open>
  A command to the card changes at most one applet, the selected one, or for SELECT the one whose
  AID it names; a card that is off, a command that cannot be parsed and a SELECT of anything else
  change neither.
\<close>

theorem applets_are_separate:
  assumes "vc_process X d c = Some (r, c')"
  shows "(openpgp c' \<noteq> openpgp c \<longrightarrow> powered c \<and> piv c' = piv c \<and> active_applet c' = OpenPGP) \<and>
    (piv c' \<noteq> piv c \<longrightarrow> powered c \<and> openpgp c' = openpgp c \<and> active_applet c' = PIV)"
proof (cases "\<not> powered c \<or> (\<exists>e. parse_apdu d = Err e)")
  case True
  then show ?thesis using assms by (auto simp: vc_process_def split: if_splits)
next
  case False
  then show ?thesis
    using assms
    by (auto simp: vc_process_def vc_handle_select_def pgp_answer_def piv_answer_def
        split: if_splits active_applet.splits sum.splits)
qed

text \<open>The AID of the OpenPGP application and of PIV, selected by name.\<close>

definition select_apdu :: "byte list \<Rightarrow> byte list" where
  "select_apdu aid = [0x00, 0xA4, 0x04, 0x00, of_nat (length aid)] @ aid"

definition demo_card :: virtual_card where
  "demo_card = \<lparr>openpgp = demo_pgp, piv = demo_piv, active_applet = NoApplet,
     vc_atr = create_openpgp_atr, powered = True\<rparr>"

lemma demo_select_piv:
  "parse_apdu (select_apdu PIV_AID) =
     Ok \<lparr>cla = 0, ins = 0xA4, p1 = 0x04, p2 = 0, cmd_data = PIV_AID, le = None\<rparr>"
  by (simp add: select_apdu_def PIV_AID_def parse_apdu_def parse_short_apdu_def Let_def apdu_new_def)

theorem applets_are_separate_witness:
  "\<exists>r c'. vc_process demo_env (select_apdu PIV_AID) demo_card = Some (r, c') \<and> openpgp c' = demo_pgp"
proof -
  obtain r c' where p: "vc_process demo_env (select_apdu PIV_AID) demo_card = Some (r, c')" "active_applet c' = PIV"
    using demo_select_piv
    by (auto simp: vc_process_def demo_card_def vc_handle_select_def PIV_AID_def OPENPGP_AID_PREFIX_def
        piv_answer_def piv_process_def is_chained_def piv_route_def piv_handle_select_def)
  have "openpgp demo_card = demo_pgp" by (simp add: demo_card_def)
  with applets_are_separate [OF p(1)] p show ?thesis by auto
qed

text \<open>
  A chained PIV command that was broken off survives powering the card down and up: the first
  SELECT of PIV afterwards is taken for the continuation of the chain, refused with 6985 and not
  executed; only the second one selects.
\<close>

theorem broken_chain_survives_power_cycle:
  assumes "command_chain_ins (piv c) = Some i" "i \<noteq> 0xA4"
    and "parse_apdu d = Ok cmd" "ins cmd = 0xA4" "p1 cmd = 0x04" "\<not> is_chained cmd"
    and "take (length PIV_AID) (cmd_data cmd) = PIV_AID"
  shows "\<exists>c1 c2 r. vc_process X d (snd (vc_power_on (vc_power_off c))) = Some ([0x69, 0x85], c1) \<and>
    vc_process X d c1 = Some (r @ [0x90, 0x00], c2)"
proof -
  have no_pgp: "take (length OPENPGP_AID_PREFIX) (cmd_data cmd) \<noteq> OPENPGP_AID_PREFIX"
    using assms(7) by (cases "cmd_data cmd") (auto simp: PIV_AID_def OPENPGP_AID_PREFIX_def)
  let ?c = "snd (vc_power_on (vc_power_off c))"
  let ?p = "piv_reset (piv c)"
  define p1 where "p1 = ?p\<lparr>command_chain_ins := None, command_chain_buffer := []\<rparr>"
  have sel: "vc_process X d e = piv_answer X (e\<lparr>active_applet := PIV\<rparr>) cmd" if "powered e" for e
    using assms(3-5,7) no_pgp that by (simp add: vc_process_def vc_handle_select_def)
  have "command_chain_ins ?p = Some i" using assms(1) by (simp add: reset_applets)
  then have "piv_process X ?p cmd = Some (response_error SW_CONDITIONS_NOT_SATISFIED, p1)"
    using assms(2,4) by (simp add: piv_process_def piv_start_chain_def p1_def Let_def)
  then have one: "vc_process X d ?c = Some ([0x69, 0x85], ?c\<lparr>active_applet := PIV, piv := p1\<rparr>)"
    by (subst sel) (simp_all add: vc_power_on_def vc_power_off_def piv_answer_def response_to_bytes_def
        response_error_def response_new_def SW_defs)
  have "piv_process X p1 cmd = Some (piv_handle_select p1 cmd)"
    using assms(4,6) by (simp add: piv_process_def p1_def piv_route_def)
  moreover have "resp_sw1 (fst (piv_handle_select p1 cmd)) = 0x90 \<and> resp_sw2 (fst (piv_handle_select p1 cmd)) = 0x00"
    using assms(5,7) by (simp add: piv_handle_select_def response_success_def response_new_def SW_SUCCESS_def)
  ultimately have "\<exists>r c2. vc_process X d (?c\<lparr>active_applet := PIV, piv := p1\<rparr>) = Some (r @ [0x90, 0x00], c2)"
    by (subst sel) (auto simp: vc_power_on_def piv_answer_def response_to_bytes_def split_beta)
  with one show ?thesis by blast
qed

theorem broken_chain_survives_power_cycle_witness:
  "\<exists>c r. command_chain_ins (piv c) = Some 0xDB \<and>
     vc_process demo_env (select_apdu PIV_AID) (snd (vc_power_on (vc_power_off c))) = Some ([0x69, 0x85], r)"
proof -
  let ?c = "demo_card\<lparr>piv := demo_piv\<lparr>command_chain_ins := Some 0xDB\<rparr>\<rparr>"
  have "command_chain_ins (piv ?c) = Some 0xDB" by simp
  moreover from broken_chain_survives_power_cycle [OF this _ demo_select_piv, of demo_env]
  obtain r where "vc_process demo_env (select_apdu PIV_AID) (snd (vc_power_on (vc_power_off ?c))) = Some ([0x69, 0x85], r)"
    by (auto simp: is_chained_def)
  ultimately show ?thesis by blast
qed

end
