(* ===== verification/Noninterference.thy ===== *)
theory Noninterference
  imports Command_Runs
begin

text \<open>
  Components that keep a secret: two runs of the same commands from states that differ in the secret
  alone give the same answers, as long as no command uses the secret. The law of one step is the
  assumption of a locale, which each component that has private keys interprets; runs follow.
\<close>

section \<open>Runs and their answers\<close>

text \<open>The answers of a run, and the state it ends in unless a command panics.\<close>

fun answers ::
  "('x \<Rightarrow> 's \<Rightarrow> 'c \<Rightarrow> ('r \<times> 's) option) \<Rightarrow> ('x \<times> 'c) list \<Rightarrow> 's \<Rightarrow> 'r list \<times> 's option" where
  "answers P [] a = ([], Some a)"
| "answers P ((x, cmd) # cs) a =
     (case P x a cmd of
        None \<Rightarrow> ([], None)
      | Some (r, b) \<Rightarrow> (case answers P cs b of (rs, s) \<Rightarrow> (r # rs, s)))"

text \<open>No command of the run is one that \<open>U\<close> says uses the secret in the state it is sent in.\<close>

fun unused ::
  "('x \<Rightarrow> 's \<Rightarrow> 'c \<Rightarrow> ('r \<times> 's) option) \<Rightarrow> ('x \<Rightarrow> 's \<Rightarrow> 'c \<Rightarrow> bool) \<Rightarrow> ('x \<times> 'c) list \<Rightarrow> 's \<Rightarrow> bool"
where
  "unused P U [] a \<longleftrightarrow> True"
| "unused P U ((x, cmd) # cs) a \<longleftrightarrow>
     \<not> U x a cmd \<and> (case P x a cmd of None \<Rightarrow> True | Some (r, b) \<Rightarrow> unused P U cs b)"

text \<open>What is seen of an answer by one who sees the state through \<open>v\<close>.\<close>

definition seen :: "('s \<Rightarrow> 'v) \<Rightarrow> ('r \<times> 's) option \<Rightarrow> ('r \<times> 'v) option" where
  "seen v = map_option (apsnd v)"

lemma seen_simps [simp]:
  "seen v None = None" "seen v (Some p) = Some (apsnd v p)" "seen v r = None \<longleftrightarrow> r = None"
  "seen v (map_option f q) = map_option (apsnd v \<circ> f) q"
  by (simp_all add: seen_def option.map_comp)

lemma seen_eqE:
  assumes "seen v p = seen v q"
  obtains "p = None" "q = None" | r s t where "p = Some (r, s)" "q = Some (r, t)" "v s = v t"
  using assms by (cases p; cases q) (auto simp: seen_def)

section \<open>The contract\<close>

locale keeps_secret =
  fixes process :: "'x \<Rightarrow> 's \<Rightarrow> 'c \<Rightarrow> ('r \<times> 's) option"
    and view :: "'s \<Rightarrow> 'v"
    and uses :: "'x \<Rightarrow> 's \<Rightarrow> 'c \<Rightarrow> bool"
  assumes unwinding:
    "view a = view b \<Longrightarrow> \<not> uses x a cmd \<Longrightarrow> seen view (process x a cmd) = seen view (process x b cmd)"
begin

lemma same_answers:
  assumes "view a = view b" "unused process uses cs a"
  shows "fst (answers process cs a) = fst (answers process cs b) \<and>
    map_option view (snd (answers process cs a)) = map_option view (snd (answers process cs b))"
  using assms
proof (induction cs arbitrary: a b)
  case (Cons c cs)
  obtain x cmd where c: "c = (x, cmd)" by (cases c)
  have "seen view (process x a cmd) = seen view (process x b cmd)"
    using Cons.prems c by (intro unwinding) simp_all
  then show ?case
  proof (cases rule: seen_eqE)
    case (2 r s t)
    with Cons.IH [of s t] Cons.prems c show ?thesis by (auto split: prod.split)
  qed (simp add: c)
qed simp

end

end
