(* ===== verification/Secret_Keys.thy ===== *)
theory Secret_Keys
  imports Virtual_Card Noninterference
begin

text \<open>
  The private keys do not leave the card: unless a command uses one, with the PIN that it needs, no
  answer depends on any of them. Shown of the OpenPGP applet, of the PIV applet and of the card that
  contains both.
\<close>

section \<open>The OpenPGP applet\<close>

text \<open>The applet without its private keys, and without the files, which contain them.\<close>

definition hide_key :: "key_slot \<Rightarrow> key_slot" where
  "hide_key k = k\<lparr>private_key_data := []\<rparr>"

definition public_state :: "card_state \<Rightarrow> card_state" where
  "public_state s = s\<lparr>key_sig := hide_key (key_sig s), key_dec := hide_key (key_dec s),
     key_aut := hide_key (key_aut s)\<rparr>"

definition pgp_public :: "openpgp_applet \<Rightarrow> openpgp_applet" where
  "pgp_public a = a\<lparr>store := (store a)\<lparr>state := public_state (state (store a)), store_fs := Map.empty\<rparr>\<rparr>"

definition pgp_uses_key :: "'k env \<Rightarrow> openpgp_applet \<Rightarrow> apdu \<Rightarrow> bool" where
  "pgp_uses_key X a cmd \<longleftrightarrow>
     ins cmd = INS_PSO \<and> p1p2 cmd = PSO_CDS \<and> verified SC_PW1_81 a \<or>
     ins cmd = INS_PSO \<and> p1p2 cmd = PSO_DECIPHER \<and> verified SC_PW1_82 a \<or>
     ins cmd = INS_INTERNAL_AUTHENTICATE \<and> verified SC_PW1_82 a"

lemma hide_key_simps [simp]:
  "algorithm (hide_key k) = algorithm k" "public_key_data (hide_key k) = public_key_data k"
  "fingerprint (hide_key k) = fingerprint k" "generation_time (hide_key k) = generation_time k"
  "ca_fingerprint (hide_key k) = ca_fingerprint k" "uif (hide_key k) = uif k"
  "has_key (hide_key k) = has_key k" "hide_key (hide_key k) = hide_key k"
  "hide_key (k\<lparr>algorithm := g\<rparr>) = (hide_key k)\<lparr>algorithm := g\<rparr>"
  "hide_key (k\<lparr>public_key_data := d\<rparr>) = (hide_key k)\<lparr>public_key_data := d\<rparr>"
  "hide_key (k\<lparr>private_key_data := d\<rparr>) = hide_key k"
  "hide_key (k\<lparr>fingerprint := d\<rparr>) = (hide_key k)\<lparr>fingerprint := d\<rparr>"
  "hide_key (k\<lparr>generation_time := t\<rparr>) = (hide_key k)\<lparr>generation_time := t\<rparr>"
  "hide_key (k\<lparr>ca_fingerprint := d\<rparr>) = (hide_key k)\<lparr>ca_fingerprint := d\<rparr>"
  "hide_key (k\<lparr>uif := b\<rparr>) = (hide_key k)\<lparr>uif := b\<rparr>"
  by (simp_all add: hide_key_def has_key_def)

lemma public_state_fields [simp]:
  "key_sig (public_state s) = hide_key (key_sig s)" "key_dec (public_state s) = hide_key (key_dec s)"
  "key_aut (public_state s) = hide_key (key_aut s)" "pin_data (public_state s) = pin_data s"
  "cardholder (public_state s) = cardholder s" "signature_counter (public_state s) = signature_counter s"
  "private_do_1 (public_state s) = private_do_1 s" "private_do_2 (public_state s) = private_do_2 s"
  "private_do_3 (public_state s) = private_do_3 s" "private_do_4 (public_state s) = private_do_4 s"
  "certificate (public_state s) = certificate s" "terminated (public_state s) = terminated s"
  "serial_number (public_state s) = serial_number s" "manufacturer_id (public_state s) = manufacturer_id s"
  "version_major (public_state s) = version_major s" "version_minor (public_state s) = version_minor s"
  by (simp_all add: public_state_def)

lemma public_state_updates [simp]:
  "public_state (public_state s) = public_state s"
  "public_state (s\<lparr>pin_data := d\<rparr>) = (public_state s)\<lparr>pin_data := d\<rparr>"
  "public_state (s\<lparr>cardholder := h\<rparr>) = (public_state s)\<lparr>cardholder := h\<rparr>"
  "public_state (s\<lparr>key_sig := k\<rparr>) = (public_state s)\<lparr>key_sig := hide_key k\<rparr>"
  "public_state (s\<lparr>key_dec := k\<rparr>) = (public_state s)\<lparr>key_dec := hide_key k\<rparr>"
  "public_state (s\<lparr>key_aut := k\<rparr>) = (public_state s)\<lparr>key_aut := hide_key k\<rparr>"
  "public_state (s\<lparr>private_do_1 := v\<rparr>) = (public_state s)\<lparr>private_do_1 := v\<rparr>"
  "public_state (s\<lparr>private_do_2 := v\<rparr>) = (public_state s)\<lparr>private_do_2 := v\<rparr>"
  "public_state (s\<lparr>private_do_3 := v\<rparr>) = (public_state s)\<lparr>private_do_3 := v\<rparr>"
  "public_state (s\<lparr>private_do_4 := v\<rparr>) = (public_state s)\<lparr>private_do_4 := v\<rparr>"
  "public_state (s\<lparr>certificate := v\<rparr>) = (public_state s)\<lparr>certificate := v\<rparr>"
  "public_state (s\<lparr>terminated := t\<rparr>) = (public_state s)\<lparr>terminated := t\<rparr>"
  by (simp_all add: public_state_def)

lemma public_slots [simp]:
  "get_slot kt (public_state s) = hide_key (get_slot kt s)"
  "public_state (put_slot kt k s) = put_slot kt (hide_key k) (public_state s)"
  by (simp_all add: get_slot_def put_slot_def split: key_slot_type.split)

lemma pgp_public_fields [simp]:
  "pgp_state (pgp_public a) = public_state (pgp_state a)" "security (pgp_public a) = security a"
  "response_buffer (pgp_public a) = response_buffer a" "response_offset (pgp_public a) = response_offset a"
  "command_buffer (pgp_public a) = command_buffer a" "chaining_ins (pgp_public a) = chaining_ins a"
  "current_le (pgp_public a) = current_le a" "pgp_public (pgp_public a) = pgp_public a"
  by (simp_all add: pgp_public_def pgp_state_def)

lemma pgp_public_updates [simp]:
  "pgp_public (put_state s a) = put_state (public_state s) (pgp_public a)"
  "pgp_public (pgp_save X a) = pgp_public a"
  "pgp_public (put_pin_data d a) = put_pin_data d (pgp_public a)"
  "pgp_public (put_pgp_slot kt k a) = put_pgp_slot kt (hide_key k) (pgp_public a)"
  "pgp_public (a\<lparr>security := ss\<rparr>) = (pgp_public a)\<lparr>security := ss\<rparr>"
  "pgp_public (a\<lparr>response_buffer := b\<rparr>) = (pgp_public a)\<lparr>response_buffer := b\<rparr>"
  "pgp_public (a\<lparr>response_offset := n\<rparr>) = (pgp_public a)\<lparr>response_offset := n\<rparr>"
  "pgp_public (a\<lparr>command_buffer := b\<rparr>) = (pgp_public a)\<lparr>command_buffer := b\<rparr>"
  "pgp_public (a\<lparr>chaining_ins := i\<rparr>) = (pgp_public a)\<lparr>chaining_ins := i\<rparr>"
  "pgp_public (a\<lparr>current_le := l\<rparr>) = (pgp_public a)\<lparr>current_le := l\<rparr>"
proof -
  show *: "pgp_public (put_state s a) = put_state (public_state s) (pgp_public a)" for s a
    by (simp add: pgp_public_def put_state_def)
  show "pgp_public (put_pin_data d a) = put_pin_data d (pgp_public a)"
    "pgp_public (put_pgp_slot kt k a) = put_pgp_slot kt (hide_key k) (pgp_public a)"
    by (simp_all add: * put_pin_data_def put_pgp_slot_def)
qed (simp_all add: pgp_public_def pgp_save_def saved_def store_save_def Let_def split_beta split: option.split)

text \<open>
  Each handler answers alike with and without the private keys, and the states after it differ in
  them alone.
\<close>

lemma public_data_objects [simp]:
  "fingerprint_padded (hide_key k) = fingerprint_padded k"
  "ca_fingerprint_padded (hide_key k) = ca_fingerprint_padded k"
  "build_application_data (public_state s) = build_application_data s"
  "get_data_object tag (public_state s) = get_data_object tag s"
proof -
  show *: "fingerprint_padded (hide_key k) = fingerprint_padded k"
    "ca_fingerprint_padded (hide_key k) = ca_fingerprint_padded k" for k
    by (simp_all add: fingerprint_padded_def ca_fingerprint_padded_def)
  note getters = get_aid_def get_historical_bytes_def get_general_feature_management_def
    get_extended_capabilities_def get_pw_status_bytes_def get_fingerprints_def
    get_ca_fingerprints_def get_key_timestamps_def get_signature_counter_bytes_def
  show app: "build_application_data (public_state s) = build_application_data s"
    by (simp add: build_application_data_def getters * Let_def)
  show "get_data_object tag (public_state s) = get_data_object tag s"
    by (simp add: get_data_object_def app * getters build_cardholder_data_def
        build_security_support_template_def)
qed

lemma public_put_data:
  "map_sum id public_state (put_data_object X tag d (public_state s)) = map_sum id public_state (put_data_object X tag d s)"
  unfolding put_data_defs Let_def
  by (simp split: option.split)

lemma public_create_response [simp]:
  "apsnd pgp_public (create_response a d) = create_response (pgp_public a) d"
  by (simp add: create_response_def Let_def)

lemma public_pin_handlers:
  "apsnd pgp_public (handle_verify X (pgp_public a) cmd) = apsnd pgp_public (handle_verify X a cmd)"
  "apsnd pgp_public (handle_change_reference_data X (pgp_public a) cmd) =
     apsnd pgp_public (handle_change_reference_data X a cmd)"
  "apsnd pgp_public (handle_reset_retry_counter X (pgp_public a) cmd) =
     apsnd pgp_public (handle_reset_retry_counter X a cmd)"
  by (simp_all add: handle_verify_def handle_change_reference_data_def handle_reset_retry_counter_def
      verify_status_def Let_def split_beta split: option.split)

lemma check_access_public [simp]: "check_access (pgp_public a) c = check_access a c"
  by (simp add: check_access_def split: access_condition.split)

lemma public_data_handlers:
  "handle_get_data (pgp_public a) cmd = handle_get_data a cmd"
  "apsnd pgp_public (handle_put_data X (pgp_public a) cmd) = apsnd pgp_public (handle_put_data X a cmd)"
proof -
  show "handle_get_data (pgp_public a) cmd = handle_get_data a cmd"
    by (simp add: handle_get_data_def Let_def)
  show "apsnd pgp_public (handle_put_data X (pgp_public a) cmd) = apsnd pgp_public (handle_put_data X a cmd)"
    using public_put_data [of X "p1p2 cmd" "cmd_data cmd" "pgp_state a"]
    by (cases "put_data_object X (p1p2 cmd) (cmd_data cmd) (pgp_state a)";
        cases "put_data_object X (p1p2 cmd) (cmd_data cmd) (public_state (pgp_state a))")
      (simp_all add: handle_put_data_def Let_def)
qed

lemma public_import_rsa [simp]: "import_rsa X crt d (hide_key k) = import_rsa X crt d k"
  by (simp add: import_rsa_def Let_def hide_key_def split: option.split prod.split)

lemma public_import_ecc:
  "fst (import_ecc X d (hide_key k)) = fst (import_ecc X d k)"
  "hide_key (snd (import_ecc X d (hide_key k))) = hide_key (snd (import_ecc X d k))"
  by (simp_all add: import_ecc_def Let_def split: option.split)

lemma public_put_odd:
  "seen pgp_public (handle_put_data_odd X (pgp_public a) cmd) = seen pgp_public (handle_put_data_odd X a cmd)"
  by (simp add: handle_put_data_odd_def handle_key_import_def Let_def split_beta public_import_ecc
      split: option.split sum.split)

lemma public_generate:
  "apsnd pgp_public (handle_generate_key X (pgp_public a) cmd) = apsnd pgp_public (handle_generate_key X a cmd)"
  by (simp add: handle_generate_key_def existing_public_key_def Let_def split: option.split sum.split prod.split)

lemma public_key_commands:
  "\<not> pgp_uses_key X a cmd \<Longrightarrow> ins cmd = INS_PSO \<Longrightarrow>
     seen pgp_public (handle_pso X (pgp_public a) cmd) = seen pgp_public (handle_pso X a cmd)"
  "\<not> pgp_uses_key X a cmd \<Longrightarrow> ins cmd = INS_INTERNAL_AUTHENTICATE \<Longrightarrow>
     seen pgp_public (handle_internal_authenticate X (pgp_public a) cmd) =
     seen pgp_public (handle_internal_authenticate X a cmd)"
  by (auto simp: pgp_uses_key_def handle_pso_def handle_pso_sign_def handle_pso_decipher_def
      handle_internal_authenticate_def)

lemma public_life_cycle:
  "apsnd pgp_public (handle_terminate X (pgp_public a) cmd) = apsnd pgp_public (handle_terminate X a cmd)"
  "apsnd pgp_public (handle_activate X (pgp_public a) cmd) = apsnd pgp_public (handle_activate X a cmd)"
  "apsnd pgp_public (handle_select (pgp_public a) cmd) = apsnd pgp_public (handle_select a cmd)"
  by (simp_all add: handle_terminate_def Let_def handle_select_def)
    (simp add: handle_activate_def pgp_public_def reset_to_factory_def initialize_default_pins_def)

lemma public_route:
  assumes "\<not> pgp_uses_key X a cmd"
  shows "seen pgp_public (pgp_route X (pgp_public a) cmd) = seen pgp_public (pgp_route X a cmd)"
  using public_key_commands [OF assms]
  by (simp add: pgp_route_def public_pin_handlers public_data_handlers public_put_odd public_generate
      public_life_cycle)

lemma public_chaining:
  "seen pgp_public (handle_get_response (pgp_public a) cmd) = seen pgp_public (handle_get_response a cmd)"
  "apsnd pgp_public (handle_command_chaining (pgp_public a) cmd) = apsnd pgp_public (handle_command_chaining a cmd)"
  "effective_cmd (pgp_public a) cmd = effective_cmd a cmd"
  "unchain (pgp_public a) = pgp_public (unchain a)"
  by (simp_all add: handle_get_response_def handle_command_chaining_def effective_cmd_def unchain_def Let_def)

text \<open>A key is used with the rights and the data of the whole chain.\<close>

definition pgp_key_command :: "'k env \<Rightarrow> openpgp_applet \<Rightarrow> apdu \<Rightarrow> bool" where
  "pgp_key_command X a cmd \<longleftrightarrow> \<not> is_chained cmd \<and> pgp_uses_key X a cmd"

lemma public_process:
  assumes "\<not> pgp_key_command X a cmd"
  shows "seen pgp_public (pgp_process X (pgp_public a) cmd) = seen pgp_public (pgp_process X a cmd)"
proof (cases "is_chained cmd")
  case True
  then show ?thesis
    by (simp add: pgp_process_def Let_def public_chaining flip: pgp_public_updates(10))
next
  case False
  have "\<not> pgp_uses_key X (unchain (a\<lparr>current_le := le cmd\<rparr>)) (effective_cmd (a\<lparr>current_le := le cmd\<rparr>) cmd)"
    using assms False by (simp add: pgp_key_command_def pgp_uses_key_def)
  from public_route [OF this] False show ?thesis
    by (simp add: pgp_process_def Let_def public_chaining flip: pgp_public_updates(10))
qed

interpretation pgp_keys: keeps_secret pgp_process pgp_public pgp_key_command
proof
  fix a b :: openpgp_applet and X :: "'k env" and cmd
  assume view: "pgp_public a = pgp_public b" and no: "\<not> pgp_key_command X a cmd"
  have "security a = security b" using arg_cong [OF view, of security] by simp
  with no have "\<not> pgp_key_command X b cmd" by (simp add: pgp_key_command_def pgp_uses_key_def)
  with no view show "seen pgp_public (pgp_process X a cmd) = seen pgp_public (pgp_process X b cmd)"
    by (metis public_process)
qed

section \<open>The PIV applet\<close>

definition piv_hide_key :: "piv_key_data \<Rightarrow> piv_key_data" where
  "piv_hide_key k = k\<lparr>pk_private := []\<rparr>"

definition piv_public_objects :: "piv_data_objects \<Rightarrow> piv_data_objects" where
  "piv_public_objects d = d\<lparr>key_9a := piv_hide_key (key_9a d), key_9c := piv_hide_key (key_9c d),
     key_9d := piv_hide_key (key_9d d), key_9e := piv_hide_key (key_9e d)\<rparr>"

definition piv_public :: "piv_applet \<Rightarrow> piv_applet" where
  "piv_public a = with_objects (piv_public_objects (piv_objects a)) a"

text \<open>GENERAL AUTHENTICATE with a key that needs no PIN, or with the PIN verified.\<close>

definition piv_key_command :: "'k env \<Rightarrow> piv_applet \<Rightarrow> apdu \<Rightarrow> bool" where
  "piv_key_command X a cmd \<longleftrightarrow> ins cmd = 0x87 \<and> p2 cmd \<noteq> REF_MGMT_KEY \<and>
     (piv_slot_of_byte (p2 cmd) = Some CardAuthentication \<or> pin_verified (piv_security a))"

lemma piv_hide_simps [simp]:
  "pk_algorithm (piv_hide_key k) = pk_algorithm k" "pk_public (piv_hide_key k) = pk_public k"
  "pk_certificate (piv_hide_key k) = pk_certificate k" "piv_hide_key (piv_hide_key k) = piv_hide_key k"
  "piv_hide_key (k\<lparr>pk_certificate := v\<rparr>) = (piv_hide_key k)\<lparr>pk_certificate := v\<rparr>"
  by (simp_all add: piv_hide_key_def)

lemma piv_public_objects_simps [simp]:
  "key_9a (piv_public_objects d) = piv_hide_key (key_9a d)" "key_9c (piv_public_objects d) = piv_hide_key (key_9c d)"
  "key_9d (piv_public_objects d) = piv_hide_key (key_9d d)" "key_9e (piv_public_objects d) = piv_hide_key (key_9e d)"
  "chuid (piv_public_objects d) = chuid d" "ccc (piv_public_objects d) = ccc d"
  "discovery (piv_public_objects d) = discovery d" "management_key (piv_public_objects d) = management_key d"
  "card_pin (piv_public_objects d) = card_pin d" "card_puk (piv_public_objects d) = card_puk d"
  "pin_retries (piv_public_objects d) = pin_retries d" "puk_retries (piv_public_objects d) = puk_retries d"
  "piv_public_objects (piv_public_objects d) = piv_public_objects d"
  "piv_public_objects (d\<lparr>chuid := v\<rparr>) = (piv_public_objects d)\<lparr>chuid := v\<rparr>"
  "piv_public_objects (d\<lparr>ccc := v\<rparr>) = (piv_public_objects d)\<lparr>ccc := v\<rparr>"
  "piv_public_objects (d\<lparr>discovery := v\<rparr>) = (piv_public_objects d)\<lparr>discovery := v\<rparr>"
  "piv_public_objects (d\<lparr>key_9a := k\<rparr>) = (piv_public_objects d)\<lparr>key_9a := piv_hide_key k\<rparr>"
  "piv_public_objects (d\<lparr>key_9c := k\<rparr>) = (piv_public_objects d)\<lparr>key_9c := piv_hide_key k\<rparr>"
  "piv_public_objects (d\<lparr>key_9d := k\<rparr>) = (piv_public_objects d)\<lparr>key_9d := piv_hide_key k\<rparr>"
  "piv_public_objects (d\<lparr>key_9e := k\<rparr>) = (piv_public_objects d)\<lparr>key_9e := piv_hide_key k\<rparr>"
  "piv_public_objects (d\<lparr>card_pin := v\<rparr>) = (piv_public_objects d)\<lparr>card_pin := v\<rparr>"
  "piv_public_objects (d\<lparr>card_puk := v\<rparr>) = (piv_public_objects d)\<lparr>card_puk := v\<rparr>"
  "piv_public_objects (d\<lparr>pin_retries := n\<rparr>) = (piv_public_objects d)\<lparr>pin_retries := n\<rparr>"
  "piv_public_objects (d\<lparr>puk_retries := n\<rparr>) = (piv_public_objects d)\<lparr>puk_retries := n\<rparr>"
  by (simp_all add: piv_public_objects_def)

lemma piv_public_fields [simp]:
  "piv_objects (piv_public a) = piv_public_objects (piv_objects a)" "piv_security (piv_public a) = piv_security a"
  "piv_response_buffer (piv_public a) = piv_response_buffer a"
  "piv_response_offset (piv_public a) = piv_response_offset a"
  "current_challenge (piv_public a) = current_challenge a" "piv_version (piv_public a) = piv_version a"
  "piv_serial (piv_public a) = piv_serial a" "command_chain_ins (piv_public a) = command_chain_ins a"
  "command_chain_buffer (piv_public a) = command_chain_buffer a" "command_chain_p1 (piv_public a) = command_chain_p1 a"
  "command_chain_p2 (piv_public a) = command_chain_p2 a" "piv_public (piv_public a) = piv_public a"
  by (simp_all add: piv_public_def)

lemma piv_public_updates [simp]:
  "piv_public (with_objects d a) = with_objects (piv_public_objects d) (piv_public a)"
  "with_objects d (with_objects e a) = with_objects d a"
  "piv_public (a\<lparr>piv_security := s\<rparr>) = (piv_public a)\<lparr>piv_security := s\<rparr>"
  "piv_public (a\<lparr>current_challenge := c\<rparr>) = (piv_public a)\<lparr>current_challenge := c\<rparr>"
  "piv_public (a\<lparr>piv_response_buffer := v\<rparr>) = (piv_public a)\<lparr>piv_response_buffer := v\<rparr>"
  "piv_public (a\<lparr>piv_response_offset := n\<rparr>) = (piv_public a)\<lparr>piv_response_offset := n\<rparr>"
  "piv_public (a\<lparr>command_chain_ins := i\<rparr>) = (piv_public a)\<lparr>command_chain_ins := i\<rparr>"
  "piv_public (a\<lparr>command_chain_buffer := v\<rparr>) = (piv_public a)\<lparr>command_chain_buffer := v\<rparr>"
  "piv_public (a\<lparr>command_chain_p1 := b\<rparr>) = (piv_public a)\<lparr>command_chain_p1 := b\<rparr>"
  "piv_public (a\<lparr>command_chain_p2 := b\<rparr>) = (piv_public a)\<lparr>command_chain_p2 := b\<rparr>"
  by (simp_all add: piv_public_def)

lemma piv_public_try [simp]:
  "piv_try_pin p (piv_public_objects d) = apsnd piv_public_objects (piv_try_pin p d)"
  "piv_try_puk p (piv_public_objects d) = apsnd piv_public_objects (piv_try_puk p d)"
  by (simp_all add: piv_try_pin_def piv_try_puk_def)

lemma piv_public_pin_handlers:
  "apsnd piv_public (piv_handle_select (piv_public a) cmd) = apsnd piv_public (piv_handle_select a cmd)"
  "apsnd piv_public (piv_handle_verify (piv_public a) cmd) = apsnd piv_public (piv_handle_verify a cmd)"
  "apsnd piv_public (piv_handle_change_reference_data (piv_public a) cmd) =
     apsnd piv_public (piv_handle_change_reference_data a cmd)"
  "apsnd piv_public (piv_handle_reset_retry_counter (piv_public a) cmd) =
     apsnd piv_public (piv_handle_reset_retry_counter a cmd)"
  by (simp_all add: piv_handle_select_def piv_handle_verify_def piv_handle_change_reference_data_def
      piv_handle_reset_retry_counter_def Let_def split_beta)

lemma piv_public_object [simp]: "piv_object i (piv_public_objects d) = piv_object i d"
  by (simp add: piv_object_def)

lemma piv_public_store:
  "map_option piv_public_objects (piv_store_object i v (piv_public_objects d)) =
     map_option piv_public_objects (piv_store_object i v d)"
  by (simp add: piv_store_object_def)

lemma piv_public_data_handlers:
  "piv_handle_get_data (piv_public a) cmd = piv_handle_get_data a cmd"
  "apsnd piv_public (piv_handle_put_data (piv_public a) cmd) = apsnd piv_public (piv_handle_put_data a cmd)"
proof -
  show "piv_handle_get_data (piv_public a) cmd = piv_handle_get_data a cmd"
    by (simp add: piv_handle_get_data_def split: option.split prod.split)
  have store: "apsnd piv_public (case piv_store_object i v (piv_public_objects d) of None \<Rightarrow> (e, piv_public a)
        | Some d \<Rightarrow> (response_ok, with_objects d (piv_public a))) =
      apsnd piv_public (case piv_store_object i v d of None \<Rightarrow> (e, a) | Some d \<Rightarrow> (response_ok, with_objects d a))" for i v d e
    using piv_public_store [of i v d]
    by (cases "piv_store_object i v (piv_public_objects d)"; cases "piv_store_object i v d") simp_all
  show "apsnd piv_public (piv_handle_put_data (piv_public a) cmd) = apsnd piv_public (piv_handle_put_data a cmd)"
    by (simp add: piv_handle_put_data_def store split: option.split prod.split del: piv_public_updates(1))
qed

lemma piv_public_update:
  assumes "\<And>k. piv_hide_key (f (piv_hide_key k)) = piv_hide_key (f k)"
  shows "piv_public_objects (piv_update_key s f (piv_public_objects d)) = piv_public_objects (piv_update_key s f d)"
  by (simp add: piv_update_key_def assms split: piv_key_slot.split)

lemma piv_public_generate:
  "apsnd piv_public (piv_handle_generate_key X (piv_public a) cmd) = apsnd piv_public (piv_handle_generate_key X a cmd)"
proof -
  have set_key: "piv_public_objects (piv_update_key s (\<lambda>k. k\<lparr>pk_algorithm := i, pk_private := u, pk_public := v\<rparr>) (piv_public_objects d)) =
      piv_public_objects (piv_update_key s (\<lambda>k. k\<lparr>pk_algorithm := i, pk_private := u, pk_public := v\<rparr>) d)" for s i u v d
    by (rule piv_public_update) (simp add: piv_hide_key_def)
  show ?thesis
    by (simp add: piv_handle_generate_key_def generate_rsa_key_def generate_ecc_key_def Let_def set_key
        split: option.split sum.split piv_algorithm.split)
qed

lemma piv_public_auth:
  assumes "\<not> piv_key_command X a cmd" "ins cmd = 0x87"
  shows "seen piv_public (piv_handle_general_authenticate X (piv_public a) cmd) =
    seen piv_public (piv_handle_general_authenticate X a cmd)"
proof -
  have "apsnd piv_public (authenticate_mgmt_key X (piv_public a) tags) = apsnd piv_public (authenticate_mgmt_key X a tags)" for tags
    by (simp add: authenticate_mgmt_key_def Let_def split: option.split sum.split)
  moreover have "piv_key_operation X (piv_public a) slot tags = piv_key_operation X a slot tags"
    if "p2 cmd \<noteq> REF_MGMT_KEY" "piv_slot_of_byte (p2 cmd) = Some slot" for slot tags
    using assms that by (auto simp: piv_key_command_def piv_key_operation_def)
  ultimately show ?thesis
    by (auto simp: piv_handle_general_authenticate_def Let_def comp_def split: option.split)
qed

lemma piv_public_get_response:
  "seen piv_public (piv_handle_get_response (piv_public a) cmd) = seen piv_public (piv_handle_get_response a cmd)"
  by (simp add: piv_handle_get_response_def Let_def)

lemma piv_public_route:
  assumes "\<not> piv_key_command X a cmd"
  shows "seen piv_public (piv_route X (piv_public a) cmd) = seen piv_public (piv_route X a cmd)"
  using piv_public_auth [OF assms]
  by (simp add: piv_route_def piv_public_pin_handlers piv_public_data_handlers piv_public_generate
      piv_public_get_response piv_handle_get_version_def piv_handle_get_serial_def)

lemma piv_public_process:
  assumes "\<not> piv_key_command X a cmd"
  shows "seen piv_public (piv_process X (piv_public a) cmd) = seen piv_public (piv_process X a cmd)"
proof -
  have "piv_start_chain (piv_public a) cmd = piv_public (piv_start_chain a cmd)"
    by (simp add: piv_start_chain_def)
  then show ?thesis
    using piv_public_route [OF assms] piv_public_data_handlers(2)
    by (simp add: piv_process_def Let_def flip: piv_public_updates)
qed


interpretation piv_keys: keeps_secret piv_process piv_public piv_key_command
proof
  fix a b :: piv_applet and X :: "'k env" and cmd
  assume view: "piv_public a = piv_public b" and no: "\<not> piv_key_command X a cmd"
  have "piv_security a = piv_security b" using arg_cong [OF view, of piv_security] by simp
  with no have "\<not> piv_key_command X b cmd" by (simp add: piv_key_command_def)
  with no view show "seen piv_public (piv_process X a cmd) = seen piv_public (piv_process X b cmd)"
    by (metis piv_public_process)
qed

section \<open>The card\<close>

definition card_public :: "virtual_card \<Rightarrow> virtual_card" where
  "card_public c = c\<lparr>openpgp := pgp_public (openpgp c), piv := piv_public (piv c)\<rparr>"

text \<open>A call uses a key when it transmits a command that the selected applet needs one for.\<close>

definition card_uses_key :: "'k env \<Rightarrow> virtual_card \<Rightarrow> card_call \<Rightarrow> bool" where
  "card_uses_key X c call =
     (case call of
        Transmit d \<Rightarrow>
          (case parse_apdu d of
             Err _ \<Rightarrow> False
           | Ok cmd \<Rightarrow> powered c \<and>
               (active_applet c = OpenPGP \<and> pgp_key_command X (openpgp c) cmd \<or>
                active_applet c = PIV \<and> piv_key_command X (piv c) cmd))
      | _ \<Rightarrow> False)"

lemma card_public_eq_iff:
  "card_public c = card_public d \<longleftrightarrow>
     pgp_public (openpgp c) = pgp_public (openpgp d) \<and> piv_public (piv c) = piv_public (piv d) \<and>
     active_applet c = active_applet d \<and> vc_atr c = vc_atr d \<and> powered c = powered d"
  by (cases c; cases d) (auto simp: card_public_def)

lemma select_uses_no_key:
  "ins cmd = 0xA4 \<Longrightarrow> \<not> pgp_key_command X a cmd" "ins cmd = 0xA4 \<Longrightarrow> \<not> piv_key_command X b cmd"
  by (simp_all add: pgp_key_command_def pgp_uses_key_def piv_key_command_def INS_defs)

lemma public_answers:
  assumes "card_public c = card_public d"
  shows "\<not> pgp_key_command X (openpgp c) cmd \<Longrightarrow>
      seen card_public (pgp_answer X c cmd) = seen card_public (pgp_answer X d cmd)"
    "\<not> piv_key_command X (piv c) cmd \<Longrightarrow>
      seen card_public (piv_answer X c cmd) = seen card_public (piv_answer X d cmd)"
proof -
  note eq = assms [unfolded card_public_eq_iff]
  show "seen card_public (pgp_answer X c cmd) = seen card_public (pgp_answer X d cmd)"
    if "\<not> pgp_key_command X (openpgp c) cmd"
    using pgp_keys.unwinding [OF _ that, of "openpgp d"] eq
    by (auto simp: pgp_answer_def card_public_eq_iff elim!: seen_eqE)
  show "seen card_public (piv_answer X c cmd) = seen card_public (piv_answer X d cmd)"
    if "\<not> piv_key_command X (piv c) cmd"
    using piv_keys.unwinding [OF _ that, of "piv d"] eq
    by (auto simp: piv_answer_def card_public_eq_iff elim!: seen_eqE)
qed

lemma public_select:
  assumes "card_public c = card_public d" "ins cmd = 0xA4"
  shows "seen card_public (vc_handle_select X c cmd) = seen card_public (vc_handle_select X d cmd)"
proof -
  have "card_public (c\<lparr>active_applet := s\<rparr>) = card_public (d\<lparr>active_applet := s\<rparr>)" for s
    using assms(1) by (simp add: card_public_eq_iff)
  from public_answers [OF this, where X = X and cmd = cmd] assms(1) show ?thesis
    by (simp add: vc_handle_select_def select_uses_no_key [OF assms(2)])
qed

lemma public_transmit:
  assumes "card_public c = card_public d" "\<not> card_uses_key X c (Transmit bs)"
  shows "seen card_public (vc_process X bs c) = seen card_public (vc_process X bs d)"
proof (cases "parse_apdu bs")
  case (Inl e)
  then show ?thesis using assms(1) by (simp add: vc_process_def card_public_eq_iff)
next
  case (Inr cmd)
  note eq = assms(1) [unfolded card_public_eq_iff]
  show ?thesis
  proof (cases "powered c \<and> ins cmd \<noteq> 0xA4")
    case True
    then show ?thesis
      using Inr eq assms public_answers [OF assms(1), of X cmd]
      by (cases "active_applet d") (simp_all add: vc_process_def card_uses_key_def)
  next
    case False
    then show ?thesis
      using Inr eq assms(1) public_select [OF assms(1), of cmd X] by (auto simp: vc_process_def)
  qed
qed

lemma public_power:
  assumes "card_public c = card_public d"
  shows "apsnd card_public (vc_power_on c) = apsnd card_public (vc_power_on d)"
    "card_public (vc_power_off c) = card_public (vc_power_off d)"
    "apsnd card_public (vc_reset c) = apsnd card_public (vc_reset d)"
proof -
  have reset: "pgp_public (pgp_reset a) = pgp_reset (pgp_public a)" "piv_public (piv_reset p) = piv_reset (piv_public p)" for a p
    by (simp_all add: pgp_reset_def piv_reset_def)
  show "apsnd card_public (vc_power_on c) = apsnd card_public (vc_power_on d)"
    "card_public (vc_power_off c) = card_public (vc_power_off d)"
    "apsnd card_public (vc_reset c) = apsnd card_public (vc_reset d)"
    using assms by (simp_all add: card_public_eq_iff vc_power_on_def vc_power_off_def vc_reset_def reset)
qed

interpretation card_keys: keeps_secret vc.do_call card_public card_uses_key
proof
  fix c d :: virtual_card and X :: "'k env" and call
  assume view: "card_public c = card_public d" and no: "\<not> card_uses_key X c call"
  show "seen card_public (vc.do_call X c call) = seen card_public (vc.do_call X d call)"
    using public_power [OF view] public_transmit [OF view, of X] no view
    by (cases call) (simp_all add: card_do_def)
qed

section \<open>Properties\<close>

text \<open>
  C3: two cards that differ in the private keys alone (and in the files that hold them) answer any
  sequence of calls alike, byte for byte, as long as no command uses a key under the PIN that it
  needs: no data object, error, key import or generation, power cycle or guessed PIN tells anything
  of a private key.
\<close>

theorem private_keys_are_secret:
  assumes "card_public c = card_public d" "unused vc.do_call card_uses_key calls c"
  shows "fst (answers vc.do_call calls c) = fst (answers vc.do_call calls d)"
  using card_keys.same_answers [OF assms] by (rule conjunct1)

text \<open>Two cards with different signature keys, asked to sign without a PIN.\<close>

definition card_with_key :: "byte list \<Rightarrow> virtual_card" where
  "card_with_key priv = demo_card\<lparr>active_applet := OpenPGP,
     openpgp := put_state ((factory_state demo_env)\<lparr>key_sig := key_slot_default\<lparr>algorithm := attrs_ed25519,
       fingerprint := [1], private_key_data := priv\<rparr>\<rparr>) demo_pgp\<rparr>"

definition sign_calls :: "(demo_key env \<times> card_call) list" where
  "sign_calls = [(demo_env, Transmit [0x00, INS_PSO, 0x9E, 0x9A, 0x01, 0xAA]), (demo_env, Reset)]"

theorem private_keys_are_secret_witness:
  "private_key_data (key_sig (pgp_state (openpgp (card_with_key [1])))) \<noteq>
     private_key_data (key_sig (pgp_state (openpgp (card_with_key [2])))) \<and>
   fst (answers vc.do_call sign_calls (card_with_key [1])) =
     fst (answers vc.do_call sign_calls (card_with_key [2]))"
proof -
  have same: "card_public (card_with_key [1]) = card_public (card_with_key [2])"
    by (simp add: card_public_eq_iff card_with_key_def)
  have "unused vc.do_call card_uses_key sign_calls (card_with_key [1])"
    by (simp add: sign_calls_def card_uses_key_def parse_apdu_def parse_short_apdu_def apdu_new_def Let_def
        pgp_key_command_def pgp_uses_key_def INS_defs card_with_key_def split: option.split)
  from private_keys_are_secret [OF same this] show ?thesis by (simp add: card_with_key_def)
qed

end
