(* ===== verification/Pgp_Spec.thy ===== *)
theory Pgp_Spec
  imports Pgp_Session
begin

text \<open>
  What the OpenPGP applet promises about its PINs, as an abstract machine: three secrets with a
  number of tries each, the rights that are granted, and whether the card is terminated. The applet
  refines it: every command is a step of the machine, and what the machine can never do the applet
  never does.
\<close>

section \<open>The abstract machine\<close>

datatype secret = User | Admin | Resetting

text \<open>Quantifiers over the secrets compute.\<close>

instantiation secret :: enum
begin

definition "enum_secret = [User, Admin, Resetting]"
definition "enum_all_secret P \<longleftrightarrow> P User \<and> P Admin \<and> P Resetting"
definition "enum_ex_secret P \<longleftrightarrow> P User \<or> P Admin \<or> P Resetting"

instance
proof
  show all: "(UNIV :: secret set) = set enum_class.enum"
    by (auto simp: enum_secret_def intro: secret.exhaust)
  show "distinct (enum_class.enum :: secret list)" by (simp add: enum_secret_def)
  show "enum_class.enum_all P \<longleftrightarrow> Ball UNIV P" for P :: "secret \<Rightarrow> bool"
    unfolding all by (simp add: enum_all_secret_def enum_secret_def)
  show "enum_class.enum_ex P \<longleftrightarrow> Bex UNIV P" for P :: "secret \<Rightarrow> bool"
    unfolding all by (simp add: enum_ex_secret_def enum_secret_def)
qed

end

lemma all_secrets: "(\<forall>p. P p) \<longleftrightarrow> P User \<and> P Admin \<and> P Resetting"
  unfolding enum_all_secret_def [symmetric] by (simp add: enum_all)

lemma all_pin_types: "(\<forall>t. P t) \<longleftrightarrow> P PW1_81 \<and> P PW1_82 \<and> P PW3 \<and> P RC"
  by (metis pin_type.exhaust)

record auth =
  tries :: "secret \<Rightarrow> nat"
  limit :: "secret \<Rightarrow> nat"
  granted :: "security_condition set"
  ended :: bool

fun opens :: "secret \<Rightarrow> security_condition set" where
  "opens User = {SC_PW1_81, SC_PW1_82}"
| "opens Admin = {SC_PW3}"
| "opens Resetting = {}"

abbreviation refill :: "secret \<Rightarrow> auth \<Rightarrow> auth" where
  "refill p s \<equiv> s\<lparr>tries := (tries s)(p := limit s p)\<rparr>"

definition auth_factory :: auth where
  "auth_factory = \<lparr>tries = (\<lambda>p. if p = Resetting then 0 else 3), limit = (\<lambda>_. 3), granted = {}, ended = False\<rparr>"

datatype auth_event = Command | Restart

inductive auth_step :: "auth_event \<Rightarrow> auth \<Rightarrow> auth \<Rightarrow> bool" where
  idle: "auth_step Command s s"
| wrong: "\<not> ended s \<Longrightarrow> auth_step Command s (s\<lparr>tries := (tries s)(p := tries s p - 1)\<rparr>)"
| right: "\<not> ended s \<Longrightarrow> 0 < tries s p \<Longrightarrow> auth_step Command s (refill p s)"
| grant: "\<not> ended s \<Longrightarrow> 0 < tries s p \<Longrightarrow> c \<in> opens p \<Longrightarrow>
    auth_step Command s ((refill p s)\<lparr>granted := insert c (granted s)\<rparr>)"
| unblock: "\<not> ended s \<Longrightarrow> 0 < tries s Resetting \<Longrightarrow> auth_step Command s (refill User (refill Resetting s))"
| admin: "\<not> ended s \<Longrightarrow> SC_PW3 \<in> granted s \<Longrightarrow> p \<noteq> Admin \<Longrightarrow> auth_step Command s (refill p s)"
| used: "\<not> ended s \<Longrightarrow> auth_step Command s (s\<lparr>granted := granted s - {SC_PW1_81}\<rparr>)"
| lock: "auth_step Command s (s\<lparr>granted := {}\<rparr>)"
| finish: "\<not> ended s \<Longrightarrow> SC_PW3 \<in> granted s \<or> tries s User = 0 \<and> tries s Admin = 0 \<Longrightarrow>
    auth_step Command s (s\<lparr>ended := True\<rparr>)"
| restart: "auth_step Restart s auth_factory"

inductive_cases auth_commandE: "auth_step Command s s'"

inductive_simps auth_restart [simp]: "auth_step Restart s s'"

text \<open>Once every secret is blocked and PW3 is not granted, nothing is granted any more.\<close>

lemma blocked_step:
  assumes "auth_step Command s s'" "\<forall>p. tries s p = 0" "SC_PW3 \<notin> granted s"
  shows "(\<forall>p. tries s' p = 0) \<and> SC_PW3 \<notin> granted s' \<and> granted s' \<subseteq> granted s"
  using assms(1) by (cases rule: auth_commandE) (use assms(2,3) in auto)

section \<open>The abstraction\<close>

definition tries_of :: "pin_data \<Rightarrow> secret \<Rightarrow> nat" where
  "tries_of d p = (case p of User \<Rightarrow> unat (pw1_retry_counter d) | Admin \<Rightarrow> unat (pw3_retry_counter d)
     | Resetting \<Rightarrow> unat (rc_retry_counter d))"

definition limit_of :: "pin_data \<Rightarrow> secret \<Rightarrow> nat" where
  "limit_of d p = (case p of User \<Rightarrow> unat (pw1_max_retries d) | Admin \<Rightarrow> unat (pw3_max_retries d)
     | Resetting \<Rightarrow> unat (rc_max_retries d))"

definition auth_of :: "openpgp_applet \<Rightarrow> auth" where
  "auth_of a = \<lparr>tries = tries_of (pgp_pins a), limit = limit_of (pgp_pins a),
     granted = {c. verified c a}, ended = terminated (pgp_state a)\<rparr>"

fun secret_of :: "pin_type \<Rightarrow> secret" where
  "secret_of PW1_81 = User" | "secret_of PW1_82 = User" | "secret_of PW3 = Admin" | "secret_of RC = Resetting"

lemma tries_of_secret: "tries_of d (secret_of t) = unat (get_retry_counter t d)"
  "limit_of d (secret_of t) = unat (max_retries t d)"
  by (cases t; simp add: tries_of_def limit_of_def get_retry_counter_def max_retries_def)+

lemma tries_of_set [simp]:
  "tries_of (set_retry_counter t n d) = (tries_of d)(secret_of t := unat n)"
  "limit_of (set_retry_counter t n d) = limit_of d"
  by (cases t; simp add: tries_of_def limit_of_def set_retry_counter_def fun_eq_iff split: secret.split)+

lemma tries_of_set_pin [simp]:
  "tries_of (set_pin t h l d) = tries_of d" "limit_of (set_pin t h l d) = limit_of d"
  by (cases t; simp add: tries_of_def limit_of_def set_pin_def fun_eq_iff split: secret.split)+

lemma tries_of_fields [simp]:
  "tries_of (d\<lparr>pw1_valid_multiple := v\<rparr>) = tries_of d" "limit_of (d\<lparr>pw1_valid_multiple := v\<rparr>) = limit_of d"
  "tries_of (d\<lparr>rc_hash := h, rc_length := l\<rparr>) = tries_of d" "limit_of (d\<lparr>rc_hash := h, rc_length := l\<rparr>) = limit_of d"
  "tries_of (d\<lparr>rc_hash := h, rc_length := l, rc_retry_counter := n\<rparr>) = (tries_of d)(Resetting := unat n)"
  "limit_of (d\<lparr>rc_hash := h, rc_length := l, rc_retry_counter := n\<rparr>) = limit_of d"
  "tries_of (d\<lparr>pw1_hash := h, pw1_length := l, pw1_retry_counter := n\<rparr>) = (tries_of d)(User := unat n)"
  "limit_of (d\<lparr>pw1_hash := h, pw1_length := l, pw1_retry_counter := n\<rparr>) = limit_of d"
  by (simp_all add: tries_of_def limit_of_def fun_eq_iff split: secret.split)

text \<open>The effect of \<open>verify_pin\<close>, \<open>change_pin\<close> and the resets on the tries.\<close>

lemma verify_tries:
  "tries_of (snd (verify_pin X t p d)) =
     (if 0 < tries_of d (secret_of t) \<and> fst (verify_pin X t p d)
      then (tries_of d)(secret_of t := limit_of d (secret_of t))
      else (tries_of d)(secret_of t := tries_of d (secret_of t) - 1))"
  "limit_of (snd (verify_pin X t p d)) = limit_of d"
  "fst (verify_pin X t p d) \<Longrightarrow> 0 < tries_of d (secret_of t)"
  by (auto simp: verify_pin_alt tries_of_secret fun_eq_iff unsigned_eq_0_iff neq0_conv [symmetric]
      simp del: neq0_conv split: if_splits)

lemma change_tries:
  "tries_of (snd (change_pin X t p q d)) = tries_of (snd (verify_pin X t p d))"
  "limit_of (snd (change_pin X t p q d)) = limit_of d"
  by (simp_all add: change_pin_alt Let_def split_beta verify_tries(2))

lemma set_new_pw1_tries:
  "tries_of (snd (set_new_pw1 X q d)) = tries_of d \<or>
   tries_of (snd (set_new_pw1 X q d)) = (tries_of d)(User := limit_of d User)"
  "limit_of (snd (set_new_pw1 X q d)) = limit_of d"
  by (auto simp: set_new_pw1_def Let_def) (simp_all add: limit_of_def)

text \<open>A pair of PIN data whose tries differ as the machine allows.\<close>

definition pins_step :: "(secret \<Rightarrow> nat) \<Rightarrow> (secret \<Rightarrow> nat) \<Rightarrow> (secret \<Rightarrow> nat) \<Rightarrow> bool" where
  "pins_step l f g \<longleftrightarrow> (\<exists>p. g = f(p := f p - 1) \<or> (0 < f p \<and> g = f(p := l p))) \<or>
     (0 < f Resetting \<and> g = f(Resetting := l Resetting, User := l User)) \<or> g = f"

lemma pins_step_auth:
  assumes "pins_step (limit s) (tries s) g" "\<not> ended s"
  shows "auth_step Command s (s\<lparr>tries := g\<rparr>)"
proof -
  have self: "s\<lparr>tries := tries s\<rparr> = s" by simp
  show ?thesis
    using assms auth_step.wrong [of s] auth_step.right [of s] auth_step.unblock [of s] auth_step.idle [of s]
    by (auto simp: pins_step_def self)
qed

lemma verify_pins_step: "pins_step (limit_of d) (tries_of d) (tries_of (snd (verify_pin X t p d)))"
  unfolding pins_step_def verify_tries by auto

lemma reset_rc_pins_step:
  "pins_step (limit_of d) (tries_of d) (tries_of (snd (reset_pw1_with_rc X p q d)))"
  "limit_of (snd (reset_pw1_with_rc X p q d)) = limit_of d"
proof -
  let ?v = "verify_pin X RC p d"
  have new: "tries_of (snd (set_new_pw1 X q (snd ?v))) = tries_of (snd ?v) \<or>
      tries_of (snd (set_new_pw1 X q (snd ?v))) = (tries_of (snd ?v))(User := limit_of d User)"
    using set_new_pw1_tries(1) [of X q "snd ?v"] by (simp add: verify_tries(2))
  show "pins_step (limit_of d) (tries_of d) (tries_of (snd (reset_pw1_with_rc X p q d)))"
  proof (cases "rc_hash d = [] \<or> \<not> fst ?v")
    case True
    then show ?thesis
      using verify_pins_step [of d X RC p] by (auto simp: reset_pw1_with_rc_def pins_step_def split_beta split: bool.split)
  next
    case False
    then have "0 < tries_of d Resetting" using verify_tries(3) [of X RC p d] by simp
    moreover have "tries_of (snd ?v) = (tries_of d)(Resetting := limit_of d Resetting)"
      using False verify_tries(1) [of X RC p d] verify_tries(3) [of X RC p d] by simp
    ultimately show ?thesis
      using False new by (auto simp: reset_pw1_with_rc_def pins_step_def split_beta split: bool.split)
  qed
  show "limit_of (snd (reset_pw1_with_rc X p q d)) = limit_of d"
    by (simp add: reset_pw1_with_rc_def split_beta set_new_pw1_tries(2) verify_tries(2) split: bool.split)
qed

section \<open>Every command is a step\<close>

lemma auth_of_frame:
  assumes "security b = security a" "terminated (pgp_state b) = terminated (pgp_state a)"
    "limit_of (pgp_pins b) = limit_of (pgp_pins a)"
  shows "auth_of b = (auth_of a)\<lparr>tries := tries_of (pgp_pins b)\<rparr>"
  using assms by (simp add: auth_of_def)

lemma auth_of_pins_step:
  assumes "\<not> terminated (pgp_state a)" "security b = security a"
    "terminated (pgp_state b) = terminated (pgp_state a)" "limit_of (pgp_pins b) = limit_of (pgp_pins a)"
    "pins_step (limit_of (pgp_pins a)) (tries_of (pgp_pins a)) (tries_of (pgp_pins b))"
  shows "auth_step Command (auth_of a) (auth_of b)"
proof -
  have "auth_step Command (auth_of a) ((auth_of a)\<lparr>tries := tries_of (pgp_pins b)\<rparr>)"
    by (rule pins_step_auth) (use assms(1,5) in \<open>simp_all add: auth_of_def\<close>)
  then show ?thesis by (simp only: auth_of_frame [OF assms(2-4)])
qed

lemma auth_idle: "security b = security a \<Longrightarrow> terminated (pgp_state b) = terminated (pgp_state a) \<Longrightarrow>
    pgp_pins b = pgp_pins a \<Longrightarrow> auth_step Command (auth_of a) (auth_of b)"
  using auth_step.idle [of "auth_of a"] by (simp add: auth_of_def)

lemma verify_step:
  assumes "\<not> terminated (pgp_state a)"
  shows "auth_step Command (auth_of a) (auth_of (snd (handle_verify X a cmd)))"
proof (cases "verify_pin_type (p2 cmd) = None \<or> cmd_data cmd = []")
  case True
  then have "snd (handle_verify X a cmd) = a" by (auto simp: handle_verify_def split: option.split)
  then show ?thesis by (simp add: auth_step.idle)
next
  case False
  then obtain t c where t: "verify_pin_type (p2 cmd) = Some t" "condition_of t = Some c" "cmd_data cmd \<noteq> []"
    using condition_of_type [of "p2 cmd"] by auto
  let ?p = "strip_padding (cmd_data cmd)" and ?d = "pgp_pins a" and ?b = "snd (handle_verify X a cmd)"
  have pins: "pgp_pins ?b = snd (verify_pin X t ?p ?d)" using t by (simp add: handle_verify_pins)
  have same_end: "terminated (pgp_state ?b) = terminated (pgp_state a)" by (subst verify_state) simp
  show ?thesis
  proof (cases "get_retry_counter t ?d \<noteq> 0 \<and> pin_good X t ?d ?p")
    case True
    then have ok: "fst (verify_pin X t ?p ?d)" by (simp add: verify_pin_alt)
    have "{x. verified x ?b} = insert c {x. verified x a}"
      using True unfolding handle_verify_pin [OF t] by (auto simp: Let_def)
    then have "auth_of ?b = (refill (secret_of t) (auth_of a))\<lparr>granted := insert c (granted (auth_of a))\<rparr>"
      using verify_tries [of X t ?p ?d] ok by (simp add: auth_of_def pins same_end)
    moreover have "c \<in> opens (secret_of t)" using t(2) by (cases t) (auto simp: condition_of_def)
    ultimately show ?thesis
      using auth_step.grant [of "auth_of a" "secret_of t" c] verify_tries(3) [OF ok] assms
      by (simp add: auth_of_def)
  next
    case False
    then have "security ?b = security a" unfolding handle_verify_pin [OF t] by (auto simp: Let_def)
    then show ?thesis
      using assms same_end verify_pins_step
      by (intro auth_of_pins_step) (simp_all add: pins verify_tries(2))
  qed
qed

lemma change_step:
  assumes "\<not> terminated (pgp_state a)"
  shows "auth_step Command (auth_of a) (auth_of (snd (handle_change_reference_data X a cmd)))"
proof -
  let ?b = "snd (handle_change_reference_data X a cmd)"
  obtain t p q where "pgp_pins ?b = pgp_pins a \<or> pgp_pins ?b = snd (change_pin X t p q (pgp_pins a))"
    using handle_change_pins [of X a cmd] by blast
  then have "limit_of (pgp_pins ?b) = limit_of (pgp_pins a) \<and>
      pins_step (limit_of (pgp_pins a)) (tries_of (pgp_pins a)) (tries_of (pgp_pins ?b))"
    using verify_pins_step [of "pgp_pins a" X t p] by (auto simp: change_tries pins_step_def)
  moreover have "terminated (pgp_state ?b) = terminated (pgp_state a)" by (subst change_state) simp
  ultimately show ?thesis using assms by (intro auth_of_pins_step) simp_all
qed

lemma reset_step:
  assumes "\<not> terminated (pgp_state a)"
  shows "auth_step Command (auth_of a) (auth_of (snd (handle_reset_retry_counter X a cmd)))"
proof -
  let ?b = "snd (handle_reset_retry_counter X a cmd)"
  have same_end: "terminated (pgp_state ?b) = terminated (pgp_state a)" by (subst reset_state) simp
  have "(\<exists>p q. pgp_pins ?b = snd (reset_pw1_with_rc X p q (pgp_pins a))) \<or>
      verified SC_PW3 a \<and> (\<exists>q. pgp_pins ?b = snd (set_new_pw1 X q (pgp_pins a))) \<or> pgp_pins ?b = pgp_pins a"
    by (auto simp: handle_reset_retry_counter_def reset_pw1_with_pw3_def Let_def split_beta)
  then consider p q where "pgp_pins ?b = snd (reset_pw1_with_rc X p q (pgp_pins a))"
    | q where "verified SC_PW3 a" "pgp_pins ?b = snd (set_new_pw1 X q (pgp_pins a))"
    | "pgp_pins ?b = pgp_pins a" by blast
  then show ?thesis
  proof cases
    case 1
    then show ?thesis
      using assms same_end reset_rc_pins_step by (intro auth_of_pins_step) simp_all
  next
    case 2
    have "auth_of ?b = (auth_of a)\<lparr>tries := tries_of (pgp_pins ?b)\<rparr>"
      using same_end 2 by (intro auth_of_frame) (simp_all add: set_new_pw1_tries(2))
    then have "auth_of ?b = auth_of a \<or> auth_of ?b = refill User (auth_of a)"
      using set_new_pw1_tries(1) [of X q "pgp_pins a"] 2(2) by (auto simp: auth_of_def)
    then show ?thesis
      using auth_step.idle [of "auth_of a"] auth_step.admin [of "auth_of a" User] assms 2(1)
      by (auto simp: auth_of_def)
  next
    case 3
    then show ?thesis using same_end by (intro auth_idle) simp_all
  qed
qed

lemma put_data_pins:
  assumes "put_data_object X tag d s = Ok s'"
  shows "terminated s' = terminated s \<and> limit_of (pin_data s') = limit_of (pin_data s) \<and>
    (tries_of (pin_data s') = tries_of (pin_data s) \<or>
     tag = 0x00D3 \<and> tries_of (pin_data s') = (tries_of (pin_data s))(Resetting := limit_of (pin_data s) Resetting))"
  using assms unfolding put_data_defs
  by (elim if_eqE) (auto simp: Let_def limit_of_def split: if_splits option.splits)

lemma put_step:
  assumes "\<not> terminated (pgp_state a)"
  shows "auth_step Command (auth_of a) (auth_of (snd (handle_put_data X a cmd)))"
proof (cases "put_data_object X (p1p2 cmd) (cmd_data cmd) (pgp_state a)")
  case (Inl w)
  then have "snd (handle_put_data X a cmd) = a" by (simp add: handle_put_data_def Let_def)
  then show ?thesis by (simp add: auth_step.idle)
next
  case (Inr s)
  note p = put_data_pins [OF Inr]
  show ?thesis
  proof (cases "check_access a (put_data_access (p1p2 cmd))")
    case True
    then have b: "pgp_state (snd (handle_put_data X a cmd)) = s" using Inr by (simp add: handle_put_data_def Let_def)
    then have au: "auth_of (snd (handle_put_data X a cmd)) = (auth_of a)\<lparr>tries := tries_of (pin_data s)\<rparr>"
      using p by (intro trans [OF auth_of_frame]) simp_all
    show ?thesis
    proof (cases "tries_of (pin_data s) = tries_of (pgp_pins a)")
      case same: True
      then show ?thesis using au auth_step.idle [of "auth_of a"] by (simp add: auth_of_def)
    next
      case False
      with p have "p1p2 cmd = 0x00D3" "tries_of (pin_data s) = (tries_of (pgp_pins a))(Resetting := limit_of (pgp_pins a) Resetting)"
        by auto
      moreover from this True have "verified SC_PW3 a" by (simp add: put_data_access_def check_access_def)
      ultimately show ?thesis
        using au auth_step.admin [of "auth_of a" Resetting] assms by (simp add: auth_of_def)
    qed
  next
    case False
    then have "snd (handle_put_data X a cmd) = a" by (simp add: handle_put_data_def Let_def)
    then show ?thesis by (simp add: auth_step.idle)
  qed
qed

lemma sign_step:
  assumes "handle_pso_sign X a cmd = Some (r, b)" "\<not> terminated (pgp_state a)"
  shows "auth_step Command (auth_of a) (auth_of b)"
  using sign_error [OF assms(1)]
proof (elim disjE conjE)
  assume "b = a"
  then show ?thesis by (simp add: auth_step.idle)
next
  assume b: "pgp_state b = (pgp_state a)\<lparr>signature_counter := saturating_inc (signature_counter (pgp_state a))\<rparr>"
    "security b = after_sign (security a)"
  show ?thesis
  proof (cases "ss_valid_multiple (security a)")
    case True
    then have "security b = security a" using b(2) by (simp add: after_sign_def)
    then show ?thesis using b(1) by (intro auth_idle) simp_all
  next
    case False
    then have "{c. verified c b} = {c. verified c a} - {SC_PW1_81}" using b(2) by auto
    then have "auth_of b = (auth_of a)\<lparr>granted := granted (auth_of a) - {SC_PW1_81}\<rparr>"
      using b(1) by (simp add: auth_of_def)
    then show ?thesis using auth_step.used [of "auth_of a"] assms(2) by (simp add: auth_of_def)
  qed
qed

lemma terminate_step:
  assumes "\<not> terminated (pgp_state a)"
  shows "auth_step Command (auth_of a) (auth_of (snd (handle_terminate X a cmd)))"
proof (cases "verified SC_PW3 a \<or> pw1_retry_counter (pgp_pins a) = 0 \<and> pw3_retry_counter (pgp_pins a) = 0")
  case True
  then have b: "pgp_state (snd (handle_terminate X a cmd)) = (pgp_state a)\<lparr>terminated := True\<rparr>"
    by (auto simp: handle_terminate_def Let_def)
  then have "auth_of (snd (handle_terminate X a cmd)) = (auth_of a)\<lparr>ended := True\<rparr>"
    by (simp add: auth_of_def)
  moreover have "SC_PW3 \<in> granted (auth_of a) \<or> tries (auth_of a) User = 0 \<and> tries (auth_of a) Admin = 0"
    using True by (auto simp: auth_of_def tries_of_def)
  ultimately show ?thesis using auth_step.finish [of "auth_of a"] assms by (simp add: auth_of_def)
next
  case False
  then have "snd (handle_terminate X a cmd) = a" by (auto simp: handle_terminate_def Let_def)
  then show ?thesis by (simp add: auth_step.idle)
qed

lemma auth_of_activate: "auth_of (snd (handle_activate X a cmd)) = auth_factory"
  by (simp add: auth_of_def auth_factory_def factory_state_def tries_of_def limit_of_def pin_data_default_def
      card_state_default_def fun_eq_iff split: secret.split)

lemma auth_of_unchain [simp]: "auth_of (unchain a) = auth_of a" "auth_of (a\<lparr>current_le := l\<rparr>) = auth_of a"
  by (simp_all add: auth_of_def)

lemma pgp_refines:
  assumes "pgp_process X a cmd = Some (r, b)"
  shows "auth_step Command (auth_of a) (auth_of b) \<or> ins cmd = INS_ACTIVATE_FILE \<and> auth_step Restart (auth_of a) (auth_of b)"
  using assms
proof (cases rule: pgp_process_cases)
  case buffers
  then show ?thesis using auth_idle [of b a] by (simp add: buffers_only_def pgp_state_def)
next
  case routed
  let ?a = "unchain (a\<lparr>current_le := le cmd\<rparr>)" and ?c = "effective_cmd a cmd"
  show ?thesis
  proof (cases "ins cmd = INS_ACTIVATE_FILE")
    case True
    then have "b = snd (handle_activate X ?a ?c)" using routed(5) by (simp add: pgp_route_def INS_defs)
    then show ?thesis using True auth_of_activate auth_step.restart by metis
  next
    case False
    then have run: "\<not> terminated (pgp_state ?a)" using routed(4) by simp
    have same: "auth_of ?a = auth_of a" by simp
    from routed(5) have "auth_step Command (auth_of ?a) (auth_of b)"
    proof (cases rule: pgp_route_cases)
      case none
      then show ?thesis by (simp add: auth_step.idle)
    next
      case verify
      then show ?thesis using verify_step [OF run] by simp
    next
      case change
      then show ?thesis using change_step [OF run] by simp
    next
      case reset
      then show ?thesis using reset_step [OF run] by simp
    next
      case put
      then show ?thesis using put_step [OF run] by simp
    next
      case import
      then show ?thesis using import_frame [of X ?a ?c r b] by (intro auth_idle) simp_all
    next
      case generate
      then show ?thesis by (intro auth_idle) simp_all
    next
      case sign
      then show ?thesis using sign_step [OF sign(2) run] by simp
    next
      case response
      then show ?thesis using same_but_response_parts [OF response] by (intro auth_idle) simp_all
    next
      case terminate
      then show ?thesis using terminate_step [OF run] by simp
    next
      case activate
      with False show ?thesis by simp
    qed
    then show ?thesis by (simp only: same simp_thms)
  qed
qed

lemma pgp_reset_refines: "auth_step Command (auth_of a) (auth_of (pgp_reset a))"
proof -
  have "auth_of (pgp_reset a) = (auth_of a)\<lparr>granted := {}\<rparr>"
    by (simp add: auth_of_def pgp_reset_def pgp_state_def)
  then show ?thesis by (simp add: auth_step.lock)
qed

section \<open>Properties\<close>

text \<open>
  C7: the applet refines the abstract machine: under the abstraction to tries, granted rights and
  the end of the card, every command is a step of the machine, a restart only for ACTIVATE FILE.
\<close>

theorem applet_refines_spec:
  assumes "pgp_process X a cmd = Some (r, b)"
  shows "\<exists>e. auth_step e (auth_of a) (auth_of b) \<and> (e = Restart \<longrightarrow> ins cmd = INS_ACTIVATE_FILE)"
  using pgp_refines [OF assms] by blast

theorem applet_refines_spec_witness:
  "\<exists>r b e. pgp_process demo_env demo_pgp (verify_cmd 0x83 DEFAULT_PW3) = Some (r, b) \<and>
     auth_step e (auth_of demo_pgp) (auth_of b) \<and> SC_PW3 \<in> granted (auth_of b)"
proof -
  obtain r b where b: "pgp_process demo_env demo_pgp (verify_cmd 0x83 DEFAULT_PW3) = Some (r, b)" "verified SC_PW3 b"
    using demo_verify by blast
  from applet_refines_spec [OF b(1)] b show ?thesis by (auto simp: auth_of_def)
qed

text \<open>
  C37: when every secret is blocked and PW3 is not verified, no sequence of commands without ACTIVATE
  FILE, with whatever PINs, ever unblocks one or verifies a PIN again: by the refinement this is
  the corresponding fact of the abstract machine.
\<close>

theorem blocked_card_stays_blocked:
  assumes "reachable not_activate a b" "\<forall>t. get_retry_counter t (pgp_pins a) = 0" "\<not> verified SC_PW3 a"
  shows "(\<forall>t. get_retry_counter t (pgp_pins b) = 0) \<and> (\<forall>c. verified c b \<longrightarrow> verified c a)"
proof -
  let ?I = "\<lambda>s. (\<forall>p. tries (auth_of s) p = 0) \<and> SC_PW3 \<notin> granted (auth_of s) \<and> granted (auth_of s) \<subseteq> granted (auth_of a)"
  have tr: "(\<forall>p. tries (auth_of s) p = 0) \<longleftrightarrow> (\<forall>t. get_retry_counter t (pgp_pins s) = 0)" for s
    by (simp add: all_secrets all_pin_types auth_of_def tries_of_def get_retry_counter_def unsigned_eq_0_iff)
  have step: "?I s'" if "?I s" "not_activate X s cmd" "pgp_process X s cmd = Some (r, s')" for X :: "'a env" and s cmd r s'
  proof -
    have "auth_step Command (auth_of s) (auth_of s')"
      using pgp_refines [OF that(3)] that(2) by (simp add: not_activate_def)
    from blocked_step [OF this] that(1) show ?thesis by blast
  qed
  have "?I a" using assms(2,3) tr [of a] by (simp add: auth_of_def)
  then have "?I b" by (rule cmd_reach_keeps [OF assms(1)]) (rule step)
  then show ?thesis using tr [of b] by (auto simp: auth_of_def)
qed

theorem blocked_card_stays_blocked_witness:
  "\<exists>a r b. (\<forall>t. get_retry_counter t (pgp_pins a) = 0) \<and>
     pgp_process demo_env a (verify_cmd 0x83 DEFAULT_PW3) = Some (r, b) \<and> \<not> verified SC_PW3 b"
proof -
  let ?d = "(pgp_pins demo_pgp)\<lparr>pw1_retry_counter := 0, pw3_retry_counter := 0, rc_retry_counter := 0\<rparr>"
  let ?a = "put_pin_data ?d demo_pgp"
  have a: "\<forall>t. get_retry_counter t (pgp_pins ?a) = 0"
    by (auto simp: get_retry_counter_def split: pin_type.split)
  have na: "\<not> verified SC_PW3 ?a" by simp
  obtain r b where b: "pgp_process demo_env ?a (verify_cmd 0x83 DEFAULT_PW3) = Some (r, b)"
    using verify_cmd_process [of ?a demo_env] by (auto intro: prod.exhaust)
  have "not_activate demo_env ?a (verify_cmd 0x83 DEFAULT_PW3)"
    by (simp add: not_activate_def verify_cmd_def INS_defs)
  then have "reachable (not_activate :: demo_key env \<Rightarrow> _) ?a b"
    using b by (rule cmd_reach_one [where P = pgp_process and C = not_activate])
  from blocked_card_stays_blocked [OF this a na] a b na show ?thesis by blast
qed

end
