(* ===== verification/Demo_Disk.thy ===== *)
theory Demo_Disk
  imports Demo_Env "HOL-Library.Countable"
begin

text \<open>
  A concrete environment whose disk always works and whose file format can store every card state:
  the states are countable, and the file holds the number of the state in unary.
\<close>

section \<open>Card states are countable\<close>

instance word :: (len) countable
  by (rule countable_classI [of unat]) (simp add: word_unat_eq_iff)

instance algorithm_attributes_ext :: (countable) countable
  by (rule countable_classI [of "\<lambda>r. to_nat
      (algorithm_id r, param1 r, param2 r, param3 r, curve_oid r, algorithm_attributes.more r)"]) simp

instance key_slot_ext :: (countable) countable
  by (rule countable_classI [of "\<lambda>r. to_nat
      (fingerprint r, generation_time r, ca_fingerprint r, algorithm r, uif r, private_key_data
       r, public_key_data r, key_slot.more r)"]) simp

instance pin_data_ext :: (countable) countable
  by (rule countable_classI [of "\<lambda>r. to_nat
      (pw1_hash r, pw1_length r, pw1_min_length r, pw1_max_length r, pw1_retry_counter r,
       pw1_max_retries r, pw1_valid_multiple r, pw3_hash r, pw3_length r, pw3_min_length r,
       pw3_max_length r, pw3_retry_counter r, pw3_max_retries r, rc_hash r, rc_length r,
       rc_min_length r, rc_max_length r, rc_retry_counter r, rc_max_retries r, pin_data.more r)"]) simp

instance cardholder_data_ext :: (countable) countable
  by (rule countable_classI [of "\<lambda>r. to_nat
      (ch_name r, ch_language r, ch_sex r, ch_login r, ch_url r, cardholder_data.more r)"]) simp

instance card_state_ext :: (countable) countable
  by (rule countable_classI [of "\<lambda>r. to_nat
      (manufacturer_id r, serial_number r, version_major r, version_minor r, pin_data r,
       cardholder r, key_sig r, key_dec r, key_aut r, signature_counter r, private_do_1 r,
       private_do_2 r, private_do_3 r, private_do_4 r, certificate r, terminated r,
       card_state.more r)"]) simp

section \<open>The environment\<close>

definition unary :: "nat \<Rightarrow> string" where
  "unary n = replicate n (CHR ''1'')"

definition disk_env :: "demo_key env" where
  "disk_env = demo_env\<lparr>to_json := \<lambda>s. Some (unary (to_nat s)), from_json := \<lambda>j. Some (from_nat (length j))\<rparr>"

lemma disk_env_simps [simp]:
  "to_json disk_env s = Some (unary (to_nat s))" "from_json disk_env (unary (to_nat s)) = Some s"
  "fs_laws disk_env" "json_laws disk_env" "fst (fs_write disk_env p c f)" "fs_create_dir disk_env p f"
  "fst (fs_rename disk_env p q f)"
  by (auto simp: disk_env_def unary_def demo_env_def fs_laws_def json_laws_def)

end
