(* ===== verification/Pgp_Durable.thy ===== *)
theory Pgp_Durable
  imports Pgp_Session Demo_Disk
begin

text \<open>
  What of the OpenPGP card survives the end of the process: every command that changes PINs, retry
  counters or keys has written the card state to its file when it answers, with one exception, a key
  import that fails. While the disk works, a card that is created again starts from what the last
  command left.
\<close>

section \<open>What a command does to the store\<close>

definition saved_from :: "'k env \<Rightarrow> openpgp_applet \<Rightarrow> openpgp_applet \<Rightarrow> bool" where
  "saved_from X a b \<longleftrightarrow> (\<exists>st. store b = saved X ((store a)\<lparr>state := st\<rparr>))"

lemma saved_from_state: "saved_from X a b \<Longrightarrow> store b = saved X ((store a)\<lparr>state := pgp_state b\<rparr>)"
  by (auto simp: saved_from_def pgp_state_def)

lemma store_put [simp]:
  "store (put_state s a) = (store a)\<lparr>state := s\<rparr>" "store (put_pgp_slot kt k a) = (store a)\<lparr>state := put_slot kt k (pgp_state a)\<rparr>"
  "store (put_pin_data d a) = (store a)\<lparr>state := (pgp_state a)\<lparr>pin_data := d\<rparr>\<rparr>"
  "store (pgp_save X a) = saved X (store a)" "store (unchain a) = store a"
  by (simp_all add: put_state_def put_pgp_slot_def put_pin_data_def pgp_save_def unchain_def)

lemma store_same [simp]: "(store a)\<lparr>state := pgp_state a\<rparr> = store a"
  by (simp add: pgp_state_def)

lemma create_response_store [simp]: "store (snd (create_response a d)) = store a"
  by (simp add: create_response_def Let_def)

lemma same_but_response_store: "same_but_response a b \<Longrightarrow> store b = store a"
  by (auto simp: same_but_response_def)

lemma store_verify: "store (snd (handle_verify X a cmd)) = store a \<or> saved_from X a (snd (handle_verify X a cmd))"
  using condition_of_type [of "p2 cmd"]
  by (auto simp: handle_verify_def saved_from_def Let_def split_beta split: option.splits)

lemma store_change:
  "store (snd (handle_change_reference_data X a cmd)) = store a \<or> saved_from X a (snd (handle_change_reference_data X a cmd))"
  by (auto simp: handle_change_reference_data_def saved_from_def Let_def split_beta split: option.splits)

lemma reset_pw1_with_pw3_fails: "\<not> fst (reset_pw1_with_pw3 X p d) \<Longrightarrow> snd (reset_pw1_with_pw3 X p d) = d"
  by (auto simp: reset_pw1_with_pw3_def set_new_pw1_def Let_def split: if_splits)

lemma store_reset:
  "store (snd (handle_reset_retry_counter X a cmd)) = store a \<or> saved_from X a (snd (handle_reset_retry_counter X a cmd))"
  using reset_pw1_with_pw3_fails [of X "cmd_data cmd" "pgp_pins a"]
  by (auto simp: handle_reset_retry_counter_def saved_from_def Let_def split_beta)

lemma store_put_data:
  "store (snd (handle_put_data X a cmd)) = store a \<or> saved_from X a (snd (handle_put_data X a cmd))"
  by (auto simp: handle_put_data_def saved_from_def Let_def split: sum.splits)

lemma store_generate:
  "store (snd (handle_generate_key X a cmd)) = store a \<or> saved_from X a (snd (handle_generate_key X a cmd))"
  by (auto simp: generate_key_defs saved_from_def Let_def split: option.splits sum.splits prod.splits)

lemma store_sign:
  "handle_pso_sign X a cmd = Some (r, b) \<Longrightarrow> store b = store a \<or> saved_from X a b"
  by (auto simp: handle_pso_sign_def saved_from_def Let_def
      split: if_splits option.splits sum.splits dest!: arg_cong [where f = "\<lambda>x. store (snd x)"], metis)

lemma store_import:
  assumes "handle_put_data_odd X a cmd = Some (r, b)"
  shows "store b = store a \<or> saved_from X a b \<or>
    verified SC_PW3 a \<and> (\<exists>kt k. store b = (store a)\<lparr>state := put_slot kt k (pgp_state a)\<rparr>)"
  using assms
  by (auto simp: handle_put_data_odd_def handle_key_import_def saved_from_def Let_def
      split: if_splits option.splits sum.splits prod.splits, blast)

lemma store_life_cycle:
  "store (snd (handle_terminate X a cmd)) = store a \<or> saved_from X a (snd (handle_terminate X a cmd))"
  "saved_from X a (snd (handle_activate X a cmd))"
  by (auto simp: handle_terminate_def handle_activate_def saved_from_def reset_to_factory_def
      initialize_default_pins_def Let_def)

text \<open>The store after a command: untouched, saved, or with a key slot changed in memory only.\<close>

lemma pgp_store_cases:
  assumes "pgp_process X a cmd = Some (r, b)"
  obtains (same) "store b = store a"
  | (saved) "store b = saved X ((store a)\<lparr>state := pgp_state b\<rparr>)"
  | (unsaved) kt k where "ins cmd = INS_PUT_DATA_ODD" "verified SC_PW3 a"
      "store b = (store a)\<lparr>state := put_slot kt k (pgp_state a)\<rparr>"
proof -
  let ?a = "unchain (a\<lparr>current_le := le cmd\<rparr>)" and ?c = "effective_cmd a cmd"
  have st: "store ?a = store a" "pgp_state ?a = pgp_state a" "\<And>f. verified f ?a = verified f a" by simp_all
  consider "store b = store a" | "saved_from X ?a b"
    | kt k where "ins cmd = INS_PUT_DATA_ODD" "verified SC_PW3 a" "store b = (store a)\<lparr>state := put_slot kt k (pgp_state a)\<rparr>"
    using assms
  proof (cases rule: pgp_process_cases)
    case buffers
    then show thesis using that(1) by (simp add: buffers_only_def)
  next
    case routed
    from routed(5) show thesis
    proof (cases rule: pgp_route_cases)
      case none
      then show thesis using that(1) st by simp
    next
      case verify
      then show thesis using that(1,2) st store_verify [of X ?a ?c] by auto
    next
      case change
      then show thesis using that(1,2) st store_change [of X ?a ?c] by auto
    next
      case reset
      then show thesis using that(1,2) st store_reset [of X ?a ?c] by auto
    next
      case put
      then show thesis using that(1,2) st store_put_data [of X ?a ?c] by auto
    next
      case import
      then show thesis using that st store_import [of X ?a ?c r b] by auto
    next
      case generate
      then show thesis using that(1,2) st store_generate [of X ?a ?c] by auto
    next
      case sign
      then show thesis using that(1,2) st store_sign [of X ?a ?c r b] by auto
    next
      case response
      then show thesis using that(1) st same_but_response_store by simp
    next
      case terminate
      then show thesis using that(1,2) st store_life_cycle(1) [of X ?a ?c] by auto
    next
      case activate
      then show thesis using that(2) store_life_cycle(2) [of X ?a ?c] by simp
    qed
  qed
  then show thesis
  proof cases
    case 2
    then show thesis using saved_from_state [OF 2] st by (intro that(2)) simp
  qed (use that in blast)+
qed

section \<open>A disk that works\<close>

definition disk_works :: "'k env \<Rightarrow> bool" where
  "disk_works X \<longleftrightarrow> fs_laws X \<and> json_laws X \<and> (\<forall>s. to_json X s \<noteq> None) \<and>
     (\<forall>p c f. fst (fs_write X p c f)) \<and> (\<forall>p f. fs_create_dir X p f) \<and> (\<forall>p q f. fst (fs_rename X p q f))"

text \<open>The state a card starts from when it is created on the files of the store.\<close>

definition reloaded :: "'k env \<Rightarrow> card_data_store \<Rightarrow> card_state" where
  "reloaded X s = state (snd (store_load X s))"

lemma migrate_state [simp]: "migrate_legacy_state X (s\<lparr>state := st\<rparr>) = (migrate_legacy_state X s)\<lparr>state := st\<rparr>"
  by (simp add: migrate_legacy_state_def Let_def)

lemma reloaded_state [simp]: "reloaded X (s\<lparr>state := st\<rparr>) = reloaded X s"
  by (simp add: reloaded_def store_load_def Let_def initialize_default split: option.split)

lemma reloaded_saved:
  assumes "disk_works X" "disk_works Y" "from_json Y = from_json X"
  shows "reloaded Y (saved X s) = state s"
proof -
  have laws: "fs_laws X" "json_laws X" "fs_laws Y" using assms by (simp_all add: disk_works_def)
  have "fst (store_save X s)"
    using assms(1)
    by (auto simp: disk_works_def store_save_def ensure_storage_dir_def Let_def split_beta split: option.split)
  then have "store_save X s = (True, saved X s)" by (simp add: saved_def prod_eq_iff)
  from store_save_ok [OF laws(1) this] obtain j where j: "to_json X (state s) = Some j"
    "store_fs (saved X s) = (store_fs s)(state_file s \<mapsto> j)" by blast
  then have "from_json Y j = Some (state s)" using laws(2) assms(3) by (simp add: json_laws_def)
  with j laws(3) show ?thesis
    by (simp add: reloaded_def store_load_def migrate_legacy_state_def fs_laws_def Let_def)
qed

text \<open>Loading twice gives the same state.\<close>

lemma load_frame:
  "state_file (snd (store_load X s)) = state_file s" "storage_dir (snd (store_load X s)) = storage_dir s"
  "store_fs (snd (store_load X s)) = store_fs (migrate_legacy_state X s)"
  by (simp_all add: store_load_def initialize_default_pins_def Let_def split: option.split)

lemma migrate_idem:
  assumes "disk_works X" "store_fs t = store_fs (migrate_legacy_state X s)" "state_file t = state_file s"
    "storage_dir t = storage_dir s"
  shows "migrate_legacy_state X t = t"
proof -
  have laws: "fs_exists X p f \<longleftrightarrow> f p \<noteq> None" "snd (fs_rename X p q f) = f(p := None, q := f p)" for p q f
    using assms(1) by (simp_all add: disk_works_def fs_laws_def)
  show ?thesis
    using assms(2-) by (auto simp: migrate_legacy_state_def laws Let_def split: if_splits)
qed

lemma reloaded_file:
  assumes "disk_works X"
  shows "reloaded X s = (case store_fs (migrate_legacy_state X s) (state_file s) of
      None \<Rightarrow> factory_state X
    | Some j \<Rightarrow> (case from_json X j of None \<Rightarrow> factory_state X | Some st \<Rightarrow> st))"
proof -
  have fs: "fs_exists X p f \<longleftrightarrow> f p \<noteq> None" "fs_read X p f = f p" for p f
    using assms by (simp_all add: disk_works_def fs_laws_def)
  show ?thesis
    by (auto simp: reloaded_def store_load_def fs initialize_default Let_def split: option.split)
qed

lemma reloaded_loaded:
  assumes "disk_works X"
  shows "reloaded X (snd (store_load X s)) = reloaded X s"
proof -
  have "migrate_legacy_state X (snd (store_load X s)) = snd (store_load X s)"
    by (rule migrate_idem [OF assms]) (simp_all add: load_frame)
  then show ?thesis by (simp add: reloaded_file [OF assms] load_frame)
qed

text \<open>What is the same in memory and on disk stays so, unless an import that fails changes it.\<close>

definition on_disk :: "'k env \<Rightarrow> 'k env \<Rightarrow> openpgp_applet \<Rightarrow> apdu \<Rightarrow> bool" where
  "on_disk Y X a cmd \<longleftrightarrow> disk_works X \<and> from_json X = from_json Y"

lemma durable_step:
  assumes "pgp_process X a cmd = Some (r, b)" "on_disk Y X a cmd" "disk_works Y"
    and "f (reloaded Y (store a)) = f (pgp_state a)"
    and "ins cmd = INS_PUT_DATA_ODD \<Longrightarrow> verified SC_PW3 a \<Longrightarrow> \<forall>kt k s. f (put_slot kt k s) = f s"
  shows "f (reloaded Y (store b)) = f (pgp_state b)"
  using assms(1)
proof (cases rule: pgp_store_cases)
  case same
  then show ?thesis using assms(4) by (simp add: pgp_state_def)
next
  case saved
  have "reloaded Y (saved X ((store a)\<lparr>state := pgp_state b\<rparr>)) = pgp_state b"
    using assms(2,3) by (subst reloaded_saved) (simp_all add: on_disk_def)
  with saved show ?thesis by simp
next
  case (unsaved kt k)
  have "pgp_state b = put_slot kt k (pgp_state a)" using unsaved(3) by (simp add: pgp_state_def)
  with unsaved assms(4,5) show ?thesis by simp
qed

section \<open>Properties\<close>

text \<open>
  C8: on a working disk the PINs and their retry counters survive the process: from a card created on
  any files, after any commands, a card created on the files as they are then has the same PIN
  data. Restarting pcscd gives no tries back.
\<close>

theorem pins_are_durable:
  assumes "disk_works Y" "reachable (on_disk Y) (pgp_new (snd (store_load Y s))) b"
  shows "pin_data (reloaded Y (store b)) = pgp_pins b"
proof -
  let ?a = "pgp_new (snd (store_load Y s))"
  have "pin_data (reloaded Y (store ?a)) = pgp_pins ?a"
    using reloaded_loaded [OF assms(1)] by (simp add: pgp_new_def pgp_state_def reloaded_def)
  then show ?thesis
    by (rule cmd_reach_keeps [OF assms(2), where I = "\<lambda>a. pin_data (reloaded Y (store a)) = pgp_pins a"])
      (erule durable_step [rotated 3], auto simp: assms(1))
qed

lemma disk_env_works: "disk_works disk_env"
  by (simp add: disk_works_def)

theorem pins_are_durable_witness:
  "\<exists>r b. pgp_process disk_env (pgp_new (snd (store_load disk_env demo_store))) (verify_cmd 0x83 [0x31]) = Some (r, b) \<and>
     pin_data (reloaded disk_env (store b)) = pgp_pins b"
proof -
  let ?a = "pgp_new (snd (store_load disk_env demo_store))"
  have fs: "fs_exists disk_env p f \<longleftrightarrow> f p \<noteq> None" for p f
    using disk_env_works by (simp add: disk_works_def fs_laws_def)
  have "reloaded disk_env demo_store = factory_state disk_env"
    by (subst reloaded_file [OF disk_env_works]) (simp add: demo_store_def migrate_legacy_state_def fs)
  then have "\<not> terminated (pgp_state ?a)"
    by (simp add: pgp_new_def pgp_state_def reloaded_def)
  then obtain r b where b: "pgp_process disk_env ?a (verify_cmd 0x83 [0x31]) = Some (r, b)"
    using verify_cmd_process [of ?a disk_env "0x83" "[0x31]"] by (auto simp: pgp_new_def intro: prod.exhaust)
  have "reachable (on_disk disk_env) ?a b"
    by (rule cmd_reach_one [where P = pgp_process and C = "on_disk disk_env", OF _ b])
      (simp add: on_disk_def disk_env_works)
  from pins_are_durable [OF disk_env_works this] b show ?thesis by blast
qed

text \<open>Without a key import the whole card state survives.\<close>

lemma state_is_durable:
  assumes "disk_works Y"
    and "reachable (\<lambda>X a cmd. on_disk Y X a cmd \<and> ins cmd \<noteq> INS_PUT_DATA_ODD) (pgp_new (snd (store_load Y s))) b"
  shows "reloaded Y (store b) = pgp_state b"
proof -
  let ?a = "pgp_new (snd (store_load Y s))"
  have "reloaded Y (store ?a) = pgp_state ?a"
    using reloaded_loaded [OF assms(1)] by (simp add: pgp_new_def pgp_state_def reloaded_def)
  then show ?thesis
    by (rule cmd_reach_keeps [OF assms(2), where I = "\<lambda>a. reloaded Y (store a) = pgp_state a"])
      (rule durable_step [where f = "\<lambda>s. s"], auto simp: assms(1))
qed

end
