(* ===== verification/Piv_Spec.thy ===== *)
theory Piv_Spec
  imports Piv_Session
begin

text \<open>
  What the PIV applet promises, as an abstract machine: PIN and PUK with their tries, the rights to use
  and to manage the card, the pending challenge, and the content that only the manager changes. A
  step is labelled with the values the command offers. The applet refines the machine.
\<close>

section \<open>The abstract machine\<close>

record offer =
  pin_offer :: "byte list option"
  puk_offer :: "byte list option"
  witness_offer :: "byte list option"

record 'm piv_spec =
  spec_pin :: "byte list"
  spec_puk :: "byte list"
  pin_tries :: nat
  puk_tries :: nat
  can_use :: bool
  can_manage :: bool
  challenge :: "byte list option"
  content :: 'm

inductive piv_step :: "offer \<Rightarrow> 'm piv_spec \<Rightarrow> 'm piv_spec \<Rightarrow> bool" for w :: offer where
  idle: "piv_step w s s"
| leave: "piv_step w s (s\<lparr>can_use := False, can_manage := False, challenge := None\<rparr>)"
| wrong_pin: "pin_offer w = Some p \<Longrightarrow> p \<noteq> spec_pin s \<Longrightarrow> 0 < pin_tries s \<Longrightarrow>
    piv_step w s (s\<lparr>pin_tries := pin_tries s - 1\<rparr>)"
| use: "pin_offer w = Some (spec_pin s) \<Longrightarrow> 0 < pin_tries s \<Longrightarrow>
    piv_step w s (s\<lparr>pin_tries := 3, can_use := True\<rparr>)"
| new_pin: "pin_offer w = Some (spec_pin s) \<Longrightarrow> 0 < pin_tries s \<Longrightarrow>
    piv_step w s (s\<lparr>pin_tries := 3, spec_pin := q\<rparr>)"
| wrong_puk: "puk_offer w = Some p \<Longrightarrow> p \<noteq> spec_puk s \<Longrightarrow> 0 < puk_tries s \<Longrightarrow>
    piv_step w s (s\<lparr>puk_tries := puk_tries s - 1\<rparr>)"
| new_puk: "puk_offer w = Some (spec_puk s) \<Longrightarrow> 0 < puk_tries s \<Longrightarrow>
    piv_step w s (s\<lparr>puk_tries := 3, spec_puk := q\<rparr>)"
| unblock: "puk_offer w = Some (spec_puk s) \<Longrightarrow> 0 < puk_tries s \<Longrightarrow>
    piv_step w s (s\<lparr>puk_tries := 3, spec_pin := q, pin_tries := 3\<rparr>)"
| ask: "piv_step w s (s\<lparr>challenge := c\<rparr>)"
| manage: "challenge s = Some c \<Longrightarrow> witness_offer w = Some c \<Longrightarrow>
    piv_step w s (s\<lparr>can_manage := True, challenge := None\<rparr>)"
| store: "can_manage s \<Longrightarrow> piv_step w s (s\<lparr>content := m\<rparr>)"

inductive_cases piv_stepE: "piv_step w s s'"

text \<open>
  With PIN and PUK blocked nothing is ever unblocked, whatever is offered: the machine has no step
  like the restart of the OpenPGP machine.
\<close>

definition dead :: "'m piv_spec \<Rightarrow> bool" where
  "dead s \<longleftrightarrow> pin_tries s = 0 \<and> puk_tries s = 0 \<and> \<not> can_use s"

lemma dead_step: "piv_step w s s' \<Longrightarrow> dead s \<Longrightarrow> dead s' \<and> spec_pin s' = spec_pin s \<and> spec_puk s' = spec_puk s"
  by (cases rule: piv_step.cases) (auto simp: dead_def)

section \<open>The abstraction\<close>

definition spec_of :: "piv_applet \<Rightarrow> piv_data_objects piv_spec" where
  "spec_of a = \<lparr>spec_pin = card_pin (piv_objects a), spec_puk = card_puk (piv_objects a),
     pin_tries = unat (pin_retries (piv_objects a)), puk_tries = unat (puk_retries (piv_objects a)),
     can_use = pin_verified (piv_security a), can_manage = mgmt_authenticated (piv_security a),
     challenge = current_challenge a, content = piv_managed (piv_objects a)\<rparr>"

definition presents_witness :: "apdu \<Rightarrow> byte list option" where
  "presents_witness cmd = (if ins cmd = 0x87 \<and> p2 cmd = REF_MGMT_KEY then piv_tags cmd 0x80 else None)"

definition offer_of :: "apdu \<Rightarrow> offer" where
  "offer_of cmd = \<lparr>pin_offer = presents_pin cmd, puk_offer = presents_puk cmd, witness_offer = presents_witness cmd\<rparr>"

lemma spec_of_core: "piv_core b = piv_core a \<Longrightarrow> spec_of b = spec_of a"
  by (auto simp: spec_of_def dest: piv_core_eqD)

text \<open>The two attempts, on any state with these objects.\<close>

lemma try_pin_spec:
  "spec_of (with_objects (snd (piv_try_pin p (piv_objects a))) a) =
     (if 0 < pin_tries (spec_of a) \<and> p = spec_pin (spec_of a) then (spec_of a)\<lparr>pin_tries := 3\<rparr>
      else if 0 < pin_tries (spec_of a) then (spec_of a)\<lparr>pin_tries := pin_tries (spec_of a) - 1\<rparr> else spec_of a)"
  "fst (piv_try_pin p (piv_objects a)) \<longleftrightarrow> 0 < pin_tries (spec_of a) \<and> p = spec_pin (spec_of a)"
  by (auto simp: piv_try_pin_def spec_of_def piv_managed_def unsigned_eq_0_iff neq0_conv [symmetric] simp del: neq0_conv)

lemma try_puk_spec:
  "spec_of (with_objects (snd (piv_try_puk p (piv_objects a))) a) =
     (if 0 < puk_tries (spec_of a) \<and> p = spec_puk (spec_of a) then (spec_of a)\<lparr>puk_tries := 3\<rparr>
      else if 0 < puk_tries (spec_of a) then (spec_of a)\<lparr>puk_tries := puk_tries (spec_of a) - 1\<rparr> else spec_of a)"
  "fst (piv_try_puk p (piv_objects a)) \<longleftrightarrow> 0 < puk_tries (spec_of a) \<and> p = spec_puk (spec_of a)"
  by (auto simp: piv_try_puk_def spec_of_def piv_managed_def unsigned_eq_0_iff neq0_conv [symmetric] simp del: neq0_conv)

lemma spec_of_updates [simp]:
  "spec_of (b\<lparr>piv_security := set_pin_verified True (piv_security a)\<rparr>) =
     (spec_of (b\<lparr>piv_security := piv_security a\<rparr>))\<lparr>can_use := True\<rparr>"
  "spec_of (with_objects (d\<lparr>card_pin := q\<rparr>) a) = (spec_of (with_objects d a))\<lparr>spec_pin := q\<rparr>"
  "spec_of (with_objects (d\<lparr>card_puk := q\<rparr>) a) = (spec_of (with_objects d a))\<lparr>spec_puk := q\<rparr>"
  "spec_of (with_objects (d\<lparr>pin_retries := n\<rparr>) a) = (spec_of (with_objects d a))\<lparr>pin_tries := unat n\<rparr>"
  "spec_of (a\<lparr>current_challenge := c\<rparr>) = (spec_of a)\<lparr>challenge := c\<rparr>"
  by (simp_all add: spec_of_def)

section \<open>Every command is a step\<close>

text \<open>A failed attempt, with tries left or without.\<close>

lemma failed_pin:
  assumes "pin_offer w = Some p" "\<not> fst (piv_try_pin p (piv_objects a))"
  shows "piv_step w (spec_of a) (spec_of (with_objects (snd (piv_try_pin p (piv_objects a))) a))"
  using assms piv_step.wrong_pin [of w p "spec_of a"] piv_step.idle [of w "spec_of a"]
  by (auto simp: try_pin_spec)

lemma failed_puk:
  assumes "puk_offer w = Some p" "\<not> fst (piv_try_puk p (piv_objects a))"
  shows "piv_step w (spec_of a) (spec_of (with_objects (snd (piv_try_puk p (piv_objects a))) a))"
  using assms piv_step.wrong_puk [of w p "spec_of a"] piv_step.idle [of w "spec_of a"]
  by (auto simp: try_puk_spec)

lemma verify_refines:
  assumes "ins cmd = 0x20"
  shows "piv_step (offer_of cmd) (spec_of a) (spec_of (snd (piv_handle_verify a cmd)))"
proof -
  let ?w = "offer_of cmd" and ?p = "strip_ff (cmd_data cmd)"
  consider "snd (piv_handle_verify a cmd) = a"
    | (pin) "p2 cmd = REF_PIV_PIN" "cmd_data cmd \<noteq> []" | (puk) "p2 cmd = REF_PIV_PUK" "cmd_data cmd \<noteq> []"
    by (cases "cmd_data cmd = []"; cases "p2 cmd = REF_PIV_PIN"; cases "p2 cmd = REF_PIV_PUK")
      (simp_all add: piv_handle_verify_def)
  then show ?thesis
  proof cases
    case pin
    with assms have o: "pin_offer ?w = Some ?p" by (simp add: offer_of_def presents_pin_def)
    show ?thesis
    proof (cases "fst (piv_try_pin ?p (piv_objects a))")
      case True
      with pin have "spec_of (snd (piv_handle_verify a cmd)) = (spec_of a)\<lparr>pin_tries := 3, can_use := True\<rparr>"
        using try_pin_spec [of ?p a] by (simp add: piv_handle_verify_def Let_def split_beta)
      with True o show ?thesis using piv_step.use [of ?w "spec_of a"] by (simp add: try_pin_spec)
    next
      case False
      with pin failed_pin [OF o False] show ?thesis by (simp add: piv_handle_verify_def Let_def split_beta)
    qed
  next
    case puk
    with assms have o: "puk_offer ?w = Some (cmd_data cmd)" by (simp add: offer_of_def presents_puk_def REF_defs)
    show ?thesis
    proof (cases "fst (piv_try_puk (cmd_data cmd) (piv_objects a))")
      case True
      with puk have "spec_of (snd (piv_handle_verify a cmd)) = (spec_of a)\<lparr>puk_tries := 3, spec_puk := spec_puk (spec_of a)\<rparr>"
        using try_puk_spec [of "cmd_data cmd" a] by (simp add: piv_handle_verify_def REF_defs Let_def split_beta)
      with True o show ?thesis using piv_step.new_puk [of ?w "spec_of a" "spec_puk (spec_of a)"] by (simp add: try_puk_spec)
    next
      case False
      with puk failed_puk [OF o False] show ?thesis by (simp add: piv_handle_verify_def REF_defs Let_def split_beta)
    qed
  qed (simp add: piv_step.idle)
qed

lemma change_refines:
  assumes "ins cmd = 0x24"
  shows "piv_step (offer_of cmd) (spec_of a) (spec_of (snd (piv_handle_change_reference_data a cmd)))"
proof -
  let ?w = "offer_of cmd" and ?p = "strip_ff (take 8 (cmd_data cmd))" and ?q = "strip_ff (drop 8 (cmd_data cmd))"
  consider "snd (piv_handle_change_reference_data a cmd) = a"
    | (pin) "p2 cmd = REF_PIV_PIN" "length (cmd_data cmd) = 16" | (puk) "p2 cmd = REF_PIV_PUK" "length (cmd_data cmd) = 16"
    by (cases "length (cmd_data cmd) = 16"; cases "p2 cmd = REF_PIV_PIN"; cases "p2 cmd = REF_PIV_PUK")
      (simp_all add: piv_handle_change_reference_data_def)
  then show ?thesis
  proof cases
    case pin
    with assms have o: "pin_offer ?w = Some ?p" by (simp add: offer_of_def presents_pin_def)
    show ?thesis
    proof (cases "fst (piv_try_pin ?p (piv_objects a))")
      case True
      with pin have "spec_of (snd (piv_handle_change_reference_data a cmd)) = (spec_of a)\<lparr>pin_tries := 3, spec_pin := ?q\<rparr>"
        using try_pin_spec [of ?p a] by (simp add: piv_handle_change_reference_data_def Let_def split_beta)
      with True o show ?thesis using piv_step.new_pin [of ?w "spec_of a"] by (simp add: try_pin_spec)
    next
      case False
      with pin failed_pin [OF o False] show ?thesis
        by (simp add: piv_handle_change_reference_data_def Let_def split_beta)
    qed
  next
    case puk
    with assms have o: "puk_offer ?w = Some ?p" by (simp add: offer_of_def presents_puk_def REF_defs)
    show ?thesis
    proof (cases "fst (piv_try_puk ?p (piv_objects a))")
      case True
      with puk have "spec_of (snd (piv_handle_change_reference_data a cmd)) = (spec_of a)\<lparr>puk_tries := 3, spec_puk := ?q\<rparr>"
        using try_puk_spec [of ?p a] by (simp add: piv_handle_change_reference_data_def REF_defs Let_def split_beta)
      with True o show ?thesis using piv_step.new_puk [of ?w "spec_of a"] by (simp add: try_puk_spec)
    next
      case False
      with puk failed_puk [OF o False] show ?thesis
        by (simp add: piv_handle_change_reference_data_def REF_defs Let_def split_beta)
    qed
  qed (simp add: piv_step.idle)
qed

lemma reset_refines:
  assumes "ins cmd = 0x2C"
  shows "piv_step (offer_of cmd) (spec_of a) (spec_of (snd (piv_handle_reset_retry_counter a cmd)))"
proof -
  let ?w = "offer_of cmd" and ?p = "take 8 (cmd_data cmd)" and ?q = "strip_ff (drop 8 (cmd_data cmd))"
  consider "snd (piv_handle_reset_retry_counter a cmd) = a" | (puk) "p2 cmd = REF_PIV_PIN" "length (cmd_data cmd) = 16"
    by (cases "length (cmd_data cmd) = 16"; cases "p2 cmd = REF_PIV_PIN"; cases "p2 cmd = REF_PIV_PUK")
      (simp_all add: piv_handle_reset_retry_counter_def)
  then show ?thesis
  proof cases
    case puk
    from assms have o: "puk_offer ?w = Some ?p" by (simp add: offer_of_def presents_puk_def)
    show ?thesis
    proof (cases "fst (piv_try_puk ?p (piv_objects a))")
      case True
      with puk have "spec_of (snd (piv_handle_reset_retry_counter a cmd)) =
          (spec_of a)\<lparr>puk_tries := 3, spec_pin := ?q, pin_tries := 3\<rparr>"
        using try_puk_spec [of ?p a] by (simp add: piv_handle_reset_retry_counter_def Let_def split_beta)
      with True o show ?thesis using piv_step.unblock [of ?w "spec_of a"] by (simp add: try_puk_spec)
    next
      case False
      with puk failed_puk [OF o False] show ?thesis
        by (simp add: piv_handle_reset_retry_counter_def Let_def split_beta)
    qed
  qed (simp add: piv_step.idle)
qed

text \<open>What only the manager may do changes the content and nothing else.\<close>

definition same_access :: "piv_data_objects \<Rightarrow> piv_data_objects \<Rightarrow> bool" where
  "same_access d e \<longleftrightarrow> piv_secrets e = piv_secrets d \<and> pin_retries e = pin_retries d \<and> puk_retries e = puk_retries d"

lemma managed_access:
  "same_access (piv_objects a) (piv_objects (snd (piv_handle_put_data a cmd)))"
  "same_access (piv_objects a) (piv_objects (snd (piv_handle_generate_key X a cmd)))"
proof -
  have "same_access d e" if "piv_store_object i v d = Some e" for i v d e
    using that by (auto simp: piv_store_object_def same_access_def piv_secrets_def split: if_splits)
  then show "same_access (piv_objects a) (piv_objects (snd (piv_handle_put_data a cmd)))"
    by (simp add: piv_handle_put_data_def same_access_def split: option.splits)
  show "same_access (piv_objects a) (piv_objects (snd (piv_handle_generate_key X a cmd)))"
    by (auto simp: piv_handle_generate_key_def generate_rsa_key_def generate_ecc_key_def Let_def
        same_access_def piv_secrets_def split: option.splits sum.splits piv_algorithm.splits)
qed

lemma managed_challenge:
  "current_challenge (snd (piv_handle_put_data a cmd)) = current_challenge a"
  "current_challenge (snd (piv_handle_generate_key X a cmd)) = current_challenge a"
  by (auto simp: piv_handle_put_data_def piv_handle_generate_key_def generate_rsa_key_def generate_ecc_key_def
      Let_def split: option.splits sum.splits piv_algorithm.splits)

lemma store_refines:
  assumes "same_access (piv_objects a) (piv_objects b)" "piv_security b = piv_security a"
    "current_challenge b = current_challenge a" "\<not> mgmt_authenticated (piv_security a) \<Longrightarrow> b = a"
  shows "piv_step w (spec_of a) (spec_of b)"
proof (cases "mgmt_authenticated (piv_security a)")
  case True
  have "spec_of b = (spec_of a)\<lparr>content := piv_managed (piv_objects b)\<rparr>"
    using assms(1-3) by (simp add: spec_of_def same_access_def piv_secrets_def)
  with True piv_step.store [of "spec_of a" w] show ?thesis by (simp add: spec_of_def)
next
  case False
  with assms(4) show ?thesis by (simp add: piv_step.idle)
qed

lemma manager_refines:
  "piv_step w (spec_of a) (spec_of (snd (piv_handle_put_data a cmd)))"
  "piv_step w (spec_of a) (spec_of (snd (piv_handle_generate_key X a cmd)))"
  by (rule store_refines; simp add: managed_access piv_handlers_frame managed_challenge managed_denied)+

lemma mgmt_effect [case_names asked refused granted]:
  obtains (asked) c where "snd (authenticate_mgmt_key X a tags) = a\<lparr>current_challenge := c\<rparr>"
  | (refused) "snd (authenticate_mgmt_key X a tags) = a"
  | (granted) c where "current_challenge a = Some c" "tags 0x80 = Some c"
      "snd (authenticate_mgmt_key X a tags) =
         a\<lparr>piv_security := set_management_key_authenticated True (piv_security a), current_challenge := None\<rparr>"
proof (cases "tags 0x80 = Some [] \<and> tags 0x81 = None")
  case True
  then have "snd (authenticate_mgmt_key X a tags) = a\<lparr>current_challenge := Some (rand_bytes X 8)\<rparr>"
    by (simp add: authenticate_mgmt_key_def Let_def split: sum.split)
  then show thesis by (rule asked)
next
  case new: False
  show thesis
  proof (cases "tags 0x80 = None \<or> tags 0x81 = None \<or> current_challenge a = None")
    case True
    with new have "snd (authenticate_mgmt_key X a tags) = a"
      by (auto simp: authenticate_mgmt_key_def split: option.split)
    then show thesis by (rule refused)
  next
    case False
    then obtain v h c where t: "tags 0x80 = Some v" "tags 0x81 = Some h" "current_challenge a = Some c" by auto
    show thesis
    proof (cases "v = c \<and> (\<exists>e. tdes_encrypt_ecb X (management_key (piv_objects a)) h = Ok e)")
      case True
      with t granted show thesis by (auto simp: authenticate_mgmt_key_def)
    next
      case False
      with t have "snd (authenticate_mgmt_key X a tags) = a\<lparr>current_challenge := None\<rparr>"
        by (cases "tdes_encrypt_ecb X (management_key (piv_objects a)) h") (auto simp: authenticate_mgmt_key_def)
      then show thesis by (rule asked)
    qed
  qed
qed

lemma mgmt_refines:
  assumes "witness_offer w = tags 0x80"
  shows "piv_step w (spec_of a) (spec_of (snd (authenticate_mgmt_key X a tags)))"
proof (cases rule: mgmt_effect [of X a tags])
  case (granted c)
  then have "spec_of (snd (authenticate_mgmt_key X a tags)) = (spec_of a)\<lparr>can_manage := True, challenge := None\<rparr>"
    by (simp add: spec_of_def)
  with granted assms piv_step.manage [of "spec_of a" c w] show ?thesis by (simp add: spec_of_def)
qed (simp_all add: piv_step.idle piv_step.ask)

lemma auth_refines:
  assumes "ins cmd = 0x87" "piv_handle_general_authenticate X a cmd = Some (r, b)"
  shows "piv_step (offer_of cmd) (spec_of a) (spec_of b)"
proof (cases "p2 cmd = REF_MGMT_KEY")
  case True
  then have "b = a \<or> b = snd (authenticate_mgmt_key X a (piv_tags cmd))"
    using assms(2) by (auto simp: piv_handle_general_authenticate_def piv_tags_def Let_def split: if_splits)
  moreover have "witness_offer (offer_of cmd) = piv_tags cmd 0x80"
    using assms(1) True by (simp add: offer_of_def presents_witness_def)
  ultimately show ?thesis using mgmt_refines [of "offer_of cmd" "piv_tags cmd" a X] by (auto simp: piv_step.idle)
next
  case False
  then have "b = a"
    using assms(2) by (auto simp: piv_handle_general_authenticate_def Let_def split: if_splits option.splits)
  then show ?thesis by (simp add: piv_step.idle)
qed

lemma spec_of_cleared:
  "spec_of (a\<lparr>piv_security := piv_clear_all (piv_security a), current_challenge := None\<rparr>) =
     (spec_of a)\<lparr>can_use := False, can_manage := False, challenge := None\<rparr>"
  by (simp add: spec_of_def)

lemma select_refines: "piv_step w (spec_of a) (spec_of (snd (piv_handle_select a cmd)))"
proof -
  have "snd (piv_handle_select a cmd) = a \<or> snd (piv_handle_select a cmd) =
      a\<lparr>piv_security := piv_clear_all (piv_security a), current_challenge := None\<rparr>"
    by (simp add: piv_handle_select_def)
  then show ?thesis
    by (elim disjE) (simp_all only: spec_of_cleared piv_step.leave piv_step.idle)
qed

lemma piv_refines:
  assumes "piv_process X a cmd = Some (r, b)"
  shows "piv_step (offer_of cmd) (spec_of a) (spec_of b)"
  using assms
proof (cases rule: piv_process_cases)
  case buffers
  show ?thesis by (simp only: spec_of_core [OF buffers] piv_step.idle)
next
  case (put s c)
  have "spec_of s = spec_of a" using put(1) by (rule spec_of_core)
  with manager_refines(1) [of "offer_of cmd" s c] show ?thesis by (simp only: put(2))
next
  case routed
  from routed(3) show ?thesis
  proof (cases rule: piv_route_cases)
    case none
    show ?thesis by (simp only: spec_of_core [OF none] piv_step.idle)
  next
    case auth
    show ?thesis using auth by (rule auth_refines)
  qed (simp_all only: select_refines verify_refines change_refines reset_refines manager_refines)
qed

text \<open>Powering the card down is a step too.\<close>

lemma piv_reset_refines: "piv_step w (spec_of a) (spec_of (piv_reset a))"
proof -
  have "spec_of (piv_reset a) = (spec_of a)\<lparr>can_use := False, can_manage := False, challenge := None\<rparr>"
    by (simp add: spec_of_def piv_reset_def)
  then show ?thesis by (simp add: piv_step.leave)
qed

text \<open>A run from a state that is dead stays there, PIN and PUK included.\<close>

lemma dead_run:
  assumes "piv_reachable C a b" "dead (spec_of a)"
  shows "dead (spec_of b) \<and> spec_pin (spec_of b) = spec_pin (spec_of a) \<and> spec_puk (spec_of b) = spec_puk (spec_of a)"
  by (rule cmd_reach_keeps [OF assms(1)]) (auto simp: assms(2) dest!: piv_refines dest: dead_step)

section \<open>Properties\<close>

text \<open>
  C22: every command, chained or not, takes the applet a step of the abstract machine, whose label is
  what the command presents: the PIN, the PUK or the answer to the challenge. So a right is only given
  by the rule of its secret, a try is only given back by its own rule or by the PUK, and the content
  is only written by the manager.
\<close>

theorem piv_refines_spec:
  assumes "piv_process X a cmd = Some (r, b)"
  shows "piv_step (offer_of cmd) (spec_of a) (spec_of b)"
  using assms by (rule piv_refines)

theorem piv_refines_spec_witness:
  "\<exists>b. piv_process demo_env demo_piv piv_guess = Some (response_counter_warning 2, b) \<and>
     piv_step (offer_of piv_guess) (spec_of demo_piv) (spec_of b) \<and>
     pin_tries (spec_of demo_piv) = 3 \<and> pin_tries (spec_of b) = 2"
  using piv_refines_spec [OF demo_guess(1)] demo_guess(1) by (simp add: spec_of_def piv_objects_new_def)

text \<open>
  C23: with PIN and PUK blocked and the PIN not verified, no command sequence whatever, the management
  key included, verifies the PIN again, gives a try back or replaces one of the two secrets: the
  applet has no counterpart of the restart of the OpenPGP card.
\<close>

theorem piv_blocked_for_good:
  assumes "piv_reachable C a b" "pin_retries (piv_objects a) = 0" "puk_retries (piv_objects a) = 0"
    "\<not> pin_verified (piv_security a)"
  shows "pin_retries (piv_objects b) = 0 \<and> puk_retries (piv_objects b) = 0 \<and> \<not> pin_verified (piv_security b) \<and>
    card_pin (piv_objects b) = card_pin (piv_objects a) \<and> card_puk (piv_objects b) = card_puk (piv_objects a)"
  using dead_run [OF assms(1)] assms(2-4) by (simp add: dead_def spec_of_def unsigned_eq_0_iff)

definition blocked_piv :: piv_applet where
  "blocked_piv = with_objects (piv_objects_new\<lparr>pin_retries := 0, puk_retries := 0\<rparr>) demo_manager"

abbreviation piv_unblock :: apdu where
  "piv_unblock \<equiv> \<lparr>cla = 0, ins = 0x2C, p1 = 0, p2 = 0x80,
     cmd_data = DEFAULT_PUK @ [0x31, 0x31, 0x31, 0x31, 0x31, 0x31, 0xFF, 0xFF], le = None\<rparr>"

lemma blocked_unblock:
  "piv_process demo_env blocked_piv piv_unblock = Some (response_error SW_AUTH_METHOD_BLOCKED, blocked_piv)"
  by (simp add: piv_process_def is_chained_def piv_route_def piv_handle_reset_retry_counter_def REF_defs
      piv_try_puk_def blocked_piv_def DEFAULT_PUK_def piv_retry_response_def Let_def)

text \<open>The right PUK, offered by a host that has the management key, does nothing any more.\<close>

theorem piv_blocked_for_good_witness:
  "\<exists>r b. piv_process demo_env blocked_piv piv_unblock = Some (r, b) \<and> pin_retries (piv_objects b) = 0 \<and>
     mgmt_authenticated (piv_security b)"
proof -
  have "piv_reachable (\<lambda>(X :: demo_key env) a cmd. True) blocked_piv blocked_piv"
    by (rule cmd_reach_one [where P = piv_process, OF TrueI blocked_unblock])
  from piv_blocked_for_good [OF this] blocked_unblock show ?thesis by (simp add: blocked_piv_def)
qed

end
