(* ===== verification/Response_Types.thy ===== *)
theory Response_Types
  imports Virtual_Card
begin

text \<open>
  The type of a response: data with 9000 or 61xx, or an error word and no data, the error words being
  those of \<open>src/apdu/status.rs\<close>. Every handler of both applets returns one of these, and so does
  the card.
\<close>

definition error_words :: "u16 set" where
  "error_words = {SW_EXEC_ERROR, SW_WRONG_LENGTH, SW_SECURITY_STATUS_NOT_SATISFIED, SW_AUTH_METHOD_BLOCKED,
     SW_CONDITIONS_NOT_SATISFIED, SW_WRONG_DATA, SW_FUNCTION_NOT_SUPPORTED, SW_FILE_NOT_FOUND,
     SW_REFERENCED_DATA_NOT_FOUND, SW_WRONG_P1_P2, SW_INS_NOT_SUPPORTED} \<union> range sw_counter_warning"

definition typed :: "response \<Rightarrow> bool" where
  "typed r \<longleftrightarrow> (\<exists>d. r = response_success d) \<or> (\<exists>d n. r = response_more_data d n) \<or>
     (\<exists>w \<in> error_words. r = response_error w)"

named_theorems typing

lemma typed_success [typing]:
  "typed response_ok" "typed (response_success d)" "typed (response_more_data d n)"
  by (auto simp: typed_def response_ok_def response_success_def)

lemma error_words_simps [typing]:
  "SW_EXEC_ERROR \<in> error_words" "SW_WRONG_LENGTH \<in> error_words" "SW_SECURITY_STATUS_NOT_SATISFIED \<in> error_words"
  "SW_AUTH_METHOD_BLOCKED \<in> error_words" "SW_CONDITIONS_NOT_SATISFIED \<in> error_words" "SW_WRONG_DATA \<in> error_words"
  "SW_FUNCTION_NOT_SUPPORTED \<in> error_words" "SW_FILE_NOT_FOUND \<in> error_words"
  "SW_REFERENCED_DATA_NOT_FOUND \<in> error_words" "SW_WRONG_P1_P2 \<in> error_words" "SW_INS_NOT_SUPPORTED \<in> error_words"
  "sw_counter_warning n \<in> error_words"
  by (simp_all add: error_words_def)

lemma typed_error [typing]: "w \<in> error_words \<Longrightarrow> typed (response_error w)" "typed (response_counter_warning n)"
  by (auto simp: typed_def response_counter_warning_def typing)

section \<open>The OpenPGP applet\<close>

lemma typed_create_response [typing]: "typed (fst (create_response a d))"
  by (simp add: create_response_def Let_def typing)

lemma typed_get_response: "handle_get_response a cmd = Some (r, b) \<Longrightarrow> typed r"
  by (auto simp: handle_get_response_def Let_def typing split: if_splits)

lemma typed_pgp_pins [typing]:
  "typed (fst (handle_verify X a cmd))" "typed (fst (handle_change_reference_data X a cmd))"
  "typed (fst (handle_reset_retry_counter X a cmd))"
  by (auto simp: handle_verify_def verify_status_def retry_response_def handle_change_reference_data_def
      handle_reset_retry_counter_def Let_def split_beta typing split: option.splits)

lemma put_data_error: "put_data_object X tag d s = Err w \<Longrightarrow> w \<in> error_words"
  unfolding put_data_defs
  by (elim if_eqE) (auto simp: Let_def typing split: if_splits option.splits)

lemma typed_pgp_data [typing]:
  "typed (handle_get_data a cmd)" "typed (fst (handle_put_data X a cmd))"
  "typed (fst (handle_select a cmd))" "typed (handle_get_challenge X cmd)"
  "typed (fst (handle_terminate X a cmd))" "typed (fst (handle_activate X a cmd))"
  "typed (fst (handle_command_chaining a cmd))"
  by (auto simp: handle_get_data_def handle_put_data_def handle_select_def handle_get_challenge_def
      handle_terminate_def handle_activate_def handle_command_chaining_def Let_def typing
      split: option.split sum.split dest: put_data_error)

lemma generate_error: "generate_material X alg = Err w \<Longrightarrow> w \<in> error_words"
  by (auto simp: generate_material_def ecc_material_def Let_def typing split: if_splits sum.splits prod.splits)

lemma typed_generate [typing]: "typed (fst (handle_generate_key X a cmd))"
  by (auto simp: generate_key_defs Let_def typing split: option.split sum.split dest: generate_error)

lemma import_errors:
  "import_rsa X c k slot = Some (Err w) \<Longrightarrow> w \<in> error_words"
  "import_ecc X k slot = (Err w, slot') \<Longrightarrow> w \<in> error_words"
  by (auto simp: import_rsa_def import_ecc_def Let_def typing split: if_splits option.splits prod.splits)

lemma typed_import: "handle_put_data_odd X a cmd = Some (r, b) \<Longrightarrow> typed r"
  by (auto simp: handle_put_data_odd_def handle_key_import_def Let_def typing
      split: if_splits option.splits sum.splits prod.splits dest: import_errors)

lemma crypto_errors:
  "slot_sign X f slot d = Some (Err w) \<Longrightarrow> w \<in> error_words"
  "decipher_data X slot d = Some (Err w) \<Longrightarrow> w \<in> error_words"
  by (auto simp: slot_sign_def load_rsa_key_def ecdsa_sign_def or_exec_error_def decipher_data_def ecdh_secret_def
      Let_def typing split: if_splits option.splits sum.splits)

lemma typed_crypto:
  "handle_pso X a cmd = Some (r, b) \<Longrightarrow> typed r"
  "handle_internal_authenticate X a cmd = Some (r, b) \<Longrightarrow> typed r"
proof -
  have eq: "typed r" if "create_response s d = (r, b)" for s d
    using typed_create_response [of s d] that by simp
  show "handle_pso X a cmd = Some (r, b) \<Longrightarrow> typed r"
    by (auto simp: handle_pso_def handle_pso_sign_def handle_pso_decipher_def Let_def typing
        split: if_splits option.splits sum.splits dest: crypto_errors eq)
  show "handle_internal_authenticate X a cmd = Some (r, b) \<Longrightarrow> typed r"
    by (auto simp: handle_internal_authenticate_def Let_def typing
        split: if_splits option.splits sum.splits dest: crypto_errors eq)
qed

lemma typed_fst: "f = (r, b) \<Longrightarrow> typed (fst f) \<Longrightarrow> typed r"
  by simp

lemma typed_pgp:
  assumes "pgp_process X a cmd = Some (r, b)"
  shows "typed r"
proof -
  have route: "typed r" if "pgp_route X s c = Some (r, b)" for s c
    using that unfolding pgp_route_def
    by (elim if_eqE)
      (auto simp: typing dest: typed_import typed_crypto dest!: typed_fst)
  show ?thesis
    using assms route
    by (auto simp: pgp_process_def Let_def typing split: if_splits dest: typed_get_response dest!: typed_fst)
qed

section \<open>The PIV applet\<close>

lemma typed_piv_pins [typing]:
  "typed (fst (piv_handle_select a cmd))" "typed (fst (piv_handle_verify a cmd))"
  "typed (fst (piv_handle_change_reference_data a cmd))" "typed (fst (piv_handle_reset_retry_counter a cmd))"
  by (auto simp: piv_handle_select_def piv_handle_verify_def piv_handle_change_reference_data_def
      piv_handle_reset_retry_counter_def piv_retry_response_def Let_def split_beta typing)

lemma typed_piv_data [typing]:
  "typed (piv_handle_get_data a cmd)" "typed (fst (piv_handle_put_data a cmd))"
  "typed (piv_handle_get_version a)" "typed (piv_handle_get_serial a)"
  by (auto simp: piv_handle_get_data_def piv_handle_put_data_def piv_handle_get_version_def
      piv_handle_get_serial_def Let_def typing split: option.split prod.split)

lemma typed_piv_generate [typing]: "typed (fst (piv_handle_generate_key X a cmd))"
  by (auto simp: piv_handle_generate_key_def generate_rsa_key_def generate_ecc_key_def Let_def typing
      split: option.split sum.split piv_algorithm.split prod.split)

lemma typed_template [typing]: "typed (template_or_error r)"
  by (simp add: template_or_error_def typing split: sum.split)

lemma typed_piv_key: "piv_key_operation X a slot tags = Some r \<Longrightarrow> typed r"
  by (auto simp: piv_key_operation_def piv_sign_data_def piv_decrypt_data_def typing
      split: if_splits option.splits piv_algorithm.splits)

lemma typed_mgmt [typing]: "typed (fst (authenticate_mgmt_key X a tags))"
  by (auto simp: authenticate_mgmt_key_def Let_def typing split: option.split sum.split)

lemma typed_piv:
  assumes "piv_process X a cmd = Some (r, b)"
  shows "typed r"
proof -
  have auth: "typed r" if "piv_handle_general_authenticate X s c = Some (r, b)" for s c
    using that
    by (auto simp: piv_handle_general_authenticate_def Let_def typing split: if_splits option.splits
        dest: typed_piv_key dest!: typed_fst)
  have get: "typed r" if "piv_handle_get_response s c = Some (r, b)" for s c
    using that by (auto simp: piv_handle_get_response_def Let_def typing split: if_splits)
  have route: "typed r" if "piv_route X s c = Some (r, b)" for s c
    using that unfolding piv_route_def
    by (elim if_eqE) (auto simp: typing dest: auth get dest!: typed_fst)
  show ?thesis
    using assms route
    by (auto simp: piv_process_def Let_def typing split: if_splits dest!: typed_fst)
qed

section \<open>Properties\<close>

text \<open>
  C13: every answer of the card is a well-typed response APDU: data followed by 9000 or 61xx, or one of
  the error words alone; whatever bytes are sent, in whatever state.
\<close>

theorem answers_are_typed:
  assumes "vc_process X d c = Some (answer, c')"
  shows "\<exists>r. typed r \<and> answer = to_bytes r"
proof (cases "parse_apdu d")
  case (Inl e)
  have "[0x67, 0x00] = to_bytes (response_error SW_WRONG_LENGTH)" "[0x69, 0x85] = to_bytes (response_error SW_CONDITIONS_NOT_SATISFIED)"
    by (simp_all add: to_bytes_def response_error_def response_new_def SW_defs)
  with Inl assms show ?thesis
    by (auto simp: vc_process_def typing split: if_splits intro: exI [of _ "response_error SW_WRONG_LENGTH"]
        exI [of _ "response_error SW_CONDITIONS_NOT_SATISFIED"])
next
  case (Inr cmd)
  have words: "[0x69, 0x85] = to_bytes (response_error SW_CONDITIONS_NOT_SATISFIED)"
    "[0x6D, 0x00] = to_bytes (response_error SW_INS_NOT_SUPPORTED)"
    "[0x6A, 0x82] = to_bytes (response_error SW_FILE_NOT_FOUND)"
    "mgmt_version_string @ [0x90] @ [0x00] = to_bytes (response_success mgmt_version_string)"
    by (simp_all add: to_bytes_def response_error_def response_success_def response_new_def SW_defs)
  have pgp: "\<exists>r. typed r \<and> answer = to_bytes r" if "pgp_answer X s cmd = Some (answer, c')" for s
    using that by (elim pgp_answerE) (auto simp: response_to_bytes_eq dest: typed_pgp)
  have piv: "\<exists>r. typed r \<and> answer = to_bytes r" if "piv_answer X s cmd = Some (answer, c')" for s
    using that by (elim piv_answerE) (auto simp: response_to_bytes_eq dest: typed_piv)
  have err: "\<exists>r. typed r \<and> to_bytes (response_error w) = to_bytes r" if "w \<in> error_words" for w
    using that typed_error(1) by blast
  have ok: "\<exists>r. typed r \<and> to_bytes (response_success m) = to_bytes r" for m
    using typed_success(2) by blast
  show ?thesis
    using assms pgp piv err ok
    by (auto simp: vc_process_def vc_handle_select_def Inr words response_to_bytes_eq typing simp del: append.simps
        split: if_splits active_applet.splits)
qed

theorem answers_are_typed_witness:
  "\<exists>r. typed r \<and> [0x67, 0x00] = to_bytes r \<and> vc_process demo_env [1, 2, 3] demo_card = Some ([0x67, 0x00], demo_card)"
proof -
  have "vc_process demo_env [1, 2, 3] demo_card = Some ([0x67, 0x00], demo_card)"
    by (simp add: vc_process_def parse_apdu_def demo_card_def)
  from answers_are_typed [OF this] this show ?thesis by blast
qed

end
