(* ===== verification/Status_Words.thy ===== *)
theory Status_Words
  imports Response_Types
begin

text \<open>
  All constants of \<open>SW\<close> (\<open>src/apdu/status.rs\<close>), the unused ones included. They are different words,
  the predicates of the module agree with their names, and every error word that a card answers with
  is one of them, or a counter warning, which none of them is.
\<close>

definition status_words :: "(string \<times> u16) list" where
  "status_words =
     [(''SUCCESS'', 0x9000), (''WARNING_NO_CHANGE'', 0x6200), (''WARNING_CORRUPTED'', 0x6281),
      (''WARNING_EOF'', 0x6282), (''WARNING_SELECTED_FILE_INVALIDATED'', 0x6283),
      (''WARNING_FCI_INVALID'', 0x6284), (''EXEC_ERROR'', 0x6400), (''MEMORY_FAILURE'', 0x6501),
      (''WRONG_LENGTH'', 0x6700), (''LOGICAL_CHANNEL_NOT_SUPPORTED'', 0x6881),
      (''SECURE_MESSAGING_NOT_SUPPORTED'', 0x6882), (''COMMAND_NOT_ALLOWED'', 0x6900),
      (''COMMAND_INCOMPATIBLE'', 0x6981), (''SECURITY_STATUS_NOT_SATISFIED'', 0x6982),
      (''AUTH_METHOD_BLOCKED'', 0x6983), (''REFERENCE_DATA_NOT_USABLE'', 0x6984),
      (''CONDITIONS_NOT_SATISFIED'', 0x6985), (''COMMAND_NOT_ALLOWED_NO_EF'', 0x6986),
      (''EXPECTED_SM_DATA_OBJECTS_MISSING'', 0x6987), (''INCORRECT_SM_DATA_OBJECTS'', 0x6988),
      (''WRONG_DATA'', 0x6A80), (''FUNCTION_NOT_SUPPORTED'', 0x6A81), (''FILE_NOT_FOUND'', 0x6A82),
      (''RECORD_NOT_FOUND'', 0x6A83), (''NOT_ENOUGH_MEMORY'', 0x6A84),
      (''NC_INCONSISTENT_WITH_TLV'', 0x6A85), (''INCORRECT_P1_P2'', 0x6A86),
      (''NC_INCONSISTENT_WITH_P1_P2'', 0x6A87), (''REFERENCED_DATA_NOT_FOUND'', 0x6A88),
      (''FILE_ALREADY_EXISTS'', 0x6A89), (''DF_NAME_ALREADY_EXISTS'', 0x6A8A),
      (''WRONG_P1_P2'', 0x6B00), (''INS_NOT_SUPPORTED'', 0x6D00), (''CLA_NOT_SUPPORTED'', 0x6E00),
      (''UNKNOWN_ERROR'', 0x6F00)]"

lemma status_words_distinct: "distinct (map snd status_words)" "distinct (map fst status_words)"
  by (simp_all add: status_words_def)

text \<open>Success is one word; no constant says that more data is available or that tries are left.\<close>

lemma status_words_classes:
  assumes "(n, w) \<in> set status_words"
  shows "sw_is_success w \<longleftrightarrow> w = SW_SUCCESS" "\<not> sw_is_more_data w" "\<not> sw_is_counter_warning w"
  using assms unfolding status_words_def list.set insert_iff empty_iff prod.inject
  by (elim disjE conjE FalseE;
      simp add: sw_is_success_def sw_is_more_data_def sw_is_counter_warning_def SW_SUCCESS_def)+

lemma error_words_declared:
  assumes "w \<in> error_words"
  shows "w \<in> snd ` set status_words \<or> sw_is_counter_warning w"
proof -
  have "sw_is_counter_warning (sw_counter_warning n)" for n
    by (simp add: sw_is_counter_warning_def sw_counter_warning_def bit.conj_disj_distrib2 unsigned_and_eq and.assoc)
  with assms show ?thesis
    by (auto simp: error_words_def status_words_def SW_defs)
qed

end
