(* ===== verification/Nitrokey_Card.thy ===== *)
theory Nitrokey_Card
  imports Atr Card_Trait
begin

text \<open>
  The card of slot 1 (\<open>src/nitrokey/card.rs\<close>). The applets, the dispatcher and the interchange that
  carries a command to them are other crates: the record \<open>dispatcher\<close> has the operations the card
  calls, on a state of unknown type. One record describes them during one command; a panic of the
  firmware (\<open>NoReboot\<close>) is \<open>None\<close>.
\<close>

record 'd dispatcher =
  apdu_capacity :: nat
  take_response :: "'d \<Rightarrow> byte list option \<times> 'd"
  request :: "byte list \<Rightarrow> 'd \<Rightarrow> bool \<times> 'd"
  dispatch_poll :: "'d \<Rightarrow> 'd option"
  clock_ms :: "nat list"

text \<open>
  \<open>clock_ms\<close> has the readings of \<open>Instant::now()\<close> during the command, in milliseconds: the one the
  deadline is reckoned from, then one for each test of the loop. \<open>poll_rounds\<close> is how often the test
  finds the deadline not yet passed.
\<close>

definition APDU_TIMEOUT_MS :: nat where "APDU_TIMEOUT_MS = 2000"

definition poll_rounds :: "'d dispatcher \<Rightarrow> nat" where
  "poll_rounds D =
     (case clock_ms D of [] \<Rightarrow> 0 | now # tests \<Rightarrow> length (takeWhile (\<lambda>t. t < now + APDU_TIMEOUT_MS) tests))"

fun poll_loop :: "'d dispatcher \<Rightarrow> nat \<Rightarrow> 'd \<Rightarrow> (byte list \<times> 'd) option" where
  "poll_loop D 0 d = Some ([0x64, 0x00], d)"
| "poll_loop D (Suc n) d =
     (case dispatch_poll D d of
        None \<Rightarrow> None
      | Some d1 \<Rightarrow>
          (case take_response D d1 of
             (Some resp, d2) \<Rightarrow> Some (resp, d2)
           | (None, d2) \<Rightarrow> poll_loop D n d2))"

definition run_apdu :: "'d dispatcher \<Rightarrow> byte list \<Rightarrow> 'd \<Rightarrow> (byte list \<times> 'd) option" where
  "run_apdu D apdu d =
     (if length apdu > apdu_capacity D then Some ([0x67, 0x00], d)
      else let (_, d1) = take_response D d; (sent, d2) = request D apdu d1 in
        if \<not> sent then Some ([0x64, 0x00], d2)
        else poll_loop D (poll_rounds D) d2)"

record 'd nitrokey_card =
  nk_atr :: "byte list"
  nk_powered :: bool
  nk_driver :: 'd

text \<open>The end of \<open>NitrokeyCard::new\<close>; starting the firmware is the parameter, with its failure.\<close>

definition nitrokey_new :: "'d option \<Rightarrow> 'd nitrokey_card option" where
  "nitrokey_new boot = map_option (\<lambda>d. \<lparr>nk_atr = NITROKEY3_ATR, nk_powered = False, nk_driver = d\<rparr>) boot"

definition nk_power_on :: "'d nitrokey_card \<Rightarrow> byte list \<times> 'd nitrokey_card" where
  "nk_power_on c = (nk_atr c, c\<lparr>nk_powered := True\<rparr>)"

definition nk_power_off :: "'d nitrokey_card \<Rightarrow> 'd nitrokey_card" where
  "nk_power_off c = c\<lparr>nk_powered := False\<rparr>"

definition nk_reset :: "'d nitrokey_card \<Rightarrow> byte list \<times> 'd nitrokey_card" where
  "nk_reset c = (nk_atr c, c\<lparr>nk_powered := True\<rparr>)"

definition nk_transmit :: "'d dispatcher \<Rightarrow> byte list \<Rightarrow> 'd nitrokey_card \<Rightarrow> (byte list \<times> 'd nitrokey_card) option" where
  "nk_transmit D apdu c =
     (if \<not> nk_powered c then Some ([0x69, 0x85], c)
      else map_option (\<lambda>(r, d). (r, c\<lparr>nk_driver := d\<rparr>)) (run_apdu D apdu (nk_driver c)))"

section \<open>The contract of a card\<close>

text \<open>Answers are response APDUs: they end with a status word.\<close>

definition answers_end_in_sw :: "'d dispatcher \<Rightarrow> bool" where
  "answers_end_in_sw D \<longleftrightarrow> (\<forall>d r d'. take_response D d = (Some r, d') \<longrightarrow> 2 \<le> length r)"

lemma poll_loop_length: "answers_end_in_sw D \<Longrightarrow> poll_loop D n d = Some (r, d') \<Longrightarrow> 2 \<le> length r"
  by (induction D n d rule: poll_loop.induct)
    (auto simp: answers_end_in_sw_def split: option.splits prod.splits, blast)

lemma run_apdu_length: "answers_end_in_sw D \<Longrightarrow> run_apdu D a d = Some (r, d') \<Longrightarrow> 2 \<le> length r"
  by (auto simp: run_apdu_def dest: poll_loop_length split: if_splits prod.splits)

interpretation nk: card nk_power_on nk_power_off nk_reset nk_transmit nk_powered nk_atr answers_end_in_sw
  by unfold_locales
    (auto simp: nk_power_on_def nk_power_off_def nk_reset_def nk_transmit_def
      split: if_splits dest: run_apdu_length)

section \<open>The interchange\<close>

text \<open>
  The interchange crate: a request is accepted when none is pending, the response is taken once, and
  polling only answers the pending request. \<open>view\<close> reads the protocol state.
\<close>

datatype interchange = Idle | Requested "byte list" | Responded "byte list"

definition interchange_laws :: "'d dispatcher \<Rightarrow> ('d \<Rightarrow> interchange) \<Rightarrow> bool" where
  "interchange_laws D view \<longleftrightarrow>
     (\<forall>d r. view d = Responded r \<longrightarrow> fst (take_response D d) = Some r \<and> view (snd (take_response D d)) = Idle) \<and>
     (\<forall>d. (\<forall>r. view d \<noteq> Responded r) \<longrightarrow> fst (take_response D d) = None \<and> view (snd (take_response D d)) = view d) \<and>
     (\<forall>d a. view d = Idle \<longrightarrow> fst (request D a d) \<and> view (snd (request D a d)) = Requested a) \<and>
     (\<forall>d a. view d \<noteq> Idle \<longrightarrow> \<not> fst (request D a d) \<and> view (snd (request D a d)) = view d) \<and>
     (\<forall>d d' a. dispatch_poll D d = Some d' \<longrightarrow> view d = Requested a \<longrightarrow>
        view d' = Requested a \<or> (\<exists>r. view d' = Responded r))"

lemma take_pending:
  assumes "interchange_laws D view"
  shows "view (snd (take_response D d)) = (case view d of Responded r \<Rightarrow> Idle | s \<Rightarrow> s)"
    "fst (take_response D d) = (case view d of Responded r \<Rightarrow> Some r | s \<Rightarrow> None)"
  using assms by (auto simp: interchange_laws_def split: interchange.split)

lemma poll_step:
  assumes "interchange_laws D view" "view d = Requested a" "dispatch_poll D d = Some d1"
  obtains (wait) d2 where "take_response D d1 = (None, d2)" "view d2 = Requested a"
  | (answer) r d2 where "take_response D d1 = (Some r, d2)" "view d2 = Idle"
proof -
  have "view d1 = Requested a \<or> (\<exists>r. view d1 = Responded r)"
    using assms by (auto simp: interchange_laws_def)
  then show thesis
    using take_pending [OF assms(1), of d1] wait answer by (cases "take_response D d1") auto
qed

text \<open>The loop ends with an answer and an idle interchange, or with the request still pending.\<close>

lemma poll_loop_ends:
  assumes "interchange_laws D view" "view d = Requested a" "poll_loop D n d = Some (r, d')"
  shows "view d' = Idle \<or> view d' = Requested a \<and> r = [0x64, 0x00]"
  using assms(2,3)
proof (induction n arbitrary: d)
  case (Suc n)
  then obtain d1 where d1: "dispatch_poll D d = Some d1" by (auto split: option.splits)
  from assms(1) Suc.prems(1) d1 show ?case
  proof (cases rule: poll_step)
    case (wait d2)
    with Suc d1 show ?thesis by simp
  next
    case (answer s d2)
    with Suc.prems d1 show ?thesis by simp
  qed
qed simp

text \<open>
  The loop sleeps for two milliseconds after each round without an answer, so that the timeout leaves
  it no more than a thousand.
\<close>

definition clock_sleeps :: "nat list \<Rightarrow> bool" where
  "clock_sleeps readings \<longleftrightarrow>
     (case readings of [] \<Rightarrow> True
      | now # tests \<Rightarrow> (\<forall>t\<in>set tests. now \<le> t) \<and> sorted_wrt (\<lambda>s t. s + 2 \<le> t) tests)"

lemma poll_rounds_bound:
  assumes "clock_sleeps (clock_ms D)"
  shows "poll_rounds D \<le> 1000"
proof (cases "clock_ms D")
  case (Cons now tests)
  define ts where "ts = takeWhile (\<lambda>t. t < now + APDU_TIMEOUT_MS) tests"
  have "sorted_wrt (\<lambda>s t. s + 2 \<le> t) tests" using assms Cons by (simp add: clock_sleeps_def)
  then have sorted: "sorted_wrt (\<lambda>s t. s + 2 \<le> t) ts"
    unfolding ts_def by (subst takeWhile_eq_take) (rule sorted_wrt_take)
  have "now + 2 * i \<le> ts ! i" if "i < length ts" for i
    using that
  proof (induction i)
    case 0
    then have "ts ! 0 \<in> set ts" by (rule nth_mem)
    then have "ts ! 0 \<in> set tests" unfolding ts_def by (rule set_takeWhileD [THEN conjunct1])
    with assms Cons show ?case by (simp add: clock_sleeps_def)
  next
    case (Suc i)
    with sorted_wrt_nth_less [OF sorted, of i "Suc i"] show ?case by simp
  qed
  moreover have "ts ! i < now + 2000" if "i < length ts" for i
    using nth_mem [OF that] unfolding ts_def APDU_TIMEOUT_MS_def by (rule set_takeWhileD [THEN conjunct2])
  ultimately have bound: "now + 2 * i < now + 2000" if "i < length ts" for i using that le_less_trans by blast
  have "length ts \<le> 1000"
  proof (cases "length ts")
    case (Suc n)
    with bound [of n] show ?thesis by simp
  qed simp
  with Cons show ?thesis by (simp add: poll_rounds_def ts_def)
qed (simp add: poll_rounds_def)

section \<open>Properties\<close>

text \<open>
  C32: a command to the Nitrokey card is answered by the dispatcher's response to this command, or by
  6400: a response left over from an earlier command that timed out is thrown away, and while the
  earlier command is still running the new one is not sent.
\<close>

theorem no_stale_response:
  assumes "interchange_laws D view" "length a \<le> apdu_capacity D" "run_apdu D a d = Some (r, d')"
  shows "case view d of
      Requested b \<Rightarrow> r = [0x64, 0x00] \<and> view d' = Requested b
    | _ \<Rightarrow> (\<exists>d0. view d0 = Requested a \<and> poll_loop D (poll_rounds D) d0 = Some (r, d')) \<and>
           (view d' = Idle \<or> view d' = Requested a \<and> r = [0x64, 0x00])"
proof -
  define d1 where "d1 = snd (take_response D d)"
  have v: "view d1 = (case view d of Responded r \<Rightarrow> Idle | s \<Rightarrow> s)"
    unfolding d1_def by (rule take_pending [OF assms(1)])
  have run: "run_apdu D a d = (if \<not> fst (request D a d1) then Some ([0x64, 0x00], snd (request D a d1))
      else poll_loop D (poll_rounds D) (snd (request D a d1)))"
    using assms(2) by (simp add: run_apdu_def d1_def split_beta)
  have sent: "view d1 = Idle \<Longrightarrow> fst (request D a d1) \<and> view (snd (request D a d1)) = Requested a"
    and refused: "view d1 \<noteq> Idle \<Longrightarrow> \<not> fst (request D a d1) \<and> view (snd (request D a d1)) = view d1"
    using assms(1) by (auto simp: interchange_laws_def)
  show ?thesis
  proof (cases "view d1 = Idle")
    case True
    with sent run assms(3) have "view (snd (request D a d1)) = Requested a"
      "poll_loop D (poll_rounds D) (snd (request D a d1)) = Some (r, d')" by auto
    moreover note poll_loop_ends [OF assms(1) this]
    ultimately show ?thesis using True v by (cases "view d") auto
  next
    case False
    with refused run assms(3) v show ?thesis by (cases "view d") auto
  qed
qed

text \<open>A dispatcher that echoes the request with 9000.\<close>

definition demo_dispatcher :: "interchange dispatcher" where
  "demo_dispatcher =
     \<lparr>apdu_capacity = 7609,
      take_response = (\<lambda>d. case d of Responded r \<Rightarrow> (Some r, Idle) | s \<Rightarrow> (None, s)),
      request = (\<lambda>a d. case d of Idle \<Rightarrow> (True, Requested a) | s \<Rightarrow> (False, s)),
      dispatch_poll = (\<lambda>d. case d of Requested a \<Rightarrow> Some (Responded (a @ [0x90, 0x00])) | s \<Rightarrow> Some s),
      clock_ms = [5, 5, 2005]\<rparr>"

lemma demo_interchange: "interchange_laws demo_dispatcher id"
  unfolding interchange_laws_def demo_dispatcher_def
  by (auto split: interchange.splits)

theorem no_stale_response_witness:
  "run_apdu demo_dispatcher [0, 0x61, 0, 0] (Responded [1, 2, 0x90, 0]) = Some ([0, 0x61, 0, 0, 0x90, 0], Idle) \<and>
   (\<exists>d0. d0 = Requested [0, 0x61, 0, 0] \<and>
      poll_loop demo_dispatcher (Suc 0) d0 = Some ([0, 0x61, 0, 0, 0x90, 0], Idle))"
proof -
  have run: "run_apdu demo_dispatcher [0, 0x61, 0, 0] (Responded [1, 2, 0x90, 0]) = Some ([0, 0x61, 0, 0, 0x90, 0], Idle)"
    unfolding run_apdu_def poll_rounds_def demo_dispatcher_def dispatcher.select_convs by (simp add: APDU_TIMEOUT_MS_def)
  moreover have "length [0, 0x61, 0, 0 :: byte] \<le> apdu_capacity demo_dispatcher" "poll_rounds demo_dispatcher = Suc 0"
    by (simp_all add: poll_rounds_def demo_dispatcher_def APDU_TIMEOUT_MS_def)
  ultimately show ?thesis
    using no_stale_response [OF demo_interchange, of "[0, 0x61, 0, 0]" "Responded [1, 2, 0x90, 0]"] by simp
qed

end
