(* ===== verification/Ifd_Handler.thy ===== *)
theory Ifd_Handler
  imports Virtual_Card Nitrokey_Card
begin

text \<open>
  The entry points that pcscd calls (\<open>IFDH*\<close> in \<open>src/lib.rs\<close>). The global state holds one shared
  reference (\<open>Arc\<close>) to a boxed card per slot: a reference is an index into the list of all cards
  ever created, so that a call that still holds a replaced card works on that card. The entry points
  that work on a card have two atomic parts, the lookup under the lock of the state and the call
  under the lock of the card; theory \<open>Ifd_Session\<close> interleaves them.

  All jcecards share one file system, \<open>disk\<close>. Pointers are modelled by what matters of them: whether
  an out parameter is null, the bytes written through it, and the length written back.
\<close>

section \<open>Boxed cards\<close>

datatype 'd slot_card = Jcecard virtual_card | Nitrokey "'d nitrokey_card"

text \<open>
  What a call depends on outside the program: the environment of the virtual card, the dispatcher
  of the Nitrokey card, the result of starting the firmware, and the feature the crate is built with.
\<close>

record ('k, 'd) ifd_env =
  card_env :: "'k env"
  nk_dispatcher :: "'d dispatcher"
  nk_boot :: "'d option"
  nitrokey_feature :: bool

fun box_power_on :: "'d slot_card \<Rightarrow> byte list \<times> 'd slot_card" where
  "box_power_on (Jcecard c) = map_prod id Jcecard (vc_power_on c)"
| "box_power_on (Nitrokey c) = map_prod id Nitrokey (nk_power_on c)"

fun box_power_off :: "'d slot_card \<Rightarrow> 'd slot_card" where
  "box_power_off (Jcecard c) = Jcecard (vc_power_off c)"
| "box_power_off (Nitrokey c) = Nitrokey (nk_power_off c)"

fun box_reset :: "'d slot_card \<Rightarrow> byte list \<times> 'd slot_card" where
  "box_reset (Jcecard c) = map_prod id Jcecard (vc_reset c)"
| "box_reset (Nitrokey c) = map_prod id Nitrokey (nk_reset c)"

fun box_transmit :: "('k, 'd) ifd_env \<Rightarrow> byte list \<Rightarrow> 'd slot_card \<Rightarrow> (byte list \<times> 'd slot_card) option" where
  "box_transmit X d (Jcecard c) = map_option (map_prod id Jcecard) (vc_process (card_env X) d c)"
| "box_transmit X d (Nitrokey c) = map_option (map_prod id Nitrokey) (nk_transmit (nk_dispatcher X) d c)"

fun box_is_powered :: "'d slot_card \<Rightarrow> bool" where
  "box_is_powered (Jcecard c) = powered c"
| "box_is_powered (Nitrokey c) = nk_powered c"

fun box_atr :: "'d slot_card \<Rightarrow> byte list" where
  "box_atr (Jcecard c) = vc_atr c"
| "box_atr (Nitrokey c) = nk_atr c"

abbreviation box_do ::
  "('k, 'd) ifd_env \<Rightarrow> 'd slot_card \<Rightarrow> card_call \<Rightarrow> (byte list \<times> 'd slot_card) option" where
  "box_do \<equiv> card_do box_power_on box_power_off box_reset box_transmit"

lemma box_transmit_cases:
  assumes "box_transmit X d b = Some (r, b')"
  obtains (jce) c c' where "b = Jcecard c" "b' = Jcecard c'" "vc_process (card_env X) d c = Some (r, c')"
  | (nk) c c' where "b = Nitrokey c" "b' = Nitrokey c'" "nk_transmit (nk_dispatcher X) d c = Some (r, c')"
  using assms by (cases b) auto

lemma box_transmit_laws:
  assumes "box_transmit X d b = Some (r, b')"
  shows "box_is_powered b' = box_is_powered b" "box_atr b' = box_atr b"
    "answers_end_in_sw (nk_dispatcher X) \<Longrightarrow> 2 \<le> length r"
proof -
  show "box_is_powered b' = box_is_powered b"
    using assms by (cases rule: box_transmit_cases) (auto dest: vc.transmit_powers nk.transmit_powers)
  show "box_atr b' = box_atr b"
    using assms by (cases rule: box_transmit_cases) (auto dest: vc.transmit_atr nk.transmit_atr)
  assume "answers_end_in_sw (nk_dispatcher X)"
  with assms show "2 \<le> length r"
    by (cases rule: box_transmit_cases) (auto dest: vc_process_frame nk.transmit_answers)
qed

lemma box_power_laws:
  "box_is_powered (snd (box_power_on b))" "\<not> box_is_powered (box_power_off b)" "box_is_powered (snd (box_reset b))"
  "fst (box_power_on b) = box_atr b" "box_atr (snd (box_power_on b)) = box_atr b"
  "box_atr (box_power_off b) = box_atr b" "fst (box_reset b) = box_atr b"
  "box_atr (snd (box_reset b)) = box_atr b"
  by (cases b; simp add: vc.power_on_powers vc.power_on_atr vc.power_off_powers vc.power_off_atr
      vc.reset_powers vc.reset_atr nk.power_on_powers nk.power_on_atr nk.power_off_powers
      nk.power_off_atr nk.reset_powers nk.reset_atr)+

lemma box_unpowered: "\<not> box_is_powered b \<Longrightarrow> box_transmit X d b = Some ([0x69, 0x85], b)"
  by (cases b) (simp_all add: vc.unpowered nk.unpowered)

text \<open>A box of a card is a card.\<close>

interpretation boxed: card box_power_on box_power_off box_reset box_transmit box_is_powered box_atr
  "\<lambda>X. answers_end_in_sw (nk_dispatcher X)"
  by unfold_locales (auto simp: box_power_laws box_unpowered dest: box_transmit_laws)

section \<open>The global state\<close>

type_synonym dword = "64 word"

definition NUM_SLOTS :: nat where "NUM_SLOTS = 2"
definition MAX_ATR_SIZE :: nat where "MAX_ATR_SIZE = 33"

definition IFD_SUCCESS :: dword where "IFD_SUCCESS = 0"
definition IFD_ERROR_TAG :: dword where "IFD_ERROR_TAG = 600"
definition IFD_ERROR_NOT_SUPPORTED :: dword where "IFD_ERROR_NOT_SUPPORTED = 606"
definition IFD_COMMUNICATION_ERROR :: dword where "IFD_COMMUNICATION_ERROR = 612"
definition IFD_ICC_PRESENT :: dword where "IFD_ICC_PRESENT = 615"
definition IFD_ICC_NOT_PRESENT :: dword where "IFD_ICC_NOT_PRESENT = 614"

definition TAG_IFD_ATR :: dword where "TAG_IFD_ATR = 0x0303"
definition TAG_IFD_SLOTS_NUMBER :: dword where "TAG_IFD_SLOTS_NUMBER = 0x0FAE"
definition TAG_IFD_THREAD_SAFE :: dword where "TAG_IFD_THREAD_SAFE = 0x0FAD"
definition TAG_IFD_SLOT_THREAD_SAFE :: dword where "TAG_IFD_SLOT_THREAD_SAFE = 0x0FBE"

definition IFD_POWER_UP :: dword where "IFD_POWER_UP = 500"
definition IFD_POWER_DOWN :: dword where "IFD_POWER_DOWN = 501"
definition IFD_RESET :: dword where "IFD_RESET = 502"

lemmas IFD_codes = IFD_SUCCESS_def IFD_ERROR_TAG_def IFD_ERROR_NOT_SUPPORTED_def
  IFD_COMMUNICATION_ERROR_def IFD_ICC_PRESENT_def IFD_ICC_NOT_PRESENT_def
lemmas IFD_tags = TAG_IFD_ATR_def TAG_IFD_SLOTS_NUMBER_def TAG_IFD_THREAD_SAFE_def TAG_IFD_SLOT_THREAD_SAFE_def
lemmas IFD_actions = IFD_POWER_UP_def IFD_POWER_DOWN_def IFD_RESET_def

text \<open>\<open>slots\<close> is the array of the code; \<open>cards\<close> the cards behind the references.\<close>

record 'd ifd_state =
  slots :: "nat option list"
  cards :: "'d slot_card list"
  disk :: files

definition ifd_new :: "files \<Rightarrow> 'd ifd_state" where
  "ifd_new fs = \<lparr>slots = replicate NUM_SLOTS None, cards = [], disk = fs\<rparr>"

definition slot_of :: "dword \<Rightarrow> nat" where
  "slot_of lun = unat (lun AND 0xFFFF)"

text \<open>A card works on the file system as it is now.\<close>

fun with_disk :: "files \<Rightarrow> 'd slot_card \<Rightarrow> 'd slot_card" where
  "with_disk fs (Jcecard c) = Jcecard (c\<lparr>openpgp := (openpgp c)\<lparr>store := (store (openpgp c))\<lparr>store_fs := fs\<rparr>\<rparr>\<rparr>)"
| "with_disk fs (Nitrokey c) = Nitrokey c"

fun disk_after :: "files \<Rightarrow> 'd slot_card \<Rightarrow> files" where
  "disk_after fs (Jcecard c) = store_fs (store (openpgp c))"
| "disk_after fs (Nitrokey c) = fs"

text \<open>The second part of an entry point: a call under the lock of the card \<open>arc\<close>.\<close>

definition locked_call ::
  "('k, 'd) ifd_env \<Rightarrow> nat \<Rightarrow> card_call \<Rightarrow> 'd ifd_state \<Rightarrow> (byte list \<times> 'd ifd_state) option" where
  "locked_call X arc call s =
     map_option (\<lambda>(r, b). (r, s\<lparr>cards := (cards s)[arc := b], disk := disk_after (disk s) b\<rparr>))
       (box_do X (with_disk (disk s) (cards s ! arc)) call)"

section \<open>Entry points\<close>

text \<open>
  What the caller sees: the response code, the bytes written through the buffer pointer, and the
  value written through the length pointer.
\<close>

record ifd_out =
  code :: dword
  out_bytes :: "byte list option"
  out_length :: "dword option"

definition just_code :: "dword \<Rightarrow> ifd_out" where
  "just_code c = \<lparr>code = c, out_bytes = None, out_length = None\<rparr>"

definition build_slot_card :: "('k, 'd) ifd_env \<Rightarrow> files \<Rightarrow> nat \<Rightarrow> 'd slot_card option" where
  "build_slot_card X fs slot =
     (if slot = 0 then Some (Jcecard (virtual_card_new (card_env X) fs))
      else if slot = 1 \<and> nitrokey_feature X then map_option Nitrokey (nitrokey_new (nk_boot X))
      else None)"

definition IFDHCreateChannelByName ::
  "('k, 'd) ifd_env \<Rightarrow> dword \<Rightarrow> string option \<Rightarrow> 'd ifd_state \<Rightarrow> ifd_out \<times> 'd ifd_state" where
  "IFDHCreateChannelByName X lun device_name s =
     (let slot = slot_of lun in
      if slot \<ge> length (slots s) then (just_code IFD_COMMUNICATION_ERROR, s)
      else case build_slot_card X (disk s) slot of
          Some new_card \<Rightarrow>
            (just_code IFD_SUCCESS,
             s\<lparr>slots := (slots s)[slot := Some (length (cards s))], cards := cards s @ [new_card],
               disk := disk_after (disk s) new_card\<rparr>)
        | None \<Rightarrow> (just_code IFD_COMMUNICATION_ERROR, s))"

definition IFDHCreateChannel ::
  "('k, 'd) ifd_env \<Rightarrow> dword \<Rightarrow> dword \<Rightarrow> 'd ifd_state \<Rightarrow> ifd_out \<times> 'd ifd_state" where
  "IFDHCreateChannel X lun channel s =
     (let slot = slot_of lun in
      if slot \<ge> length (slots s) then (just_code IFD_COMMUNICATION_ERROR, s)
      else case build_slot_card X (disk s) slot of
          Some new_card \<Rightarrow>
            (just_code IFD_SUCCESS,
             s\<lparr>slots := (slots s)[slot := Some (length (cards s))], cards := cards s @ [new_card],
               disk := disk_after (disk s) new_card\<rparr>)
        | None \<Rightarrow> (just_code IFD_COMMUNICATION_ERROR, s))"

definition IFDHCloseChannel :: "('k, 'd) ifd_env \<Rightarrow> dword \<Rightarrow> 'd ifd_state \<Rightarrow> (ifd_out \<times> 'd ifd_state) option" where
  "IFDHCloseChannel X lun s =
     (let slot = slot_of lun in
      if slot \<ge> length (slots s) then Some (just_code IFD_COMMUNICATION_ERROR, s)
      else case slots s ! slot of
          None \<Rightarrow> Some (just_code IFD_SUCCESS, s)
        | Some arc \<Rightarrow>
            map_option (\<lambda>(_, s'). (just_code IFD_SUCCESS, s'))
              (locked_call X arc PowerOff (s\<lparr>slots := (slots s)[slot := None]\<rparr>)))"

text \<open>One byte through \<open>value\<close>, when it is not null.\<close>

definition one_byte :: "bool \<Rightarrow> byte \<Rightarrow> ifd_out" where
  "one_byte has_value b =
     \<lparr>code = IFD_SUCCESS, out_bytes = (if has_value then Some [b] else None), out_length = Some 1\<rparr>"

definition IFDHGetCapabilities :: "dword \<Rightarrow> dword \<Rightarrow> bool \<Rightarrow> bool \<Rightarrow> 'd ifd_state \<Rightarrow> ifd_out" where
  "IFDHGetCapabilities lun tag has_length has_value s =
     (if \<not> has_length then just_code IFD_COMMUNICATION_ERROR
      else let slot = slot_of lun in
        if tag = TAG_IFD_ATR then
          (if slot \<ge> length (slots s) then just_code IFD_COMMUNICATION_ERROR
           else case slots s ! slot of
               Some arc \<Rightarrow>
                 (let slot_card = cards s ! arc in
                  if box_is_powered slot_card then
                    (let atr = box_atr slot_card; atr_len = min (length atr) MAX_ATR_SIZE in
                     \<lparr>code = IFD_SUCCESS, out_bytes = (if has_value then Some (take atr_len atr) else None),
                      out_length = Some (of_nat atr_len)\<rparr>)
                  else just_code IFD_ICC_NOT_PRESENT)
             | None \<Rightarrow> just_code IFD_ICC_NOT_PRESENT)
        else if tag = TAG_IFD_SLOTS_NUMBER then one_byte has_value (of_nat NUM_SLOTS)
        else if tag = TAG_IFD_THREAD_SAFE then one_byte has_value 0
        else if tag = TAG_IFD_SLOT_THREAD_SAFE then one_byte has_value 1
        else just_code IFD_ERROR_TAG)"

definition IFDHSetCapabilities :: "dword \<Rightarrow> dword \<Rightarrow> ifd_out" where
  "IFDHSetCapabilities lun tag = just_code IFD_ERROR_NOT_SUPPORTED"

definition IFDHSetProtocolParameters :: "dword \<Rightarrow> dword \<Rightarrow> ifd_out" where
  "IFDHSetProtocolParameters lun protocol = just_code IFD_SUCCESS"

text \<open>The common first part: the reference of the slot, cloned under the lock of the state.\<close>

definition lookup_card :: "dword \<Rightarrow> 'd ifd_state \<Rightarrow> dword + nat" where
  "lookup_card lun s =
     (let slot = slot_of lun in
      if slot \<ge> length (slots s) then Err IFD_COMMUNICATION_ERROR
      else case slots s ! slot of Some arc \<Rightarrow> Ok arc | None \<Rightarrow> Err IFD_COMMUNICATION_ERROR)"

definition atr_out :: "bool \<Rightarrow> bool \<Rightarrow> byte list \<Rightarrow> ifd_out" where
  "atr_out has_atr has_length card_atr =
     (let copy_len = min (length card_atr) MAX_ATR_SIZE in
      if has_atr \<and> has_length then
        \<lparr>code = IFD_SUCCESS, out_bytes = Some (take copy_len card_atr), out_length = Some (of_nat copy_len)\<rparr>
      else just_code IFD_SUCCESS)"

definition power_card ::
  "('k, 'd) ifd_env \<Rightarrow> nat \<Rightarrow> dword \<Rightarrow> bool \<Rightarrow> bool \<Rightarrow> 'd ifd_state \<Rightarrow> (ifd_out \<times> 'd ifd_state) option" where
  "power_card X arc action has_atr has_length s =
     (if action = IFD_POWER_UP then
        map_option (\<lambda>(card_atr, s'). (atr_out has_atr has_length card_atr, s')) (locked_call X arc PowerOn s)
      else if action = IFD_POWER_DOWN then
        map_option (\<lambda>(_, s'). (just_code IFD_SUCCESS, s')) (locked_call X arc PowerOff s)
      else if action = IFD_RESET then
        map_option (\<lambda>(card_atr, s'). (atr_out has_atr has_length card_atr, s')) (locked_call X arc Reset s)
      else Some (just_code IFD_ERROR_NOT_SUPPORTED, s))"

definition IFDHPowerICC ::
  "('k, 'd) ifd_env \<Rightarrow> dword \<Rightarrow> dword \<Rightarrow> bool \<Rightarrow> bool \<Rightarrow> 'd ifd_state \<Rightarrow> (ifd_out \<times> 'd ifd_state) option" where
  "IFDHPowerICC X lun action has_atr has_length s =
     (case lookup_card lun s of
        Err e \<Rightarrow> Some (just_code e, s)
      | Ok arc \<Rightarrow> power_card X arc action has_atr has_length s)"

definition transmit_card ::
  "('k, 'd) ifd_env \<Rightarrow> nat \<Rightarrow> byte list \<Rightarrow> dword \<Rightarrow> 'd ifd_state \<Rightarrow> (ifd_out \<times> 'd ifd_state) option" where
  "transmit_card X arc apdu rx_length s =
     map_option (\<lambda>(response, s').
         (let copy_len = min (length response) (unat rx_length) in
          \<lparr>code = IFD_SUCCESS, out_bytes = Some (take copy_len response), out_length = Some (of_nat copy_len)\<rparr>,
          s'))
       (locked_call X arc (Transmit apdu) s)"

text \<open>\<open>tx\<close>: the bytes sent; \<open>rx_length\<close>: the capacity of the receive buffer; \<open>None\<close> is a null pointer.\<close>

definition IFDHTransmitToICC ::
  "('k, 'd) ifd_env \<Rightarrow> dword \<Rightarrow> byte list option \<Rightarrow> bool \<Rightarrow> dword option \<Rightarrow> 'd ifd_state \<Rightarrow>
     (ifd_out \<times> 'd ifd_state) option" where
  "IFDHTransmitToICC X lun tx has_rx rx_length s =
     (case (tx, has_rx, rx_length) of
        (Some apdu, True, Some n) \<Rightarrow>
          (case lookup_card lun s of
             Err e \<Rightarrow> Some (just_code e, s)
           | Ok arc \<Rightarrow> transmit_card X arc apdu n s)
      | _ \<Rightarrow> Some (just_code IFD_COMMUNICATION_ERROR, s))"

definition IFDHICCPresence :: "dword \<Rightarrow> 'd ifd_state \<Rightarrow> ifd_out" where
  "IFDHICCPresence lun s =
     (let slot = slot_of lun in
      if slot \<ge> length (slots s) then just_code IFD_ICC_NOT_PRESENT
      else if slots s ! slot \<noteq> None then just_code IFD_ICC_PRESENT
      else just_code IFD_ICC_NOT_PRESENT)"

definition IFDHControl :: "dword \<Rightarrow> dword \<Rightarrow> ifd_out" where
  "IFDHControl lun control_code = just_code IFD_ERROR_NOT_SUPPORTED"

end
