(* ===== verification/Ifd_Session.thy ===== *)
theory Ifd_Session
  imports Ifd_Handler
begin

text \<open>
  Calls of the IFD handler from several threads. A call that works on a card is two steps: it looks
  its card up and is pending, and later works on that card, whatever happened to the slot in
  between. The properties are that slots do not influence each other, that a power-down or reset
  leaves nothing verified, and what is written to the caller's buffers.
\<close>

section \<open>Interleaved calls\<close>

datatype pending_call = PendingPower nat dword bool bool | PendingTransmit nat "byte list" dword

record 'd ifd_conf =
  ifd :: "'d ifd_state"
  pending :: "pending_call list"

datatype ifd_event =
    CreateChannel dword dword | CreateChannelByName dword "string option" | CloseChannel dword
  | PowerICC dword dword bool bool
  | TransmitToICC dword "byte list option" bool "dword option"
  | Resume nat

fun pending_arc :: "pending_call \<Rightarrow> nat" where
  "pending_arc (PendingPower arc _ _ _) = arc"
| "pending_arc (PendingTransmit arc _ _) = arc"

fun resume :: "('k, 'd) ifd_env \<Rightarrow> pending_call \<Rightarrow> 'd ifd_state \<Rightarrow> (ifd_out \<times> 'd ifd_state) option" where
  "resume X (PendingPower arc action a l) s = power_card X arc action a l s"
| "resume X (PendingTransmit arc apdu n) s = transmit_card X arc apdu n s"

definition remove_nth :: "nat \<Rightarrow> 'a list \<Rightarrow> 'a list" where
  "remove_nth n xs = take n xs @ drop (Suc n) xs"

definition start_call :: "dword + nat \<Rightarrow> (nat \<Rightarrow> pending_call) \<Rightarrow> 'd ifd_conf \<Rightarrow> ifd_out option \<times> 'd ifd_conf" where
  "start_call l p c =
     (case l of
        Err e \<Rightarrow> (Some (just_code e), c)
      | Ok arc \<Rightarrow> (None, c\<lparr>pending := pending c @ [p arc]\<rparr>))"

text \<open>One step; the output is \<open>None\<close> while the call is pending, the whole result is \<open>None\<close> after a panic.\<close>

definition ifd_next ::
  "('k, 'd) ifd_env \<Rightarrow> 'd ifd_conf \<Rightarrow> ifd_event \<Rightarrow> (ifd_out option \<times> 'd ifd_conf) option" where
  "ifd_next X c e =
     (case e of
        CreateChannel lun ch \<Rightarrow>
          (let (r, s) = IFDHCreateChannel X lun ch (ifd c) in Some (Some r, c\<lparr>ifd := s\<rparr>))
      | CreateChannelByName lun name \<Rightarrow>
          (let (r, s) = IFDHCreateChannelByName X lun name (ifd c) in Some (Some r, c\<lparr>ifd := s\<rparr>))
      | CloseChannel lun \<Rightarrow>
          map_option (\<lambda>(r, s). (Some r, c\<lparr>ifd := s\<rparr>)) (IFDHCloseChannel X lun (ifd c))
      | PowerICC lun action a l \<Rightarrow>
          Some (start_call (lookup_card lun (ifd c)) (\<lambda>arc. PendingPower arc action a l) c)
      | TransmitToICC lun tx has_rx n \<Rightarrow>
          (case (tx, has_rx, n) of
             (Some apdu, True, Some m) \<Rightarrow>
               Some (start_call (lookup_card lun (ifd c)) (\<lambda>arc. PendingTransmit arc apdu m) c)
           | _ \<Rightarrow> Some (Some (just_code IFD_COMMUNICATION_ERROR), c))
      | Resume n \<Rightarrow>
          (if n < length (pending c) then
             map_option (\<lambda>(r, s). (Some r, c\<lparr>ifd := s, pending := remove_nth n (pending c)\<rparr>))
               (resume X (pending c ! n) (ifd c))
           else Some (None, c)))"

text \<open>A call that is resumed at once is the entry point.\<close>

lemma power_then_resume:
  assumes "lookup_card lun (ifd c) = Ok arc"
  shows "ifd_next X c (PowerICC lun action a l) = Some (None, c\<lparr>pending := pending c @ [PendingPower arc action a l]\<rparr>)"
    "ifd_next X (c\<lparr>pending := pending c @ [PendingPower arc action a l]\<rparr>) (Resume (length (pending c))) =
       map_option (\<lambda>(r, s). (Some r, c\<lparr>ifd := s\<rparr>)) (IFDHPowerICC X lun action a l (ifd c))"
  using assms by (simp_all add: ifd_next_def start_call_def IFDHPowerICC_def remove_nth_def)

lemma transmit_then_resume:
  assumes "lookup_card lun (ifd c) = Ok arc"
  shows "ifd_next X c (TransmitToICC lun (Some d) True (Some n)) =
      Some (None, c\<lparr>pending := pending c @ [PendingTransmit arc d n]\<rparr>)"
    "ifd_next X (c\<lparr>pending := pending c @ [PendingTransmit arc d n]\<rparr>) (Resume (length (pending c))) =
       map_option (\<lambda>(r, s). (Some r, c\<lparr>ifd := s\<rparr>)) (IFDHTransmitToICC X lun (Some d) True (Some n) (ifd c))"
  using assms by (simp_all add: ifd_next_def start_call_def IFDHTransmitToICC_def remove_nth_def)

section \<open>What a call changes\<close>

lemma locked_callE:
  assumes "locked_call X arc call s = Some (r, s')"
  obtains b where "box_do X (with_disk (disk s) (cards s ! arc)) call = Some (r, b)"
    "s' = s\<lparr>cards := (cards s)[arc := b], disk := disk_after (disk s) b\<rparr>"
  using assms by (auto simp: locked_call_def)

text \<open>Every step on a card is a locked call of this card, or changes nothing.\<close>

lemma power_card_cases:
  assumes "power_card X arc action a l s = Some (r, s')"
  obtains (nothing) "s' = s"
  | (call) call d where "locked_call X arc call s = Some (d, s')" "\<And>x. call \<noteq> Transmit x"
  using assms by (auto simp: power_card_def split: if_splits)

lemma transmit_cardE:
  assumes "transmit_card X arc apdu n s = Some (r, s')"
  obtains d where "locked_call X arc (Transmit apdu) s = Some (d, s')"
    "out_bytes r = Some (take (min (length d) (unat n)) d)"
    "out_length r = Some (of_nat (min (length d) (unat n)))" "code r = IFD_SUCCESS"
  using assms by (auto simp: transmit_card_def Let_def)

lemma resume_cases:
  assumes "resume X p s = Some (r, s')"
  obtains (nothing) "s' = s"
  | (call) call d where "locked_call X (pending_arc p) call s = Some (d, s')"
      "\<And>x. call = Transmit x \<Longrightarrow> \<exists>n. p = PendingTransmit (pending_arc p) x n"
proof (cases p)
  case (PendingPower arc action a l)
  with assms have "power_card X arc action a l s = Some (r, s')" by simp
  then show thesis
  proof (cases rule: power_card_cases)
    case nothing
    then show thesis by (rule that(1))
  next
    case (call c d)
    with PendingPower show thesis by (intro that(2) [of c d]) auto
  qed
next
  case (PendingTransmit arc apdu n)
  with assms have "transmit_card X arc apdu n s = Some (r, s')" by simp
  then show thesis using call PendingTransmit by (elim transmit_cardE) auto
qed

fun event_lun :: "ifd_event \<Rightarrow> dword option" where
  "event_lun (CreateChannel lun _) = Some lun"
| "event_lun (CreateChannelByName lun _) = Some lun"
| "event_lun (CloseChannel lun) = Some lun"
| "event_lun (PowerICC lun _ _ _) = Some lun"
| "event_lun (TransmitToICC lun _ _ _) = Some lun"
| "event_lun (Resume _) = None"

text \<open>The two ways to create a channel do the same.\<close>

definition create_in :: "dword \<Rightarrow> 'd slot_card \<Rightarrow> 'd ifd_state \<Rightarrow> 'd ifd_state" where
  "create_in lun b s =
     s\<lparr>slots := (slots s)[slot_of lun := Some (length (cards s))], cards := cards s @ [b],
       disk := disk_after (disk s) b\<rparr>"

lemma create_channel_cases:
  assumes "IFDHCreateChannel X lun ch s = (r, s') \<or> IFDHCreateChannelByName X lun name s = (r, s')"
  obtains (nothing) "s' = s"
  | (new) b where "slot_of lun < length (slots s)" "build_slot_card X (disk s) (slot_of lun) = Some b"
      "s' = create_in lun b s"
  using assms
  by (auto simp: IFDHCreateChannel_def IFDHCreateChannelByName_def create_in_def Let_def
      split: if_splits option.splits)

lemma lookup_card_Ok: "lookup_card lun s = Ok arc \<longleftrightarrow> slot_of lun < length (slots s) \<and> slots s ! slot_of lun = Some arc"
  by (auto simp: lookup_card_def Let_def split: option.splits)

lemma start_call_cases:
  assumes "start_call l p c = (r, c')"
  obtains (nothing) "c' = c" | (start) arc where "l = Ok arc" "c' = c\<lparr>pending := pending c @ [p arc]\<rparr>"
  using assms by (auto simp: start_call_def split: sum.splits)

text \<open>The kinds of step, for the proofs of invariants.\<close>

lemma ifd_next_cases [consumes 1, case_names quiet create close start resume]:
  assumes step: "ifd_next X c e = Some (r, c')"
    and "ifd c' = ifd c \<Longrightarrow> set (pending c') \<subseteq> set (pending c) \<Longrightarrow> P"
    and "\<And>lun b. event_lun e = Some lun \<Longrightarrow> slot_of lun < length (slots (ifd c)) \<Longrightarrow>
      build_slot_card X (disk (ifd c)) (slot_of lun) = Some b \<Longrightarrow> ifd c' = create_in lun b (ifd c) \<Longrightarrow>
      pending c' = pending c \<Longrightarrow> P"
    and "\<And>lun arc d. event_lun e = Some lun \<Longrightarrow> slot_of lun < length (slots (ifd c)) \<Longrightarrow>
      slots (ifd c) ! slot_of lun = Some arc \<Longrightarrow>
      locked_call X arc PowerOff ((ifd c)\<lparr>slots := (slots (ifd c))[slot_of lun := None]\<rparr>) = Some (d, ifd c') \<Longrightarrow>
      pending c' = pending c \<Longrightarrow> P"
    and "\<And>lun p. event_lun e = Some lun \<Longrightarrow> lookup_card lun (ifd c) = Ok (pending_arc p) \<Longrightarrow>
      (\<And>x n. p = PendingTransmit (pending_arc p) x n \<Longrightarrow> e = TransmitToICC lun (Some x) True (Some n)) \<Longrightarrow>
      c' = c\<lparr>pending := pending c @ [p]\<rparr> \<Longrightarrow> P"
    and "\<And>p call d. p \<in> set (pending c) \<Longrightarrow> locked_call X (pending_arc p) call (ifd c) = Some (d, ifd c') \<Longrightarrow>
      (\<And>x. call = Transmit x \<Longrightarrow> \<exists>n. p = PendingTransmit (pending_arc p) x n) \<Longrightarrow>
      set (pending c') \<subseteq> set (pending c) \<Longrightarrow> P"
  shows P
proof (cases e)
  case (CreateChannel lun ch)
  then obtain s where "IFDHCreateChannel X lun ch (ifd c) = (the r, s)" "c' = c\<lparr>ifd := s\<rparr>"
    using step by (auto simp: ifd_next_def Let_def split: prod.splits)
  then show P using assms(2,3) CreateChannel by (auto elim!: create_channel_cases [OF disjI1])
next
  case (CreateChannelByName lun name)
  then obtain s where "IFDHCreateChannelByName X lun name (ifd c) = (the r, s)" "c' = c\<lparr>ifd := s\<rparr>"
    using step by (auto simp: ifd_next_def Let_def split: prod.splits)
  then show P using assms(2,3) CreateChannelByName by (auto elim!: create_channel_cases [OF disjI2])
next
  case (CloseChannel lun)
  then obtain s where s: "IFDHCloseChannel X lun (ifd c) = Some (the r, s)" "c' = c\<lparr>ifd := s\<rparr>"
    using step by (auto simp: ifd_next_def)
  then show P using assms(2) assms(4) [of lun] CloseChannel
    by (auto simp: IFDHCloseChannel_def Let_def split: if_splits option.splits)
next
  case (PowerICC lun action a l)
  then have "start_call (lookup_card lun (ifd c)) (\<lambda>arc. PendingPower arc action a l) c = (r, c')"
    using step by (simp add: ifd_next_def)
  then show P
    using assms(2) assms(5) [of lun "PendingPower _ action a l"] PowerICC
    by (cases rule: start_call_cases) auto
next
  case (TransmitToICC lun tx has_rx n)
  then consider "c' = c" | d m where "tx = Some d" "has_rx" "n = Some m"
      "start_call (lookup_card lun (ifd c)) (\<lambda>arc. PendingTransmit arc d m) c = (r, c')"
    using step by (auto simp: ifd_next_def split: option.splits if_splits bool.splits)
  then show P
  proof cases
    case 2
    from 2(4) show P
      using assms(2) assms(5) [of lun "PendingTransmit _ d m"] TransmitToICC 2(1-3)
      by (cases rule: start_call_cases) auto
  qed (use assms(2) in simp)
next
  case (Resume n)
  show P
  proof (cases "n < length (pending c)")
    case True
    then obtain r' s where s: "resume X (pending c ! n) (ifd c) = Some (r', s)"
      "c' = c\<lparr>ifd := s, pending := remove_nth n (pending c)\<rparr>"
      using step Resume by (auto simp: ifd_next_def)
    have sub: "set (pending c') \<subseteq> set (pending c)"
      using s(2) by (auto simp: remove_nth_def dest: in_set_takeD in_set_dropD)
    from s(1) show P
    proof (cases rule: resume_cases)
      case nothing
      with s(2) sub assms(2) show P by simp
    next
      case (call call d)
      with s(2) sub True show P by (intro assms(6) [of "pending c ! n" call d]) simp_all
    qed
  next
    case False
    with step Resume assms(2) show P by (simp add: ifd_next_def)
  qed
qed

section \<open>The invariant of the handler\<close>

text \<open>
  References are valid and not shared between slots; slot 0 holds a virtual card, slot 1 a Nitrokey
  card, each with its ATR.
\<close>

fun box_in_slot :: "nat \<Rightarrow> 'd slot_card \<Rightarrow> bool" where
  "box_in_slot slot (Jcecard c) \<longleftrightarrow> slot = 0 \<and> vc_atr c = create_openpgp_atr"
| "box_in_slot slot (Nitrokey c) \<longleftrightarrow> slot = 1 \<and> nk_atr c = NITROKEY3_ATR"

definition ifd_wf :: "'d ifd_conf \<Rightarrow> bool" where
  "ifd_wf c \<longleftrightarrow> length (slots (ifd c)) = NUM_SLOTS \<and>
     (\<forall>i arc. i < NUM_SLOTS \<longrightarrow> slots (ifd c) ! i = Some arc \<longrightarrow>
        arc < length (cards (ifd c)) \<and> box_in_slot i (cards (ifd c) ! arc)) \<and>
     (\<forall>i j arc. i < NUM_SLOTS \<longrightarrow> j < NUM_SLOTS \<longrightarrow> slots (ifd c) ! i = Some arc \<longrightarrow>
        slots (ifd c) ! j = Some arc \<longrightarrow> i = j) \<and>
     (\<forall>p \<in> set (pending c). pending_arc p < length (cards (ifd c)))"

lemma ifd_wf_new: "ifd_wf \<lparr>ifd = ifd_new fs, pending = []\<rparr>"
  by (simp add: ifd_wf_def ifd_new_def)

lemma box_in_slot_with_disk [simp]: "box_in_slot i (with_disk fs b) = box_in_slot i b"
  by (cases b) simp_all

lemma box_do_in_slot: "box_do X b call = Some (r, b') \<Longrightarrow> box_in_slot i b' = box_in_slot i b"
proof -
  assume a: "box_do X b call = Some (r, b')"
  have "box_atr b' = box_atr b" by (rule boxed.call_atr [OF a])
  moreover have "(\<exists>c. b' = Jcecard c) = (\<exists>c. b = Jcecard c)"
    using a
    by (cases b) (auto simp: card_do_def vc_power_on_def vc_reset_def nk_power_on_def nk_reset_def
        split: card_call.splits)
  ultimately show ?thesis by (cases b; cases b') auto
qed

lemma locked_call_frame:
  assumes "locked_call X arc call s = Some (r, s')"
  shows "slots s' = slots s" "length (cards s') = length (cards s)"
    "i \<noteq> arc \<Longrightarrow> cards s' ! i = cards s ! i"
    "arc < length (cards s) \<Longrightarrow> box_in_slot k (cards s' ! i) = box_in_slot k (cards s ! i)"
  using assms by (auto elim!: locked_callE dest!: box_do_in_slot simp: nth_list_update split: if_splits)

lemma build_in_slot: "build_slot_card X fs slot = Some b \<Longrightarrow> box_in_slot slot b"
  by (auto simp: build_slot_card_def virtual_card_new_def nitrokey_new_def Let_def split: if_splits)

lemma ifd_wf_create:
  assumes "ifd_wf c" "slot_of lun < NUM_SLOTS" "box_in_slot (slot_of lun) b"
    "ifd c' = create_in lun b (ifd c)" "pending c' = pending c"
  shows "ifd_wf c'"
proof -
  let ?s = "ifd c" and ?k = "slot_of lun"
  have fresh: "slots ?s ! i \<noteq> Some (length (cards ?s))" if "i < NUM_SLOTS" for i
    using assms(1) that by (auto simp: ifd_wf_def)
  have "arc < length (cards ?s) \<and> box_in_slot i (cards ?s ! arc)"
    if "i < NUM_SLOTS" "slots ?s ! i = Some arc" for i arc
    using assms(1) that by (auto simp: ifd_wf_def)
  then show ?thesis
    using assms fresh by (auto simp: ifd_wf_def create_in_def nth_list_update nth_append less_Suc_eq)
qed

lemma ifd_wf_call:
  assumes "ifd_wf c" "arc < length (cards (ifd c))"
    and "locked_call X arc call ((ifd c)\<lparr>slots := sl\<rparr>) = Some (d, ifd c')" "set (pending c') \<subseteq> set (pending c)"
    and "length sl = NUM_SLOTS" "\<And>i a. i < NUM_SLOTS \<Longrightarrow> sl ! i = Some a \<Longrightarrow> slots (ifd c) ! i = Some a"
  shows "ifd_wf c'"
proof -
  note fr = locked_call_frame [OF assms(3)]
  have "slots (ifd c') = sl" "length (cards (ifd c')) = length (cards (ifd c))" using fr(1,2) by simp_all
  moreover have "box_in_slot k (cards (ifd c') ! i) = box_in_slot k (cards (ifd c) ! i)" for i k
    using fr(4) assms(2) by simp
  ultimately show ?thesis
    using assms(1,4,5,6) unfolding ifd_wf_def by (metis subsetD)
qed

lemma ifd_wf_step:
  assumes "ifd_next X c e = Some (r, c')" "ifd_wf c"
  shows "ifd_wf c'"
  using assms(1)
proof (cases rule: ifd_next_cases)
  case quiet
  with assms(2) show ?thesis by (auto simp: ifd_wf_def)
next
  case (create lun b)
  with assms(2) show ?thesis
    by (intro ifd_wf_create [OF assms(2) _ build_in_slot]) (auto simp: ifd_wf_def)
next
  case (close lun arc d)
  with assms(2) have "arc < length (cards (ifd c))" "slot_of lun < NUM_SLOTS" by (auto simp: ifd_wf_def)
  with close assms(2) show ?thesis
    by (intro ifd_wf_call [OF assms(2) _ close(4)]) (auto simp: ifd_wf_def nth_list_update split: if_splits)
next
  case (start lun p)
  with assms(2) show ?thesis by (auto simp: ifd_wf_def lookup_card_Ok)
next
  case (resume p call d)
  with assms(2) have "pending_arc p < length (cards (ifd c))" by (auto simp: ifd_wf_def)
  moreover have "(ifd c)\<lparr>slots := slots (ifd c)\<rparr> = ifd c" by simp
  ultimately show ?thesis
    using resume assms(2)
    by (intro ifd_wf_call [OF assms(2), where sl = "slots (ifd c)" and call = call]) (auto simp: ifd_wf_def)
qed

lemma ifd_wf_reach: "cmd_reach ifd_next C c c' \<Longrightarrow> ifd_wf c \<Longrightarrow> ifd_wf c'"
  by (erule cmd_reach_keeps) (auto dest: ifd_wf_step)

section \<open>Isolation of the slots\<close>

definition other_slots :: "nat \<Rightarrow> ('k, 'd) ifd_env \<Rightarrow> 'd ifd_conf \<Rightarrow> ifd_event \<Rightarrow> bool" where
  "other_slots k X c e \<longleftrightarrow> (\<forall>lun. event_lun e = Some lun \<longrightarrow> slot_of lun \<noteq> k)"

definition slot_holds :: "nat \<Rightarrow> nat \<Rightarrow> 'd slot_card \<Rightarrow> 'd ifd_conf \<Rightarrow> bool" where
  "slot_holds k arc b c \<longleftrightarrow> ifd_wf c \<and> k < NUM_SLOTS \<and> slots (ifd c) ! k = Some arc \<and>
     cards (ifd c) ! arc = b \<and> arc \<notin> pending_arc ` set (pending c)"

lemma ifd_wf_arc:
  "ifd_wf c \<Longrightarrow> i < NUM_SLOTS \<Longrightarrow> slots (ifd c) ! i = Some arc \<Longrightarrow> arc < length (cards (ifd c))"
  by (simp add: ifd_wf_def)

lemma slot_holds_step:
  assumes step: "ifd_next X c e = Some (r, c')" and other: "other_slots k X c e" and h: "slot_holds k arc b c"
  shows "slot_holds k arc b c'"
proof -
  note wf' = ifd_wf_step [OF step]
  have h': "ifd_wf c" "k < NUM_SLOTS" "slots (ifd c) ! k = Some arc" "cards (ifd c) ! arc = b"
    "arc \<notin> pending_arc ` set (pending c)" "length (slots (ifd c)) = NUM_SLOTS"
    using h by (auto simp: slot_holds_def ifd_wf_def)
  have arc: "arc < length (cards (ifd c))" by (rule ifd_wf_arc [OF h'(1-3)])
  have mine: "i = k" if "i < NUM_SLOTS" "slots (ifd c) ! i = Some arc" for i
    using h' that unfolding ifd_wf_def by blast
  from step show ?thesis
  proof (cases rule: ifd_next_cases)
    case quiet
    with h wf' show ?thesis by (auto simp: slot_holds_def)
  next
    case (create lun b')
    then have "slot_of lun \<noteq> k" using other by (simp add: other_slots_def)
    with create h' arc wf' show ?thesis by (simp add: slot_holds_def create_in_def nth_append)
  next
    case (close lun a d)
    then have "slot_of lun \<noteq> k" using other by (simp add: other_slots_def)
    moreover from this close mine h'(6) have "a \<noteq> arc" by auto
    ultimately show ?thesis
      using close h' wf' locked_call_frame [OF close(4)] by (simp add: slot_holds_def)
  next
    case (start lun p)
    then have "pending_arc p \<noteq> arc"
      using other mine h'(6) by (auto simp: other_slots_def lookup_card_Ok)
    with start h' wf' show ?thesis by (auto simp: slot_holds_def)
  next
    case (resume p call d)
    then have "pending_arc p \<noteq> arc" using h'(5) by auto
    with resume h' wf' locked_call_frame [OF resume(2)] show ?thesis by (auto simp: slot_holds_def)
  qed
qed

section \<open>Properties\<close>

text \<open>
  C11: whatever calls are made to the other slot, by however many threads and in whatever
  interleaving, the channel of a slot stays open on the same card, and this card is not touched.
\<close>

theorem slots_are_isolated:
  assumes "cmd_reach ifd_next (other_slots k) c c'" "ifd_wf c" "k < NUM_SLOTS"
    and "slots (ifd c) ! k = Some arc" "arc \<notin> pending_arc ` set (pending c)"
  shows "slots (ifd c') ! k = Some arc \<and> cards (ifd c') ! arc = cards (ifd c) ! arc"
proof -
  have "slot_holds k arc (cards (ifd c) ! arc) c" using assms(2-5) by (simp add: slot_holds_def)
  then have "slot_holds k arc (cards (ifd c) ! arc) c'"
    by (rule cmd_reach_keeps [OF assms(1)]) (erule slot_holds_step [rotated 2], assumption+)
  then show ?thesis by (simp add: slot_holds_def)
qed

text \<open>A handler with both channels open.\<close>

definition demo_ifd_env :: "(demo_key, interchange) ifd_env" where
  "demo_ifd_env = \<lparr>card_env = demo_env, nk_dispatcher = demo_dispatcher, nk_boot = Some Idle, nitrokey_feature = True\<rparr>"

definition demo_boxes :: "interchange slot_card list" where
  "demo_boxes = [Jcecard demo_card, Nitrokey \<lparr>nk_atr = NITROKEY3_ATR, nk_powered = True, nk_driver = Idle\<rparr>]"

definition demo_ifd :: "interchange ifd_conf" where
  "demo_ifd = \<lparr>ifd = \<lparr>slots = [Some 0, Some 1], cards = demo_boxes, disk = Map.empty\<rparr>, pending = []\<rparr>"

lemma less_NUM_SLOTS: "i < NUM_SLOTS \<longleftrightarrow> i = 0 \<or> i = 1"
  by (auto simp: NUM_SLOTS_def)

lemma demo_ifd_wf: "ifd_wf demo_ifd"
  by (auto simp: ifd_wf_def demo_ifd_def demo_boxes_def demo_card_def less_NUM_SLOTS) (simp add: NUM_SLOTS_def)

theorem slots_are_isolated_witness:
  "\<exists>r c'. ifd_next demo_ifd_env demo_ifd (CloseChannel 0) = Some (r, c') \<and> slots (ifd c') = [None, Some 1] \<and>
     cards (ifd c') ! 1 = demo_boxes ! 1"
proof -
  obtain r c' where s: "ifd_next demo_ifd_env demo_ifd (CloseChannel 0) = Some (r, c')" "slots (ifd c') = [None, Some 1]"
    by (simp add: ifd_next_def IFDHCloseChannel_def demo_ifd_def demo_boxes_def slot_of_def locked_call_def
        card_do_def)
  have "other_slots 1 demo_ifd_env demo_ifd (CloseChannel 0)" by (simp add: other_slots_def slot_of_def)
  then have "cmd_reach ifd_next (other_slots 1 :: (demo_key, interchange) ifd_env \<Rightarrow> _) demo_ifd c'"
    by (rule cmd_reach_one [where P = ifd_next and C = "other_slots 1", OF _ s(1)])
  from slots_are_isolated [OF this demo_ifd_wf, of 1] s show ?thesis
    by (simp add: demo_ifd_def less_NUM_SLOTS)
qed

text \<open>
  C12: powering a slot down or resetting it succeeds and leaves nothing verified in the card: no PIN
  of either applet, no management key, no pending challenge and no response to be fetched; the stored
  data is as it was, and until an applet is selected every command is refused.
\<close>

theorem power_down_locks_card:
  assumes "lookup_card lun s = Ok arc" "arc < length (cards s)" "cards s ! arc = Jcecard v"
    and "action \<in> {IFD_POWER_DOWN, IFD_RESET}"
  shows "\<exists>r s' w. IFDHPowerICC X lun action a l s = Some (r, s') \<and> code r = IFD_SUCCESS \<and>
    cards s' ! arc = Jcecard w \<and> vc_locked w \<and> pgp_state (openpgp w) = pgp_state (openpgp v) \<and>
    piv_objects (piv w) = piv_objects (piv v) \<and>
    (\<forall>(Y :: 'y env) d. (\<forall>cmd. parse_apdu d = Ok cmd \<longrightarrow> ins cmd \<noteq> 0xA4) \<longrightarrow>
       vc_process Y d w \<in> {Some ([0x69, 0x85], w), Some ([0x67, 0x00], w)})"
proof -
  let ?v = "v\<lparr>openpgp := (openpgp v)\<lparr>store := (store (openpgp v))\<lparr>store_fs := disk s\<rparr>\<rparr>\<rparr>"
  define w where "w = (if action = IFD_RESET then snd (vc_reset ?v) else vc_power_off ?v)"
  have st: "pgp_state (openpgp w) = pgp_state (openpgp v)" "piv_objects (piv w) = piv_objects (piv v)"
    by (simp_all add: w_def vc_reset_def vc_power_off_def reset_applets) (simp add: pgp_state_def)
  have lock: "vc_locked w" by (simp add: w_def vc_power_locks)
  have "\<exists>r s'. IFDHPowerICC X lun action a l s = Some (r, s') \<and> code r = IFD_SUCCESS \<and> cards s' ! arc = Jcecard w"
    using assms
    by (auto simp: IFDHPowerICC_def power_card_def locked_call_def card_do_def w_def IFD_actions atr_out_def
        vc_reset_def just_code_def Let_def)
  moreover have "vc_process Y d w \<in> {Some ([0x69, 0x85], w), Some ([0x67, 0x00], w)}"
    if "\<forall>cmd. parse_apdu d = Ok cmd \<longrightarrow> ins cmd \<noteq> 0xA4" for Y :: "'y env" and d
    using vc_no_applet [of w d Y] lock that by (auto simp: vc_locked_def)
  ultimately show ?thesis using st lock by blast
qed

theorem power_down_locks_card_witness:
  "\<exists>r s' w. IFDHPowerICC demo_ifd_env 0 502 True True (ifd demo_ifd) = Some (r, s') \<and> cards s' ! 0 = Jcecard w \<and>
     vc_locked w"
proof -
  have "lookup_card 0 (ifd demo_ifd) = Ok 0" by (simp add: lookup_card_Ok demo_ifd_def slot_of_def)
  from power_down_locks_card [OF this, of demo_card IFD_RESET demo_ifd_env True True] show ?thesis
    by (auto simp: demo_ifd_def demo_boxes_def IFD_actions)
qed

text \<open>
  C35: what IFDHTransmitToICC writes to the receive buffer is a prefix of the card's answer that fits
  the capacity given by the caller, and the length written back is its length.
\<close>

theorem transmit_fits_buffer:
  assumes "IFDHTransmitToICC X lun tx has_rx rx_length s = Some (r, s')" "code r = IFD_SUCCESS"
  shows "\<exists>d n arc answer. tx = Some d \<and> rx_length = Some n \<and> lookup_card lun s = Ok arc \<and>
    locked_call X arc (Transmit d) s = Some (answer, s') \<and>
    out_bytes r = Some (take (unat n) answer) \<and>
    map_option unat (out_length r) = Some (length (take (unat n) answer)) \<and>
    length (take (unat n) answer) \<le> unat n"
proof -
  have err: "IFD_COMMUNICATION_ERROR \<noteq> IFD_SUCCESS" by (simp add: IFD_codes)
  from assms obtain d n arc where d: "tx = Some d" "rx_length = Some n" "lookup_card lun s = Ok arc"
    "transmit_card X arc d n s = Some (r, s')"
    by (auto simp: IFDHTransmitToICC_def just_code_def err lookup_card_def Let_def
        split: option.splits bool.splits sum.splits if_splits)
  from d(4) obtain answer where answer: "locked_call X arc (Transmit d) s = Some (answer, s')"
    "out_bytes r = Some (take (min (length answer) (unat n)) answer)"
    "out_length r = Some (of_nat (min (length answer) (unat n)))"
    by (elim transmit_cardE) auto
  have "unat n < 2 ^ 64" using unsigned_less [of n] by simp
  then have fits: "min (length answer) (unat n) < 2 ^ 64"
    by (simp add: min_less_iff_disj)
  then have "unat (of_nat (min (length answer) (unat n)) :: dword) = min (length answer) (unat n)"
    by (simp add: unat_of_nat)
  moreover have "take (min (length answer) (unat n)) answer = take (unat n) answer"
    by (simp add: min_def)
  ultimately show ?thesis using d answer by auto
qed

theorem transmit_fits_buffer_witness:
  "\<exists>r s'. IFDHTransmitToICC demo_ifd_env 0 (Some [0, 0xCA, 0, 0x6E]) True (Some 1) (ifd demo_ifd) = Some (r, s') \<and>
     out_bytes r = Some [0x69] \<and> map_option unat (out_length r) = Some 1"
proof -
  have process: "vc_process demo_env [0, 0xCA, 0, 0x6E] (demo_card\<lparr>openpgp := q\<rparr>) =
      Some ([0x69, 0x85], demo_card\<lparr>openpgp := q\<rparr>)" for q
    by (simp add: vc_process_def demo_card_def parse_apdu_def apdu_new_def Let_def response_to_bytes_def
        response_error_def response_new_def SW_defs)
  obtain r s' where t: "IFDHTransmitToICC demo_ifd_env 0 (Some [0, 0xCA, 0, 0x6E]) True (Some 1) (ifd demo_ifd) = Some (r, s')"
    "code r = IFD_SUCCESS" "locked_call demo_ifd_env 0 (Transmit [0, 0xCA, 0, 0x6E]) (ifd demo_ifd) = Some ([0x69, 0x85], s')"
    by (simp add: IFDHTransmitToICC_def lookup_card_def demo_ifd_def slot_of_def transmit_card_def locked_call_def
        card_do_def demo_boxes_def demo_ifd_env_def process Let_def)
  from transmit_fits_buffer [OF t(1,2)] t show ?thesis
    by (auto simp: lookup_card_Ok demo_ifd_def slot_of_def)
qed

text \<open>
  Powering a slot up returns the whole ATR of its card, never cut at \<open>MAX_ATR_SIZE\<close>, and the ATR
  reported afterwards for the slot is the same.
\<close>

theorem power_up_returns_atr:
  assumes "ifd_wf c" "lookup_card lun (ifd c) = Ok arc"
  shows "\<exists>r s'. IFDHPowerICC X lun IFD_POWER_UP True True (ifd c) = Some (r, s') \<and>
    out_bytes r = Some (if slot_of lun = 0 then DEFAULT_ATR else NITROKEY3_ATR) \<and>
    IFDHGetCapabilities lun TAG_IFD_ATR True True s' = r"
proof -
  let ?b = "with_disk (disk (ifd c)) (cards (ifd c) ! arc)"
  have k: "slot_of lun < NUM_SLOTS" "slots (ifd c) ! slot_of lun = Some arc" "arc < length (cards (ifd c))"
    "length (slots (ifd c)) = NUM_SLOTS" "box_in_slot (slot_of lun) ?b"
    using assms by (auto simp: lookup_card_Ok ifd_wf_def)
  have atr: "box_atr ?b = (if slot_of lun = 0 then DEFAULT_ATR else NITROKEY3_ATR)"
    using k(5) card_atrs(1) by (cases ?b) auto
  then have len: "length (box_atr ?b) \<le> MAX_ATR_SIZE"
    by (simp add: MAX_ATR_SIZE_def DEFAULT_ATR_def NITROKEY3_ATR_def)
  obtain d b where on: "box_power_on ?b = (d, b)" by fastforce
  with boxed.power_on_atr [of ?b] boxed.power_on_powers [of ?b]
  have b: "d = box_atr ?b" "box_atr b = box_atr ?b" "box_is_powered b" by auto
  show ?thesis
    using assms(2) k on b len
    by (simp add: IFDHPowerICC_def power_card_def locked_call_def card_do_def atr_out_def IFDHGetCapabilities_def
        Let_def atr split: if_split)
qed

theorem power_up_returns_atr_witness:
  "\<exists>r s'. IFDHPowerICC demo_ifd_env 1 500 True True (ifd demo_ifd) = Some (r, s') \<and> out_bytes r = Some NITROKEY3_ATR"
proof -
  have "lookup_card 1 (ifd demo_ifd) = Ok 1" by (simp add: lookup_card_Ok demo_ifd_def slot_of_def)
  from power_up_returns_atr [OF demo_ifd_wf this, of demo_ifd_env] show ?thesis
    by (auto simp: IFD_actions slot_of_def)
qed

end
