(* ===== verification/Ifd_Security.thy ===== *)
theory Ifd_Security
  imports Ifd_Session Pgp_Durable
begin

text \<open>
  The security of the whole program against a client of pcscd: from the start of the handler, over
  any interleaving of calls to any slot, power cycles, and channels closed and opened again, a
  client that never presents PW3 to the OpenPGP applet and never sends it ACTIVATE FILE changes
  neither PW3 nor a private key, in the memory of a card or in the file of slot 0. ACTIVATE FILE has
  to be excluded: it asks for no PIN and resets the card to factory state, keys and PW3 included
  (\<open>Pgp_Session.activate_file_needs_no_pin\<close>).
\<close>

section \<open>The host\<close>

text \<open>
  The environment may differ from call to call (clock, random numbers) but the directories, the file
  format and the digest are those of one host, whose disk works.
\<close>

definition same_host :: "'k env \<Rightarrow> 'k env \<Rightarrow> bool" where
  "same_host Y X \<longleftrightarrow> disk_works X \<and> from_json X = from_json Y \<and> sha256 X = sha256 Y \<and>
     var_storage_dir X = var_storage_dir Y \<and> home_dir X = home_dir Y"

lemma same_host_dirs:
  "same_host Y X \<Longrightarrow> get_root_storage_dir X = get_root_storage_dir Y"
  "same_host Y X \<Longrightarrow> get_slot_storage_dir X n = get_slot_storage_dir Y n"
  by (simp_all add: same_host_def get_root_storage_dir_def get_slot_storage_dir_def cong: option.case_cong)

text \<open>Loading is the same in every such environment.\<close>

lemma same_host_load:
  assumes "same_host Y X" "disk_works Y"
  shows "store_load X s = store_load Y s"
proof -
  have works: "disk_works X" using assms(1) by (simp add: same_host_def)
  have ops: "fs_exists X p f = fs_exists Y p f" "fs_read X p f = fs_read Y p f"
    "fs_create_dir X p f" "fs_create_dir Y p f" "snd (fs_rename X p q f) = snd (fs_rename Y p q f)" for p q f
    using works assms(2) by (simp_all add: disk_works_def fs_laws_def)
  have "migrate_legacy_state X s = migrate_legacy_state Y s"
    by (simp add: migrate_legacy_state_def same_host_dirs [OF assms(1)] ops Let_def)
  moreover have "initialize_default_pins X t = initialize_default_pins Y t" for t
    using assms(1) by (simp add: initialize_default_pins_def store_hash_pin_def same_host_def)
  ultimately show ?thesis
    using assms(1) by (simp add: store_load_def ops same_host_def Let_def cong: option.case_cong)
qed

text \<open>The state a new card of slot 0 starts from.\<close>

definition slot0_store :: "'k env \<Rightarrow> files \<Rightarrow> card_data_store" where
  "slot0_store Y fs = store_new_for_slot Y fs None 0"

definition slot0_state :: "'k env \<Rightarrow> files \<Rightarrow> card_state" where
  "slot0_state Y fs = reloaded Y (slot0_store Y fs)"

definition in_slot0 :: "'k env \<Rightarrow> card_data_store \<Rightarrow> bool" where
  "in_slot0 Y s \<longleftrightarrow> s = (slot0_store Y (store_fs s))\<lparr>state := state s\<rparr>"

lemma in_slot0_iff:
  "in_slot0 Y s \<longleftrightarrow> storage_dir s = get_slot_storage_dir Y 0 \<and>
     state_file s = path_join (get_slot_storage_dir Y 0) DEFAULT_STATE_FILE"
  by (cases s) (auto simp: in_slot0_def slot0_store_def store_new_for_slot_def Let_def)

lemma slot0_reloaded: "in_slot0 Y s \<Longrightarrow> reloaded Y s = slot0_state Y (store_fs s)"
proof -
  assume "in_slot0 Y s"
  then have "reloaded Y s = reloaded Y ((slot0_store Y (store_fs s))\<lparr>state := state s\<rparr>)"
    by (simp add: in_slot0_def)
  then show ?thesis by (simp add: slot0_state_def)
qed

lemma same_host_store: "same_host Y X \<Longrightarrow> store_new_for_slot X fs None 0 = slot0_store Y fs"
  by (simp add: slot0_store_def store_new_for_slot_def same_host_dirs)

section \<open>What is protected\<close>

text \<open>The digest of PW3 and the private keys of a card state.\<close>

definition admin_of :: "card_state \<Rightarrow> byte list \<times> (key_slot_type \<Rightarrow> byte list)" where
  "admin_of s = (pw3_hash (pin_data s), \<lambda>kt. private_key_data (get_slot kt s))"

lemma admin_of_part: "admin_part a = admin_of (pgp_state a)"
  by (simp add: admin_part_def admin_of_def)

definition pgp_guarded :: "'k env \<Rightarrow> byte list \<times> (key_slot_type \<Rightarrow> byte list) \<Rightarrow> openpgp_applet \<Rightarrow> bool" where
  "pgp_guarded Y K a \<longleftrightarrow> \<not> verified SC_PW3 a \<and> admin_part a = K \<and> in_slot0 Y (store a) \<and>
     admin_of (reloaded Y (store a)) = K"

lemma pgp_guarded_step:
  assumes step: "pgp_process X a cmd = Some (r, b)" and no: "without_pw3 X a cmd"
    and host: "same_host Y X" "disk_works Y" and g: "pgp_guarded Y K a"
  shows "pgp_guarded Y K b"
proof -
  have a: "\<not> verified SC_PW3 a" "admin_part a = K" "in_slot0 Y (store a)" "admin_of (reloaded Y (store a)) = K"
    using g by (simp_all add: pgp_guarded_def)
  have mem: "\<not> verified SC_PW3 b" "admin_part b = K"
    using without_pw3_step [OF no step a(1)] a(2) by simp_all
  have "admin_of (reloaded Y (store b)) = admin_of (pgp_state b)"
    using host a by (intro durable_step [OF step _ host(2)]) (simp_all add: on_disk_def same_host_def admin_of_part)
  moreover have "in_slot0 Y (store b)"
    using step
  proof (cases rule: pgp_store_cases)
    case (unsaved kt k)
    with a(1) show ?thesis by simp
  qed (use a(3) in \<open>simp_all add: in_slot0_iff\<close>)
  ultimately show ?thesis using mem by (simp add: pgp_guarded_def admin_of_part)
qed

lemma pgp_guarded_reset: "pgp_guarded Y K a \<Longrightarrow> pgp_guarded Y K (pgp_reset a)"
  by (simp add: pgp_guarded_def reset_applets admin_of_part)

text \<open>A command that goes to the OpenPGP applet is not ACTIVATE FILE and does not present PW3.\<close>

definition card_without_pw3 :: "'k env \<Rightarrow> virtual_card \<Rightarrow> card_call \<Rightarrow> bool" where
  "card_without_pw3 X v call \<longleftrightarrow>
     (\<forall>d cmd. call = Transmit d \<longrightarrow> powered v \<longrightarrow> active_applet v = OpenPGP \<longrightarrow>
        parse_apdu d = Ok cmd \<longrightarrow> without_pw3 X (openpgp v) cmd)"

lemma select_without_pw3: "ins cmd = 0xA4 \<Longrightarrow> without_pw3 X a cmd"
  by (simp add: without_pw3_def INS_defs)

lemma vc_guarded_call:
  assumes call: "card_do vc_power_on vc_power_off vc_reset vc_process X v call = Some (r, w)"
    and no: "card_without_pw3 X v call"
    and host: "same_host Y X" "disk_works Y" and g: "pgp_guarded Y K (openpgp v)"
  shows "pgp_guarded Y K (openpgp w)"
proof (cases call)
  case (Transmit d)
  with call have "vc_process X d v = Some (r, w)" by (simp add: card_do_def)
  then show ?thesis
  proof (cases rule: vc_process_cases)
    case (pgp cmd resp a s)
    have "without_pw3 X (openpgp v) cmd"
      using pgp(1,2,4) no Transmit select_without_pw3 by (auto simp: card_without_pw3_def)
    from pgp_guarded_step [OF pgp(3) this host g] pgp(6) show ?thesis by simp
  qed (use g in simp_all)
qed (use call g pgp_guarded_reset [of Y K "openpgp v"] in \<open>auto simp: card_do_def vc_power_on_def vc_power_off_def vc_reset_def\<close>)

section \<open>The handler\<close>

definition guarded :: "'k env \<Rightarrow> byte list \<times> (key_slot_type \<Rightarrow> byte list) \<Rightarrow> 'd ifd_state \<Rightarrow> bool" where
  "guarded Y K s \<longleftrightarrow> admin_of (slot0_state Y (disk s)) = K \<and>
     (\<forall>v. Jcecard v \<in> set (cards s) \<longrightarrow> \<not> verified SC_PW3 (openpgp v) \<and> admin_part (openpgp v) = K \<and>
        in_slot0 Y (store (openpgp v)))"

text \<open>
  The client: on the one host, no pending transmission presents PW3 to the OpenPGP applet, or is an
  ACTIVATE FILE to it, when it reaches its card.
\<close>

definition client_without_pw3 :: "'k env \<Rightarrow> ('k, 'd) ifd_env \<Rightarrow> 'd ifd_conf \<Rightarrow> ifd_event \<Rightarrow> bool" where
  "client_without_pw3 Y X c e \<longleftrightarrow> same_host Y (card_env X) \<and>
     (\<forall>arc d n v. PendingTransmit arc d n \<in> set (pending c) \<longrightarrow> cards (ifd c) ! arc = Jcecard v \<longrightarrow>
        card_without_pw3 (card_env X) v (Transmit d))"

lemma with_disk_guarded:
  assumes "guarded Y K s" "Jcecard v \<in> set (cards s)"
  shows "pgp_guarded Y K ((openpgp v)\<lparr>store := (store (openpgp v))\<lparr>store_fs := disk s\<rparr>\<rparr>)"
proof -
  have v: "\<not> verified SC_PW3 (openpgp v)" "admin_part (openpgp v) = K" "in_slot0 Y (store (openpgp v))"
    "admin_of (slot0_state Y (disk s)) = K"
    using assms by (auto simp: guarded_def)
  have "in_slot0 Y ((store (openpgp v))\<lparr>store_fs := disk s\<rparr>)" using v(3) by (simp add: in_slot0_iff)
  from this slot0_reloaded [OF this] v show ?thesis
    by (simp add: pgp_guarded_def admin_part_def pgp_state_def)
qed

lemma with_disk_without_pw3:
  "card_without_pw3 X (v\<lparr>openpgp := (openpgp v)\<lparr>store := (store (openpgp v))\<lparr>store_fs := fs\<rparr>\<rparr>\<rparr>) call =
   card_without_pw3 X v call"
  by (simp add: card_without_pw3_def without_pw3_def effective_cmd_def pgp_state_def)

lemma box_do_Jcecard:
  "box_do X (Jcecard v) call =
     map_option (map_prod id Jcecard) (card_do vc_power_on vc_power_off vc_reset vc_process (card_env X) v call)"
  by (cases call) (simp_all add: card_do_def)

lemma box_do_Nitrokey: "box_do X (Nitrokey v) call = Some (r, b) \<Longrightarrow> \<exists>w. b = Nitrokey w"
  by (cases call) (auto simp: card_do_def nk_power_on_def nk_reset_def)

lemma guarded_call:
  assumes call: "locked_call X arc call s = Some (d, s')" and arc: "arc < length (cards s)"
    and no: "\<And>v. cards s ! arc = Jcecard v \<Longrightarrow> card_without_pw3 (card_env X) v call"
    and host: "same_host Y (card_env X)" "disk_works Y" and g: "guarded Y K s"
  shows "guarded Y K s'"
proof -
  obtain b where b: "box_do X (with_disk (disk s) (cards s ! arc)) call = Some (d, b)"
    "s' = s\<lparr>cards := (cards s)[arc := b], disk := disk_after (disk s) b\<rparr>"
    using call by (rule locked_callE)
  show ?thesis
  proof (cases "cards s ! arc")
    case (Nitrokey w)
    then obtain w' where "b = Nitrokey w'" using b(1) box_do_Nitrokey [of X w call d b] by auto
    with b(2) g show ?thesis by (auto simp: guarded_def dest!: set_update_subset_insert [THEN subsetD])
  next
    case (Jcecard v)
    let ?v = "v\<lparr>openpgp := (openpgp v)\<lparr>store := (store (openpgp v))\<lparr>store_fs := disk s\<rparr>\<rparr>\<rparr>"
    have mem: "Jcecard v \<in> set (cards s)" using arc Jcecard nth_mem by metis
    obtain w where w: "b = Jcecard w" "card_do vc_power_on vc_power_off vc_reset vc_process (card_env X) ?v call = Some (d, w)"
      using b(1) Jcecard by (auto simp: box_do_Jcecard)
    have "pgp_guarded Y K (openpgp ?v)" using with_disk_guarded [OF g mem] by simp
    from vc_guarded_call [OF w(2) _ host this] no [OF Jcecard]
    have "pgp_guarded Y K (openpgp w)" by (simp add: with_disk_without_pw3)
    then have pg: "\<not> verified SC_PW3 (openpgp w)" "admin_part (openpgp w) = K" "in_slot0 Y (store (openpgp w))"
      "admin_of (slot0_state Y (store_fs (store (openpgp w)))) = K"
      using slot0_reloaded [of Y "store (openpgp w)"] by (auto simp: pgp_guarded_def)
    with b(2) w(1) g show ?thesis
      by (auto simp: guarded_def dest!: set_update_subset_insert [THEN subsetD])
  qed
qed

lemma guarded_create:
  assumes "guarded Y K s" "same_host Y (card_env X)" "disk_works Y"
    and "build_slot_card X (disk s) (slot_of lun) = Some b"
  shows "guarded Y K (create_in lun b s)"
proof (cases b)
  case (Jcecard v)
  let ?t = "snd (store_load Y (slot0_store Y (disk s)))"
  have v: "openpgp v = pgp_new ?t"
    using assms Jcecard
    by (auto simp: build_slot_card_def virtual_card_new_def same_host_store same_host_load nitrokey_new_def Let_def
        split: if_splits)
  have slot: "in_slot0 Y ?t"
    by (simp add: in_slot0_iff load_frame) (simp add: slot0_store_def store_new_for_slot_def Let_def)
  have "slot0_state Y (store_fs ?t) = slot0_state Y (disk s)"
    using reloaded_loaded [OF assms(3)] slot0_reloaded [OF slot] by (simp add: slot0_state_def)
  moreover have "state ?t = slot0_state Y (disk s)" by (simp add: slot0_state_def reloaded_def)
  ultimately show ?thesis
    using assms(1) slot Jcecard v
    by (auto simp: guarded_def create_in_def pgp_new_def admin_of_part pgp_state_def)
next
  case (Nitrokey v)
  with assms(1) show ?thesis by (auto simp: guarded_def create_in_def)
qed

lemma guarded_step:
  assumes step: "ifd_next X c e = Some (r, c')" and client: "client_without_pw3 Y X c e"
    and wf: "ifd_wf c" and works: "disk_works Y" and g: "guarded Y K (ifd c)"
  shows "guarded Y K (ifd c')"
proof -
  have host: "same_host Y (card_env X)" using client by (simp add: client_without_pw3_def)
  from step show ?thesis
  proof (cases rule: ifd_next_cases)
    case quiet
    with g show ?thesis by simp
  next
    case (create lun b)
    with guarded_create [OF g host works] show ?thesis by simp
  next
    case (close lun arc d)
    have "arc < length (cards (ifd c))" using close(2,3) wf by (auto simp: ifd_wf_def)
    moreover have "guarded Y K ((ifd c)\<lparr>slots := (slots (ifd c))[slot_of lun := None]\<rparr>)"
      using g by (simp add: guarded_def)
    ultimately show ?thesis
      using guarded_call [OF close(4) _ _ host works] by (simp add: card_without_pw3_def)
  next
    case (start lun p)
    with g show ?thesis by simp
  next
    case (resume p call d)
    have "pending_arc p < length (cards (ifd c))" using resume(1) wf by (simp add: ifd_wf_def)
    moreover have "card_without_pw3 (card_env X) v call" if "cards (ifd c) ! pending_arc p = Jcecard v" for v
    proof (cases "\<exists>x. call = Transmit x")
      case True
      then obtain x n where "call = Transmit x" "PendingTransmit (pending_arc p) x n \<in> set (pending c)"
        using resume(1,3) by metis
      with client that show ?thesis by (auto simp: client_without_pw3_def)
    qed (simp add: card_without_pw3_def)
    ultimately show ?thesis using guarded_call [OF resume(2) _ _ host works g] by blast
  qed
qed

section \<open>Properties\<close>

text \<open>
  C1: started on any files and used by a client that presents PW3 to no OpenPGP applet and sends it no
  ACTIVATE FILE, on a host whose disk works, the handler keeps PW3 and all private keys of the OpenPGP
  applet: in every card it ever created, however calls interleave, and in the file of slot 0, from
  which the next card starts. No card has PW3 verified. The exclusion of ACTIVATE FILE is needed: the
  code runs it without any PIN, and it replaces PW3 and erases the keys.
\<close>

theorem keys_survive_client:
  assumes "disk_works Y" "cmd_reach ifd_next (client_without_pw3 Y) \<lparr>ifd = ifd_new fs, pending = []\<rparr> c"
  shows "admin_of (slot0_state Y (disk (ifd c))) = admin_of (slot0_state Y fs) \<and>
    (\<forall>v. Jcecard v \<in> set (cards (ifd c)) \<longrightarrow>
       \<not> verified SC_PW3 (openpgp v) \<and> admin_part (openpgp v) = admin_of (slot0_state Y fs))"
proof -
  let ?K = "admin_of (slot0_state Y fs)" and ?c = "\<lparr>ifd = ifd_new fs, pending = []\<rparr>"
  have "ifd_wf ?c \<and> guarded Y ?K (ifd ?c)" using ifd_wf_new by (simp add: guarded_def ifd_new_def)
  then have "ifd_wf c \<and> guarded Y ?K (ifd c)"
    by (rule cmd_reach_keeps [OF assms(2), where I = "\<lambda>c. ifd_wf c \<and> guarded Y ?K (ifd c)"])
      (auto intro: ifd_wf_step guarded_step [OF _ _ _ assms(1)])
  then show ?thesis by (auto simp: guarded_def)
qed

text \<open>One channel open on slot 0, with no call pending: the states of the example below.\<close>

definition one_card :: "virtual_card \<Rightarrow> interchange ifd_conf" where
  "one_card v = \<lparr>ifd = \<lparr>slots = [Some 0, None], cards = [Jcecard v], disk = store_fs (store (openpgp v))\<rparr>, pending = []\<rparr>"

definition one_card_env :: "(demo_key, interchange) ifd_env" where
  "one_card_env = demo_ifd_env\<lparr>card_env := disk_env\<rparr>"

definition client_reaches :: "virtual_card \<Rightarrow> bool" where
  "client_reaches v \<longleftrightarrow> cmd_reach ifd_next (client_without_pw3 disk_env)
     \<lparr>ifd = ifd_new Map.empty, pending = []\<rparr> (one_card v)"

lemma one_card_env_simps [simp]: "card_env one_card_env = disk_env" "same_host disk_env disk_env"
  by (simp_all add: one_card_env_def same_host_def disk_env_works)

lemma one_card_simps [simp]: "pending (one_card v) = []" "cards (ifd (one_card v)) = [Jcecard v]"
  "(one_card v)\<lparr>ifd := ifd (one_card w), pending := []\<rparr> = one_card w"
  by (simp_all add: one_card_def)

lemma one_card_locked: "locked_call X 0 call (ifd (one_card v)) =
    map_option (\<lambda>(r, w). (r, ifd (one_card w)))
      (card_do vc_power_on vc_power_off vc_reset vc_process (card_env X) v call)"
proof -
  have "with_disk (store_fs (store (openpgp v))) (Jcecard v) = Jcecard v" by simp
  then show ?thesis
    by (auto simp: locked_call_def one_card_def box_do_Jcecard option.map_comp comp_def intro!: option.map_cong0)
qed

lemma one_card_created: "client_reaches (virtual_card_new disk_env Map.empty)"
proof -
  have "ifd_next one_card_env \<lparr>ifd = ifd_new Map.empty, pending = []\<rparr> (CreateChannel 0 0) =
      Some (Some (just_code IFD_SUCCESS), one_card (virtual_card_new disk_env Map.empty))"
    by (simp add: ifd_next_def IFDHCreateChannel_def slot_of_def ifd_new_def NUM_SLOTS_def build_slot_card_def
        one_card_def numeral_eq_Suc)
  then show ?thesis
    unfolding client_reaches_def
    by (rule cmd_reach_one [rotated]) (simp add: client_without_pw3_def)
qed

text \<open>A call that is made and resumed at once.\<close>

lemma one_card_call:
  assumes "client_reaches v" "ifd_next one_card_env (one_card v) e = Some (None, (one_card v)\<lparr>pending := [p]\<rparr>)"
    and "resume one_card_env p (ifd (one_card v)) = Some (r, ifd (one_card w))"
    and "pending_arc p = 0" "\<And>d n. p = PendingTransmit 0 d n \<Longrightarrow> card_without_pw3 disk_env v (Transmit d)"
  shows "client_reaches w"
proof -
  let ?d = "(one_card v)\<lparr>pending := [p]\<rparr>"
  have "client_without_pw3 disk_env one_card_env (one_card v) e" by (simp add: client_without_pw3_def)
  then have "cmd_reach ifd_next (client_without_pw3 disk_env) \<lparr>ifd = ifd_new Map.empty, pending = []\<rparr> ?d"
    by (rule cmd_reach_next [OF assms(1) [unfolded client_reaches_def] _ assms(2)])
  moreover have "ifd_next one_card_env ?d (Resume 0) = Some (Some r, one_card w)"
    using assms(3) by (simp add: ifd_next_def remove_nth_def)
  moreover have "client_without_pw3 disk_env one_card_env ?d (Resume 0)"
    using assms(4,5) by (auto simp: client_without_pw3_def)
  ultimately show ?thesis
    unfolding client_reaches_def by (metis cmd_reach_next)
qed

lemma one_card_lookup: "lookup_card 0 (ifd (one_card v)) = Ok 0"
  by (simp add: lookup_card_Ok one_card_def slot_of_def)

lemma one_card_powered: "client_reaches v \<Longrightarrow> client_reaches (snd (vc_power_on v))"
  by (erule one_card_call [where e = "PowerICC 0 IFD_POWER_UP True True" and p = "PendingPower 0 IFD_POWER_UP True True"
        and r = "atr_out True True (fst (vc_power_on v))"])
    (auto simp: ifd_next_def start_call_def one_card_lookup power_card_def one_card_locked card_do_def split_beta)

lemma one_card_transmits:
  assumes "client_reaches v" "vc_process disk_env d v = Some (r, w)" "card_without_pw3 disk_env v (Transmit d)"
  shows "client_reaches w"
proof -
  obtain out where "resume one_card_env (PendingTransmit 0 d 256) (ifd (one_card v)) = Some (out, ifd (one_card w))"
    using assms(2) by (simp add: transmit_card_def one_card_locked card_do_def Let_def)
  then show ?thesis
    using assms(1,3)
    by (elim one_card_call [where e = "TransmitToICC 0 (Some d) True (Some 256)", rotated 2])
      (auto simp: ifd_next_def start_call_def one_card_lookup)
qed

text \<open>The card is created, powered up, the OpenPGP applet is selected, and a wrong PW3 is presented.\<close>

definition example_card :: virtual_card where
  "example_card = (snd (vc_power_on (virtual_card_new disk_env Map.empty)))\<lparr>active_applet := OpenPGP\<rparr>"

lemma example_selects:
  "\<exists>r. vc_process disk_env (select_apdu OPENPGP_AID_PREFIX) (snd (vc_power_on (virtual_card_new disk_env Map.empty))) =
     Some (r, example_card)"
proof -
  have "parse_apdu (select_apdu OPENPGP_AID_PREFIX) =
      Ok \<lparr>cla = 0, ins = 0xA4, p1 = 0x04, p2 = 0, cmd_data = OPENPGP_AID_PREFIX, le = None\<rparr>"
    by (simp add: select_apdu_def OPENPGP_AID_PREFIX_def parse_apdu_def parse_short_apdu_def Let_def apdu_new_def)
  then show ?thesis
    by (simp add: vc_process_def vc_handle_select_def pgp_answer_def pgp_process_def is_chained_def INS_defs
        example_card_def vc_power_on_def virtual_card_new_def pgp_new_def pgp_route_def effective_cmd_def
        unchain_def handle_select_def Let_def)
qed

lemma example_state: "pgp_state (openpgp example_card) = slot0_state disk_env Map.empty"
  "slot0_state disk_env Map.empty = factory_state disk_env" "powered example_card"
  "active_applet example_card = OpenPGP" "command_buffer (openpgp example_card) = []"
proof -
  have fs: "fs_exists disk_env p f \<longleftrightarrow> f p \<noteq> None" for p f
    using disk_env_works by (simp add: disk_works_def fs_laws_def)
  show "slot0_state disk_env Map.empty = factory_state disk_env"
    unfolding slot0_state_def slot0_store_def
    by (subst reloaded_file [OF disk_env_works]) (simp add: store_new_for_slot_def migrate_legacy_state_def fs Let_def)
  show "pgp_state (openpgp example_card) = slot0_state disk_env Map.empty"
    by (simp add: example_card_def vc_power_on_def virtual_card_new_def pgp_new_def pgp_state_def slot0_state_def
        slot0_store_def reloaded_def Let_def)
qed (simp_all add: example_card_def vc_power_on_def virtual_card_new_def pgp_new_def Let_def)

lemma example_parse: "parse_apdu [0x00, 0x20, 0x00, 0x83, 0x01, 0x31] = Ok (verify_cmd 0x83 [0x31])"
  by (simp add: parse_apdu_def parse_short_apdu_def Let_def apdu_new_def verify_cmd_def INS_defs)

lemma example_wrong_pin: "\<not> pin_good disk_env PW3 (pgp_pins (openpgp example_card)) (strip_padding [0x31])"
  by (simp add: example_state strip_padding_def pin_good_def pin_fields_def factory_state_def
      pin_data_default_def word_le_nat_alt Let_def)

lemma example_verify:
  obtains r w where "vc_process disk_env [0x00, 0x20, 0x00, 0x83, 0x01, 0x31] example_card = Some (r, w)"
    "r = [0x63, 0xC2]"
    "pw3_retry_counter (pgp_pins (openpgp w)) = 2"
proof -
  let ?a = "(openpgp example_card)\<lparr>current_le := None\<rparr>" and ?v = "verify_cmd 0x83 [0x31]"
  let ?h = "handle_verify disk_env ?a ?v"
  have t: "verify_pin_type (p2 ?v) = Some PW3" "condition_of PW3 = Some SC_PW3" "cmd_data ?v \<noteq> []"
    by (simp_all add: verify_cmd_def verify_pin_type_def condition_of_def)
  have data: "cmd_data ?v = [0x31]" by (simp add: verify_cmd_def)
  have "get_retry_counter PW3 (pgp_pins (openpgp example_card)) = 3"
    by (simp add: example_state factory_state_def pin_data_default_def get_retry_counter_def)
  then have h: "fst ?h = retry_response 2 \<and> pw3_retry_counter (pgp_pins (snd ?h)) = 2"
    using example_wrong_pin unfolding handle_verify_pin [OF t] data
    by (simp add: Let_def verify_pin_alt saturating_dec_def) (simp add: set_retry_counter_def)
  have "vc_process disk_env [0x00, 0x20, 0x00, 0x83, 0x01, 0x31] example_card =
      Some (response_to_bytes (fst ?h), example_card\<lparr>openpgp := snd ?h\<rparr>)"
    using verify_cmd_process [of "openpgp example_card" disk_env "0x83" "[0x31]"]
    by (simp add: vc_process_def example_parse example_state pgp_answer_def split_beta)
      (simp add: verify_cmd_def INS_defs example_state factory_state_def)
  with h that show thesis
    by (simp add: response_to_bytes_def retry_response_def response_error_def response_new_def sw_counter_warning_def)
qed

theorem keys_survive_client_witness:
  "\<exists>r (c :: interchange ifd_conf) w. cmd_reach ifd_next (client_without_pw3 disk_env) \<lparr>ifd = ifd_new Map.empty, pending = []\<rparr> c \<and>
     vc_process disk_env [0x00, 0x20, 0x00, 0x83, 0x01, 0x31] example_card = Some (r, w) \<and>
     r = [0x63, 0xC2] \<and> cards (ifd c) = [Jcecard w] \<and> pw3_retry_counter (pgp_pins (openpgp w)) = 2 \<and>
     admin_of (slot0_state disk_env (disk (ifd c))) = admin_of (slot0_state disk_env Map.empty) \<and>
     admin_part (openpgp w) = admin_of (slot0_state disk_env Map.empty)"
proof -
  obtain s where "vc_process disk_env (select_apdu OPENPGP_AID_PREFIX)
      (snd (vc_power_on (virtual_card_new disk_env Map.empty))) = Some (s, example_card)"
    using example_selects by blast
  then have sel: "client_reaches example_card"
    by (rule one_card_transmits [OF one_card_powered [OF one_card_created]])
      (simp add: card_without_pw3_def vc_power_on_def)
  obtain r w where w: "vc_process disk_env [0x00, 0x20, 0x00, 0x83, 0x01, 0x31] example_card = Some (r, w)"
    "r = [0x63, 0xC2]" "pw3_retry_counter (pgp_pins (openpgp w)) = 2"
    by (rule example_verify)
  have "card_without_pw3 disk_env example_card (Transmit [0x00, 0x20, 0x00, 0x83, 0x01, 0x31])"
    using example_wrong_pin
    by (simp add: card_without_pw3_def example_parse without_pw3_def example_state effective_cmd_def
        verify_cmd_def INS_defs)
  from one_card_transmits [OF sel w(1) this]
  have "cmd_reach ifd_next (client_without_pw3 disk_env) \<lparr>ifd = ifd_new Map.empty, pending = []\<rparr> (one_card w)"
    by (simp add: client_reaches_def)
  from keys_survive_client [OF disk_env_works this] this w show ?thesis
    by - (rule exI [of _ r], rule exI [of _ "one_card w"], rule exI [of _ w], simp)
qed

end
