(* ===== verification/Nitrokey_Storage.thy ===== *)
theory Nitrokey_Storage
  imports Jc_Prelude
begin

text \<open>
  The two storages under the file systems of slot 1 (\<open>src/nitrokey/platform.rs\<close>): an image file and
  a buffer in memory, both implementations of littlefs2's trait \<open>Storage\<close>, which is the locale
  \<open>volume\<close>. The operating system is a parameter of the image file; offsets and lengths are the
  unbounded sums of \<open>usize\<close> values.
\<close>

datatype storage_error = NO_SPACE | IO_ERROR

definition VOLUME_SIZE :: nat where "VOLUME_SIZE = 512 * 128"
definition VOLUME_BLOCK_SIZE :: nat where "VOLUME_BLOCK_SIZE = 512"

section \<open>Writing into the middle of a list of bytes\<close>

text \<open>
  A file grows when written beyond its end, and a gap reads as zero; writing nothing changes nothing.
\<close>

definition put_at :: "nat \<Rightarrow> byte list \<Rightarrow> byte list \<Rightarrow> byte list" where
  "put_at offset d f = (if d = [] then f else take offset f @ replicate (offset - length f) 0 @ d @ drop (offset + length d) f)"

definition set_len :: "nat \<Rightarrow> byte list \<Rightarrow> byte list" where
  "set_len n f = take n f @ replicate (n - length f) 0"

lemma length_set_len [simp]: "length (set_len n f) = n"
  by (simp add: set_len_def)

lemma length_put_at: "offset + length d \<le> length f \<Longrightarrow> length (put_at offset d f) = length f"
  by (simp add: put_at_def)

lemma read_put_at: "offset + length d \<le> length f \<Longrightarrow> take (length d) (drop offset (put_at offset d f)) = d"
  by (simp add: put_at_def)

lemma read_put_at_before: "offset + length d \<le> length f \<Longrightarrow> o' + n \<le> offset \<Longrightarrow>
    take n (drop o' (put_at offset d f)) = take n (drop o' f)"
proof -
  assume a: "offset + length d \<le> length f" "o' + n \<le> offset"
  then have "n \<le> offset - o'" "o' \<le> offset" "offset \<le> length f" by simp_all
  with a show ?thesis by (auto simp: put_at_def drop_take min_def)
qed

lemma read_put_at_after: "offset + length d \<le> length f \<Longrightarrow> offset + length d \<le> o' \<Longrightarrow>
    take n (drop o' (put_at offset d f)) = take n (drop o' f)"
  by (simp add: put_at_def)

lemma put_at_append: "offset + length d + length e \<le> length f \<Longrightarrow>
    put_at (offset + length d) e (put_at offset d f) = put_at offset (d @ e) f"
  by (simp add: put_at_def ac_simps)

lemma put_at_Nil [simp]: "put_at offset [] f = f"
  by (simp add: put_at_def)

section \<open>\<open>RamStorage\<close>\<close>

text \<open>The buffer is \<open>VOLUME_SIZE\<close> long; the slices of the code are in range then.\<close>

definition ram_new :: "byte list" where
  "ram_new = replicate VOLUME_SIZE 0xFF"

definition ram_read :: "byte list \<Rightarrow> nat \<Rightarrow> nat \<Rightarrow> storage_error + byte list" where
  "ram_read buf offset n =
     (if offset + n > VOLUME_SIZE then Err NO_SPACE else Ok (take n (drop offset buf)))"

definition ram_write :: "byte list \<Rightarrow> nat \<Rightarrow> byte list \<Rightarrow> (storage_error + nat) \<times> byte list" where
  "ram_write buf offset d =
     (if offset + length d > VOLUME_SIZE then (Err NO_SPACE, buf)
      else (Ok (length d), take offset buf @ d @ drop (offset + length d) buf))"

definition ram_erase :: "byte list \<Rightarrow> nat \<Rightarrow> nat \<Rightarrow> (storage_error + nat) \<times> byte list" where
  "ram_erase buf offset n =
     (if offset + n > VOLUME_SIZE then (Err NO_SPACE, buf)
      else (Ok n, take offset buf @ replicate n 0xFF @ drop (offset + n) buf))"

section \<open>\<open>DiskStorage\<close>\<close>

text \<open>
  \<open>os_ok\<close>: opening, seeking and a single \<open>read\<close> or \<open>write\<close> succeed. \<open>os_count n\<close>: how many of \<open>n\<close> bytes
  a single \<open>read\<close> or \<open>write\<close> transfers. \<open>os_all n\<close>: how many of the \<open>n\<close> bytes that the \<open>write_all\<close> calls
  of an erase have to write reach the file; when it is less than \<open>n\<close>, one of the calls fails there.
  \<open>flush\<close> does nothing on a file.
\<close>

record disk_os =
  os_ok :: bool
  os_count :: "nat \<Rightarrow> nat"
  os_all :: "nat \<Rightarrow> nat"

text \<open>\<open>open_or_create\<close>: the image as found, if any, to the image the storage works on.\<close>

definition disk_open :: "disk_os \<Rightarrow> byte list option \<Rightarrow> byte list option" where
  "disk_open Os img =
     (if \<not> os_ok Os then None
      else case img of
          None \<Rightarrow> Some (set_len VOLUME_SIZE [])
        | Some f \<Rightarrow> if length f \<noteq> VOLUME_SIZE then Some (set_len VOLUME_SIZE f) else Some f)"

definition disk_read :: "disk_os \<Rightarrow> byte list \<Rightarrow> nat \<Rightarrow> nat \<Rightarrow> storage_error + byte list" where
  "disk_read Os f offset n =
     (if \<not> os_ok Os then Err IO_ERROR else Ok (take (min (os_count Os n) n) (drop offset f)))"

definition disk_write :: "disk_os \<Rightarrow> byte list \<Rightarrow> nat \<Rightarrow> byte list \<Rightarrow> (storage_error + nat) \<times> byte list" where
  "disk_write Os f offset d =
     (if offset + length d > VOLUME_SIZE then (Err NO_SPACE, f)
      else if \<not> os_ok Os then (Err IO_ERROR, f)
      else let n = min (os_count Os (length d)) (length d) in (Ok n, put_at offset (take n d) f))"

text \<open>The loop of \<open>erase\<close>: \<open>k\<close> blocks, of which the next \<open>m\<close> bytes can be written.\<close>

fun write_ones :: "nat \<Rightarrow> nat \<Rightarrow> nat \<Rightarrow> byte list \<Rightarrow> bool \<times> byte list" where
  "write_ones m 0 offset f = (True, f)"
| "write_ones m (Suc k) offset f =
     (if m < VOLUME_BLOCK_SIZE then (False, put_at offset (replicate m 0xFF) f)
      else write_ones (m - VOLUME_BLOCK_SIZE) k (offset + VOLUME_BLOCK_SIZE)
        (put_at offset (replicate VOLUME_BLOCK_SIZE 0xFF) f))"

definition disk_erase :: "disk_os \<Rightarrow> byte list \<Rightarrow> nat \<Rightarrow> nat \<Rightarrow> (storage_error + nat) \<times> byte list" where
  "disk_erase Os f offset n =
     (if offset + n > VOLUME_SIZE then (Err NO_SPACE, f)
      else if \<not> os_ok Os then (Err IO_ERROR, f)
      else let k = n div VOLUME_BLOCK_SIZE;
               (ok, g) = write_ones (os_all Os (k * VOLUME_BLOCK_SIZE)) k offset f in
        (if ok then Ok n else Err IO_ERROR, g))"

lemma block_size_pos [simp]: "0 < VOLUME_BLOCK_SIZE"
  by (simp add: VOLUME_BLOCK_SIZE_def)

text \<open>What the loop writes: all of the blocks, or what can be written of them.\<close>

lemma write_ones_replicate:
  "offset + k * VOLUME_BLOCK_SIZE \<le> length f \<Longrightarrow>
     write_ones m k offset f =
       (k * VOLUME_BLOCK_SIZE \<le> m, put_at offset (replicate (min m (k * VOLUME_BLOCK_SIZE)) 0xFF) f)"
proof (induction k arbitrary: m offset f)
  case (Suc k)
  let ?b = "replicate VOLUME_BLOCK_SIZE (0xFF :: byte)" and ?l = "k * VOLUME_BLOCK_SIZE"
  show ?case
  proof (cases "m < VOLUME_BLOCK_SIZE")
    case False
    let ?m = "m - VOLUME_BLOCK_SIZE"
    have total: "VOLUME_BLOCK_SIZE + min ?m ?l = min m (VOLUME_BLOCK_SIZE + ?l)" using False by linarith
    have "write_ones m (Suc k) offset f =
        (?l \<le> ?m, put_at (offset + length ?b) (replicate (min ?m ?l) 0xFF) (put_at offset ?b f))"
      using Suc False by (simp add: length_put_at)
    also have "put_at (offset + length ?b) (replicate (min ?m ?l) 0xFF) (put_at offset ?b f) =
        put_at offset (?b @ replicate (min ?m ?l) 0xFF) f"
      using Suc.prems by (subst put_at_append) simp_all
    also have "?b @ replicate (min ?m ?l) 0xFF = replicate (min m (Suc k * VOLUME_BLOCK_SIZE)) 0xFF"
      using total by (simp add: replicate_add [symmetric])
    finally show ?thesis using False by auto
  qed (simp add: min_def)
qed (simp add: put_at_def)

lemma whole_blocks: "offset + n \<le> L \<Longrightarrow> offset + n div VOLUME_BLOCK_SIZE * VOLUME_BLOCK_SIZE \<le> L"
  using div_times_less_eq_dividend [of n VOLUME_BLOCK_SIZE] by linarith

text \<open>An erase that fails part-way has erased a prefix of its range; the length of the file stays.\<close>

lemma disk_erase_effect:
  assumes "offset + n \<le> VOLUME_SIZE" "length f = VOLUME_SIZE" "os_ok Os"
  defines "l \<equiv> n div VOLUME_BLOCK_SIZE * VOLUME_BLOCK_SIZE"
  shows "disk_erase Os f offset n =
     (if l \<le> os_all Os l then Ok n else Err IO_ERROR, put_at offset (replicate (min (os_all Os l) l) 0xFF) f)"
  using assms whole_blocks [of offset n VOLUME_SIZE]
  by (simp add: disk_erase_def Let_def write_ones_replicate)

section \<open>The contract of the trait\<close>

locale volume =
  fixes rd :: "'s \<Rightarrow> nat \<Rightarrow> nat \<Rightarrow> storage_error + byte list"
    and wr :: "'s \<Rightarrow> nat \<Rightarrow> byte list \<Rightarrow> (storage_error + nat) \<times> 's"
    and er :: "'s \<Rightarrow> nat \<Rightarrow> nat \<Rightarrow> (storage_error + nat) \<times> 's"
    and content :: "'s \<Rightarrow> byte list"
    and good :: "'s \<Rightarrow> bool"
  assumes content_length: "good s \<Longrightarrow> length (content s) = VOLUME_SIZE"
    and read: "good s \<Longrightarrow> offset + n \<le> VOLUME_SIZE \<Longrightarrow> rd s offset n = Ok (take n (drop offset (content s)))"
    and write_result: "good s \<Longrightarrow> offset + length d \<le> VOLUME_SIZE \<Longrightarrow>
        fst (wr s offset d) = Ok (length d) \<and> content (snd (wr s offset d)) = put_at offset d (content s)"
    and write_good: "good s \<Longrightarrow> good (snd (wr s offset d))"
    and write_full: "offset + length d > VOLUME_SIZE \<Longrightarrow> wr s offset d = (Err NO_SPACE, s)"
    and erase_result: "good s \<Longrightarrow> offset + n \<le> VOLUME_SIZE \<Longrightarrow> VOLUME_BLOCK_SIZE dvd n \<Longrightarrow>
        fst (er s offset n) = Ok n \<and> content (snd (er s offset n)) = put_at offset (replicate n 0xFF) (content s)"
    and erase_good: "good s \<Longrightarrow> good (snd (er s offset n))"
    and erase_full: "offset + n > VOLUME_SIZE \<Longrightarrow> er s offset n = (Err NO_SPACE, s)"
begin

lemma read_back: "good s \<Longrightarrow> offset + length d \<le> VOLUME_SIZE \<Longrightarrow>
    rd (snd (wr s offset d)) offset (length d) = Ok d"
  using read [of "snd (wr s offset d)" offset "length d"] write_result [of s offset d]
  by (simp add: write_good read_put_at content_length)

text \<open>A write leaves the bytes outside its range alone.\<close>

lemma read_elsewhere:
  assumes "good s" "offset + length d \<le> VOLUME_SIZE" "o' + n \<le> VOLUME_SIZE"
    and "o' + n \<le> offset \<or> offset + length d \<le> o'"
  shows "rd (snd (wr s offset d)) o' n = rd s o' n"
  using assms write_result [of s offset d] read_put_at_before [of offset d "content s" o' n]
    read_put_at_after [of offset d "content s" o' n]
  by (auto simp: read write_good content_length)

lemma read_erased: "good s \<Longrightarrow> offset + n \<le> VOLUME_SIZE \<Longrightarrow> VOLUME_BLOCK_SIZE dvd n \<Longrightarrow>
    rd (snd (er s offset n)) offset n = Ok (replicate n 0xFF)"
  using read [of "snd (er s offset n)" offset n] erase_result [of s offset n]
    read_put_at [of offset "replicate n 0xFF" "content s"]
  by (simp add: erase_good content_length)

end

lemma ram_put_at:
  "offset + length d \<le> VOLUME_SIZE \<Longrightarrow> length buf = VOLUME_SIZE \<Longrightarrow> ram_write buf offset d = (Ok (length d), put_at offset d buf)"
  "offset + n \<le> VOLUME_SIZE \<Longrightarrow> length buf = VOLUME_SIZE \<Longrightarrow> ram_erase buf offset n = (Ok n, put_at offset (replicate n 0xFF) buf)"
  by (simp_all add: ram_write_def ram_erase_def put_at_def)

interpretation ram: volume ram_read ram_write ram_erase "\<lambda>b. b" "\<lambda>b. length b = VOLUME_SIZE"
  by unfold_locales
    (auto simp: ram_read_def ram_write_def ram_erase_def put_at_def)

definition disk_good :: "disk_os \<times> byte list \<Rightarrow> bool" where
  "disk_good s \<longleftrightarrow> os_ok (fst s) \<and> (\<forall>n. os_count (fst s) n = n \<and> os_all (fst s) n = n) \<and> length (snd s) = VOLUME_SIZE"

interpretation disk: volume "\<lambda>(Os, f). disk_read Os f"
  "\<lambda>(Os, f) offset d. map_prod id (Pair Os) (disk_write Os f offset d)"
  "\<lambda>(Os, f) offset n. map_prod id (Pair Os) (disk_erase Os f offset n)" snd disk_good
proof unfold_locales
  fix s :: "disk_os \<times> byte list" and offset n
  assume good: "disk_good s"
  obtain Os f where s: "s = (Os, f)" by (cases s)
  have os: "os_ok Os" "\<And>n. os_all Os n = n" "length f = VOLUME_SIZE" using good by (simp_all add: s disk_good_def)
  show "disk_good (snd ((\<lambda>(Os, f) offset n. map_prod id (Pair Os) (disk_erase Os f offset n)) s offset n))"
  proof (cases "offset + n \<le> VOLUME_SIZE")
    case True
    with good os whole_blocks [OF True] show ?thesis
      by (simp add: s disk_erase_effect disk_good_def length_put_at)
  qed (use good in \<open>simp add: s disk_erase_def\<close>)
  assume "offset + n \<le> VOLUME_SIZE" "VOLUME_BLOCK_SIZE dvd n"
  with os show "fst ((\<lambda>(Os, f) offset n. map_prod id (Pair Os) (disk_erase Os f offset n)) s offset n) = Ok n \<and>
      snd (snd ((\<lambda>(Os, f) offset n. map_prod id (Pair Os) (disk_erase Os f offset n)) s offset n)) =
        put_at offset (replicate n 0xFF) (snd s)"
    by (simp add: s disk_erase_effect)
qed (auto simp: disk_good_def disk_read_def disk_write_def disk_erase_def length_put_at Let_def not_less)

section \<open>The image file behaves as the buffer\<close>

datatype volume_op = VRead nat nat | VWrite nat "byte list" | VErase nat nat

text \<open>What littlefs does: it reads inside the volume and erases whole blocks.\<close>

definition op_in_range :: "volume_op \<Rightarrow> bool" where
  "op_in_range p =
     (case p of
        VRead offset n \<Rightarrow> offset + n \<le> VOLUME_SIZE
      | VWrite offset d \<Rightarrow> True
      | VErase offset n \<Rightarrow> VOLUME_BLOCK_SIZE dvd n)"

definition ram_op :: "byte list \<Rightarrow> volume_op \<Rightarrow> byte list \<times> (storage_error + byte list + nat)" where
  "ram_op buf p =
     (case p of
        VRead offset n \<Rightarrow> (buf, map_sum id Inl (ram_read buf offset n))
      | VWrite offset d \<Rightarrow> (let (r, b) = ram_write buf offset d in (b, map_sum id Inr r))
      | VErase offset n \<Rightarrow> (let (r, b) = ram_erase buf offset n in (b, map_sum id Inr r)))"

definition disk_op :: "disk_os \<Rightarrow> byte list \<Rightarrow> volume_op \<Rightarrow> byte list \<times> (storage_error + byte list + nat)" where
  "disk_op Os f p =
     (case p of
        VRead offset n \<Rightarrow> (f, map_sum id Inl (disk_read Os f offset n))
      | VWrite offset d \<Rightarrow> (let (r, g) = disk_write Os f offset d in (g, map_sum id Inr r))
      | VErase offset n \<Rightarrow> (let (r, g) = disk_erase Os f offset n in (g, map_sum id Inr r)))"

lemma disk_op_is_ram_op:
  assumes "disk_good (Os, f)" "op_in_range p"
  shows "disk_op Os f p = ram_op f p \<and> disk_good (Os, fst (disk_op Os f p))"
proof -
  have good: "os_ok Os" "\<And>n. os_count Os n = n" "\<And>n. os_all Os n = n" "length f = VOLUME_SIZE"
    using assms(1) by (simp_all add: disk_good_def)
  show ?thesis
  proof (cases p)
    case (VRead offset n)
    with assms(2) good show ?thesis
      by (simp add: disk_op_def ram_op_def op_in_range_def disk_read_def ram_read_def disk_good_def)
  next
    case (VWrite offset d)
    with good show ?thesis
      by (cases "offset + length d \<le> VOLUME_SIZE")
        (simp_all add: disk_op_def ram_op_def ram_put_at disk_write_def disk_good_def length_put_at,
         simp add: ram_write_def)
  next
    case (VErase offset n)
    with assms(2) good show ?thesis
      by (cases "offset + n \<le> VOLUME_SIZE")
        (simp_all add: disk_op_def ram_op_def op_in_range_def ram_put_at disk_erase_effect disk_good_def length_put_at,
         simp add: ram_erase_def disk_erase_def)
  qed
qed

text \<open>
  Outside of that the two differ. A read past the end is refused by the buffer; the image file, whose
  \<open>read\<close> has no check, answers with the bytes up to the end, fewer than were asked for. An erase that
  ends inside a block erases all of its range in the buffer; in the image file it leaves the last
  block as it was and reports the whole length all the same.
\<close>

lemma volumes_differ_on_reads:
  assumes "disk_good (Os, f)" "VOLUME_SIZE < offset + n" "0 < n"
  shows "ram_read f offset n = Err NO_SPACE \<and> (\<exists>d. disk_read Os f offset n = Ok d \<and> length d < n)"
  using assms by (auto simp: disk_good_def ram_read_def disk_read_def)

lemma volumes_differ_on_erases:
  assumes "disk_good (Os, f)" "offset + n \<le> VOLUME_SIZE" "n < VOLUME_BLOCK_SIZE"
  shows "disk_erase Os f offset n = (Ok n, f) \<and>
    ram_erase f offset n = (Ok n, put_at offset (replicate n 0xFF) f)"
  using assms by (simp add: disk_good_def disk_erase_effect ram_put_at)

text \<open>
  An erase of whole blocks that the operating system breaks off answers with an error, and has erased
  the bytes before the failure.
\<close>

lemma broken_erase:
  assumes "os_ok Os" "length f = VOLUME_SIZE" "offset + n \<le> VOLUME_SIZE" "VOLUME_BLOCK_SIZE dvd n" "os_all Os n < n"
  shows "disk_erase Os f offset n = (Err IO_ERROR, put_at offset (replicate (os_all Os n) 0xFF) f)"
  using assms by (simp add: disk_erase_effect)

section \<open>Properties\<close>

text \<open>
  C31: while the operating system completes every transfer, the image file and the memory buffer,
  holding the same bytes, answer every sequence of accesses alike and hold the same bytes after it, as
  long as its reads stay inside the volume and its erases are of whole blocks (writes and erases that
  do not fit are answered with \<open>NO_SPACE\<close> by both). Without these limits it is not so:
  \<open>volumes_differ_on_reads\<close>, \<open>volumes_differ_on_erases\<close>.
\<close>

theorem disk_implements_ram:
  assumes "os_ok Os" "\<forall>n. os_count Os n = n" "\<forall>n. os_all Os n = n" "length f = VOLUME_SIZE"
    and "list_all op_in_range ps"
  shows "run (disk_op Os) f ps = run ram_op f ps"
proof -
  have "disk_good (Os, f)" using assms(1-4) by (simp add: disk_good_def)
  then show ?thesis
    using assms(5)
  proof (induction ps arbitrary: f)
    case (Cons p ps)
    then have p: "disk_op Os f p = ram_op f p" "disk_good (Os, fst (ram_op f p))"
      using disk_op_is_ram_op [of Os f p] by auto
    with Cons show ?case by (simp add: split_beta Let_def)
  qed simp
qed

theorem disk_implements_ram_witness:
  "snd (run (disk_op \<lparr>os_ok = True, os_count = id, os_all = id\<rparr>) (set_len VOLUME_SIZE [])
      [VWrite 65535 [1, 2], VErase 0 512, VRead 0 2]) = [Err NO_SPACE, Ok (Inr 512), Ok (Inl (replicate 2 0xFF))]"
proof -
  have "list_all op_in_range [VWrite 65535 [1, 2], VErase 0 512, VRead 0 2]"
    by (simp add: op_in_range_def VOLUME_SIZE_def VOLUME_BLOCK_SIZE_def)
  from disk_implements_ram [of "\<lparr>os_ok = True, os_count = id, os_all = id\<rparr>", OF _ _ _ length_set_len this]
  show ?thesis
    by (simp add: ram_op_def ram_write_def ram_erase_def ram_read_def VOLUME_SIZE_def)
qed

end
