(* ===== verification/Nitrokey_Store.thy ===== *)
theory Nitrokey_Store
  imports Card_Store Nitrokey_Storage
begin

text \<open>
  Where slot 1 keeps its data (\<open>src/nitrokey/storage.rs\<close>) and how its three volumes are opened
  (\<open>leak_fs\<close> and \<open>build_store\<close> of \<open>src/nitrokey/platform.rs\<close>). Formatting and mounting are
  littlefs, a parameter that works on the bytes of a volume.
\<close>

section \<open>The directory\<close>

definition slot1_dir :: "'k env \<Rightarrow> path" where
  "slot1_dir X =
     (case var_storage_dir X of
        Some p \<Rightarrow> path_join p ''slot-1''
      | None \<Rightarrow>
          (case home_dir X of
             Some home \<Rightarrow> path_join (path_join home ''.jcecard'') ''slot-1''
           | None \<Rightarrow> [''/'', ''var'', ''lib'', ''jcecard'', ''slot-1'']))"

text \<open>The result of setting the permissions is ignored by the code.\<close>

definition ensure_slot1_dir :: "'k env \<Rightarrow> files \<Rightarrow> path option" where
  "ensure_slot1_dir X fs = (if fs_create_dir X (slot1_dir X) fs then Some (slot1_dir X) else None)"

text \<open>The directory mirrors \<open>CardDataStore::get_slot_storage_dir(1)\<close>, as its comment says.\<close>

lemma slot1_dir_mirrors: "slot1_dir X = get_slot_storage_dir X 1"
proof -
  have "nat_digits 1 = ''1''" by code_simp
  then show ?thesis
    by (simp add: slot1_dir_def get_slot_storage_dir_def get_root_storage_dir_def path_join_def split: option.split)
qed

section \<open>Opening the volumes\<close>

record 'v littlefs =
  lfs_format :: "byte list \<Rightarrow> bool \<times> byte list"
  lfs_mount :: "byte list \<Rightarrow> 'v option"

definition leak_fs :: "'v littlefs \<Rightarrow> byte list \<Rightarrow> bool \<Rightarrow> 'v option \<times> byte list" where
  "leak_fs L bytes do_format =
     (let (ok, formatted) = (if do_format then lfs_format L bytes else (True, bytes)) in
      (if ok then lfs_mount L formatted else None, formatted))"

record 'v nk_store =
  ifs :: 'v
  efs :: 'v
  vfs :: 'v

text \<open>The image files of the directory; the volume in memory is never written to one.\<close>

type_synonym images = "path \<rightharpoonup> byte list"

definition ifs_image :: "path \<Rightarrow> path" where "ifs_image dir = path_join dir ''trussed-ifs.bin''"
definition efs_image :: "path \<Rightarrow> path" where "efs_image dir = path_join dir ''trussed-efs.bin''"

definition build_store ::
  "'k env \<Rightarrow> disk_os \<Rightarrow> 'v littlefs \<Rightarrow> files \<Rightarrow> images \<Rightarrow> 'v nk_store option \<times> images" where
  "build_store X Os L fs im =
     (case ensure_slot1_dir X fs of
        None \<Rightarrow> (None, im)
      | Some dir \<Rightarrow>
          (let ifs_path = ifs_image dir; efs_path = efs_image dir;
               ifs_new = (im ifs_path = None); efs_new = (im efs_path = None) in
           case disk_open Os (im ifs_path) of
             None \<Rightarrow> (None, im)
           | Some ifs_backing \<Rightarrow>
               (let im1 = im(ifs_path \<mapsto> ifs_backing) in
                case disk_open Os (im efs_path) of
                  None \<Rightarrow> (None, im1)
                | Some efs_backing \<Rightarrow>
                    (let (i, ifs_bytes) = leak_fs L ifs_backing ifs_new;
                         im2 = im1(efs_path \<mapsto> efs_backing, ifs_path \<mapsto> ifs_bytes) in
                     case i of
                       None \<Rightarrow> (None, im2)
                     | Some i \<Rightarrow>
                         (let (e, efs_bytes) = leak_fs L efs_backing efs_new;
                              im3 = im2(efs_path \<mapsto> efs_bytes) in
                          case e of
                            None \<Rightarrow> (None, im3)
                          | Some e \<Rightarrow>
                              (case fst (leak_fs L ram_new True) of
                                 None \<Rightarrow> (None, im3)
                               | Some v \<Rightarrow> (Some \<lparr>ifs = i, efs = e, vfs = v\<rparr>, im3)))))))"

lemma image_paths_differ [simp]: "ifs_image dir \<noteq> efs_image dir" "efs_image dir \<noteq> ifs_image dir"
  by (simp_all add: ifs_image_def efs_image_def path_join_def)

lemma disk_open_length: "disk_open Os img = Some f \<Longrightarrow> length f = VOLUME_SIZE"
  by (auto simp: disk_open_def split: if_splits option.splits)

lemma disk_open_keeps: "disk_open Os (Some f) = Some g \<Longrightarrow> length f = VOLUME_SIZE \<Longrightarrow> g = f"
  by (auto simp: disk_open_def split: if_splits)

text \<open>What a start of slot 1 finds on the disk it leaves there: no image is formatted again.\<close>

lemma existing_volumes_are_kept:
  assumes "ensure_slot1_dir X fs = Some dir"
    and "im (ifs_image dir) = Some a" "length a = VOLUME_SIZE"
    and "im (efs_image dir) = Some b" "length b = VOLUME_SIZE"
  shows "snd (build_store X Os L fs im) = im"
proof -
  have "im(ifs_image dir \<mapsto> a) = im" "im(efs_image dir \<mapsto> b) = im" using assms by auto
  then show ?thesis
    using assms
    by (auto simp: build_store_def leak_fs_def Let_def fun_upd_twist [of "ifs_image dir" "efs_image dir"]
        split: option.split dest!: disk_open_keeps)
qed

text \<open>
  A format that failed is final: its image exists from then on, so every later start mounts it
  unformatted, whatever has been repaired meanwhile.
\<close>

lemma failed_format_is_final:
  assumes "ensure_slot1_dir X fs = Some dir" "os_ok Os" "im (ifs_image dir) = None"
    and "lfs_format L (set_len VOLUME_SIZE []) = (False, g)" "length g = VOLUME_SIZE"
    and "ensure_slot1_dir Y fs' = Some dir" "lfs_mount M g = None"
  shows "fst (build_store X Os L fs im) = None \<and>
    fst (build_store Y Os' M fs' (snd (build_store X Os L fs im))) = None"
proof -
  have "disk_open Os (im (efs_image dir)) \<noteq> None" using assms(2) by (simp add: disk_open_def split: option.split)
  then obtain f where f: "disk_open Os (im (efs_image dir)) = Some f" by blast
  have n: "disk_open Os None = Some (set_len VOLUME_SIZE [])" using assms(2) by (simp add: disk_open_def)
  have r: "build_store X Os L fs im = (None, im(ifs_image dir \<mapsto> set_len VOLUME_SIZE [], efs_image dir \<mapsto> f, ifs_image dir \<mapsto> g))"
    using assms(1,3,4) f n by (simp add: build_store_def leak_fs_def Let_def)
  have "fst (build_store Y Os' M fs' (im(ifs_image dir \<mapsto> set_len VOLUME_SIZE [], efs_image dir \<mapsto> f, ifs_image dir \<mapsto> g))) = None"
    using assms(5-7) by (auto simp: build_store_def leak_fs_def Let_def split: option.split dest!: disk_open_keeps)
  with r show ?thesis by simp
qed

text \<open>The volume in memory is formatted at every start: nothing in it survives one.\<close>

lemma ram_volume_is_fresh:
  assumes "fst (build_store X Os L fs im) = Some s"
  shows "fst (leak_fs L ram_new True) = Some (vfs s)"
  using assms by (auto simp: build_store_def Let_def split: option.splits prod.splits)

end
