(* ===== verification/Nitrokey_Service.thy ===== *)
theory Nitrokey_Service
  imports Nitrokey_Card Nitrokey_Store
begin

text \<open>
  How the card of slot 1 starts and stops (\<open>src/nitrokey/card.rs\<close>): \<open>NitrokeyCard::new\<close> opens the
  store, builds the firmware's objects and spawns the service thread; the applets ping that thread
  through a channel; \<open>drop\<close> sends it a stop message and joins it. The firmware is the record
  \<open>firmware\<close>, the two threads run in any interleaving.
\<close>

section \<open>Constants and the runner\<close>

definition VIRTUAL_VERSION :: "nat \<times> nat \<times> nat" where "VIRTUAL_VERSION = (1, 8, 3)"
definition VIRTUAL_VERSION_STRING :: string where "VIRTUAL_VERSION_STRING = ''jcecard-nk3 1.8.3''"

definition VIRTUAL_UUID :: "byte list" where
  "VIRTUAL_UUID = [0x4E, 0x4B, 0x00, 0x01, 0xDE, 0xAD, 0xBE, 0xEF, 0x4A, 0x43, 0x45, 0x43, 0x41, 0x52, 0x44, 0x31]"

record runner =
  uuid :: "byte list"
  is_efs_available :: bool

definition DesktopRunner :: runner where
  "DesktopRunner = \<lparr>uuid = VIRTUAL_UUID, is_efs_available = True\<rparr>"

text \<open>The reboot hooks panic; a virtual card is never locked.\<close>

datatype reboot_hook = Reboot | RebootToFirmwareUpdate | RebootToFirmwareUpdateDestructive | Locked

definition no_reboot :: "reboot_hook \<Rightarrow> bool option" where
  "no_reboot h = (case h of Locked \<Rightarrow> Some False | _ \<Rightarrow> None)"

definition MAX_HW_KEY_LEN :: nat where "MAX_HW_KEY_LEN = 64"

text \<open>The first sixteen characters of a string of seventeen; \<open>None\<close> is the failure of \<open>expect\<close>.\<close>

definition hw_key :: "string option" where
  "hw_key = (let key = take 16 ''jcecard-nk3-hwkey'' in if length key \<le> MAX_HW_KEY_LEN then Some key else None)"

section \<open>The service thread\<close>

text \<open>
  Where the loop of the thread is: before \<open>try_recv\<close>, in \<open>recv_timeout\<close>, in \<open>process\<close>, or ended, by the
  stop message or by a panic of the firmware.
\<close>

datatype service_at = AtStop | AtSyscall | InProcess | Ended

datatype owner = Running | Joining | Dropped

record 's nk_threads =
  syscalls :: nat
  stops :: nat
  service_at :: service_at
  service :: 's
  owner :: owner

text \<open>
  One step of the service thread, \<open>process\<close> being the firmware's: \<open>None\<close> if it has ended.
  \<open>recv_timeout\<close> gives up after 25 ms without a message.
\<close>

definition service_step :: "('s \<Rightarrow> 's option) \<Rightarrow> 's nk_threads \<Rightarrow> 's nk_threads option" where
  "service_step process t =
     (case service_at t of
        AtStop \<Rightarrow>
          Some (if 0 < stops t then t\<lparr>stops := stops t - 1, service_at := Ended\<rparr> else t\<lparr>service_at := AtSyscall\<rparr>)
      | AtSyscall \<Rightarrow>
          Some (if 0 < syscalls t then t\<lparr>syscalls := syscalls t - 1, service_at := InProcess\<rparr>
            else t\<lparr>service_at := AtStop\<rparr>)
      | InProcess \<Rightarrow>
          Some (case process (service t) of
              Some s \<Rightarrow> t\<lparr>service := s, service_at := AtStop\<rparr>
            | None \<Rightarrow> t\<lparr>service_at := Ended\<rparr>)
      | Ended \<Rightarrow> None)"

text \<open>\<open>send\<close> fails when the thread that receives has ended; both senders ignore that.\<close>

definition syscall :: "'s nk_threads \<Rightarrow> 's nk_threads" where
  "syscall t = (if service_at t = Ended then t else t\<lparr>syscalls := syscalls t + 1\<rparr>)"

definition drop_send :: "'s nk_threads \<Rightarrow> 's nk_threads" where
  "drop_send t = (if service_at t = Ended then t else t\<lparr>stops := stops t + 1\<rparr>)\<lparr>owner := Joining\<rparr>"

text \<open>\<open>join\<close> returns once the thread has ended, however it has.\<close>

definition drop_join :: "'s nk_threads \<Rightarrow> 's nk_threads option" where
  "drop_join t = (if service_at t = Ended then Some (t\<lparr>owner := Dropped\<rparr>) else None)"

text \<open>A step of either thread: the owner of the card makes system calls until it drops the card.\<close>

inductive nk_step :: "('s \<Rightarrow> 's option) \<Rightarrow> 's nk_threads \<Rightarrow> 's nk_threads \<Rightarrow> bool"
  for process :: "'s \<Rightarrow> 's option" where
  serve: "service_step process t = Some u \<Longrightarrow> nk_step process t u"
| call: "owner t = Running \<Longrightarrow> nk_step process t (syscall t)"
| send: "owner t = Running \<Longrightarrow> nk_step process t (drop_send t)"
| join: "owner t = Joining \<Longrightarrow> drop_join t = Some u \<Longrightarrow> nk_step process t u"

code_pred (modes: i \<Rightarrow> i \<Rightarrow> o \<Rightarrow> bool) nk_step .

inductive_simps nk_step_iff: "nk_step process t u"

text \<open>The threads as \<open>new\<close> leaves them.\<close>

definition threads_new :: "'s \<Rightarrow> 's nk_threads" where
  "threads_new s = \<lparr>syscalls = 0, stops = 0, service_at = AtStop, service = s, owner = Running\<rparr>"

section \<open>\<open>NitrokeyCard::new\<close>\<close>

record 'v boot_data =
  bd_runner :: runner
  bd_store :: "'v nk_store"
  bd_version :: "nat \<times> nat \<times> nat"
  bd_version_string :: string
  bd_has_nfc :: bool
  bd_max_message_size :: nat

text \<open>
  The firmware: its platform on a store, its service with a hardware key, its applets with their
  dispatcher and interchange (\<open>None\<close> if they panic), and whether the operating system starts the
  thread. The channels of the interchange are new, so that splitting them succeeds.
\<close>

record ('v, 'p, 's, 'd) firmware =
  fw_platform :: "'v nk_store \<Rightarrow> 'p"
  fw_service :: "'p \<Rightarrow> string \<Rightarrow> 's"
  fw_apps :: "'v boot_data \<Rightarrow> 's \<Rightarrow> ('d \<times> 's) option"
  fw_spawn :: bool

text \<open>The outer option is a panic, the inner one the error of \<open>new\<close>.\<close>

definition nitrokey_boot ::
  "'k env \<Rightarrow> disk_os \<Rightarrow> 'v littlefs \<Rightarrow> ('v, 'p, 's, 'd) firmware \<Rightarrow> files \<Rightarrow> images \<Rightarrow>
     ('d \<times> 's nk_threads) option option \<times> images" where
  "nitrokey_boot X Os L F fs im =
     (case build_store X Os L fs im of
        (None, im1) \<Rightarrow> (Some None, im1)
      | (Some store, im1) \<Rightarrow>
          (case hw_key of
             None \<Rightarrow> (None, im1)
           | Some key \<Rightarrow>
               (let service = fw_service F (fw_platform F store) key;
                    data = \<lparr>bd_runner = DesktopRunner, bd_store = store, bd_version = VIRTUAL_VERSION,
                      bd_version_string = VIRTUAL_VERSION_STRING, bd_has_nfc = False, bd_max_message_size = 7609\<rparr> in
                case fw_apps F data service of
                  None \<Rightarrow> (None, im1)
                | Some (apps, service) \<Rightarrow>
                    (if fw_spawn F then Some (Some (apps, threads_new service)) else Some None, im1))))"

definition nitrokey_card_new ::
  "'k env \<Rightarrow> disk_os \<Rightarrow> 'v littlefs \<Rightarrow> ('v, 'p, 's, 'd) firmware \<Rightarrow> files \<Rightarrow> images \<Rightarrow>
     'd nitrokey_card option option" where
  "nitrokey_card_new X Os L F fs im =
     map_option (\<lambda>b. nitrokey_new (map_option fst b)) (fst (nitrokey_boot X Os L F fs im))"

section \<open>Stopping\<close>

lemma service_stepE:
  assumes "service_step process t = Some u"
  obtains (stop) "service_at t = AtStop" "0 < stops t" "u = t\<lparr>stops := stops t - 1, service_at := Ended\<rparr>"
  | (go) "service_at t = AtStop" "stops t = 0" "u = t\<lparr>service_at := AtSyscall\<rparr>"
  | (receive) "service_at t = AtSyscall" "0 < syscalls t" "u = t\<lparr>syscalls := syscalls t - 1, service_at := InProcess\<rparr>"
  | (idle) "service_at t = AtSyscall" "syscalls t = 0" "u = t\<lparr>service_at := AtStop\<rparr>"
  | (process) s where "service_at t = InProcess" "process (service t) = Some s" "u = t\<lparr>service := s, service_at := AtStop\<rparr>"
  | (panic) "service_at t = InProcess" "process (service t) = None" "u = t\<lparr>service_at := Ended\<rparr>"
  using assms by (auto simp: service_step_def split: service_at.splits if_splits option.splits)

text \<open>The stop message is there exactly while the owner waits for a thread that has not ended.\<close>

definition nk_inv :: "'s nk_threads \<Rightarrow> bool" where
  "nk_inv t \<longleftrightarrow>
     (case owner t of
        Running \<Rightarrow> stops t = 0
      | Joining \<Rightarrow> service_at t = Ended \<or> stops t = 1
      | Dropped \<Rightarrow> service_at t = Ended)"

lemma nk_inv_new [simp]: "nk_inv (threads_new s)"
  by (simp add: nk_inv_def threads_new_def)

lemma nk_inv_step:
  assumes "nk_step process t u" "nk_inv t"
  shows "nk_inv u"
  using assms
proof cases
  case serve
  then show ?thesis
    using assms(2) by (cases rule: service_stepE) (auto simp: nk_inv_def split: owner.splits)
qed (use assms(2) in \<open>auto simp: nk_inv_def syscall_def drop_send_def drop_join_def split: if_splits\<close>)

lemma nk_inv_reach: "(nk_step process)\<^sup>*\<^sup>* t u \<Longrightarrow> nk_inv t \<Longrightarrow> nk_inv u"
  by (induction rule: rtranclp_induct) (auto intro: nk_inv_step)

text \<open>How many steps the service thread can still make after a stop message, and \<open>drop\<close> with it.\<close>

definition service_left :: "'s nk_threads \<Rightarrow> nat" where
  "service_left t = (case service_at t of Ended \<Rightarrow> 0 | AtStop \<Rightarrow> 1 | InProcess \<Rightarrow> 2 | AtSyscall \<Rightarrow> 3)"

definition drop_left :: "'s nk_threads \<Rightarrow> nat" where
  "drop_left t = service_left t + (if owner t = Dropped then 0 else 1)"

lemma dropping_step:
  assumes "nk_step process t u" "nk_inv t" "owner t \<noteq> Running"
  shows "drop_left u < drop_left t \<and> owner u \<noteq> Running"
  using assms
proof cases
  case serve
  then show ?thesis
    using assms(2,3)
    by (cases rule: service_stepE) (auto simp: nk_inv_def drop_left_def service_left_def split: owner.splits)
qed (use assms(3) in \<open>auto simp: drop_join_def drop_left_def service_left_def split: if_splits\<close>)

lemma dropping_steps:
  assumes "(nk_step process ^^ n) t u" "nk_inv t" "owner t \<noteq> Running"
  shows "n + drop_left u \<le> drop_left t \<and> owner u \<noteq> Running \<and> nk_inv u"
  using assms(1)
proof (induction n arbitrary: u)
  case (Suc n)
  then obtain v where v: "(nk_step process ^^ n) t v" "nk_step process v u" by auto
  with Suc.IH [OF v(1)] dropping_step [OF v(2)] nk_inv_step [OF v(2)] show ?case by auto
qed (use assms in simp)

lemma never_stuck:
  assumes "nk_inv t" "owner t = Joining"
  shows "\<exists>u. nk_step process t u"
proof (cases "service_at t = Ended")
  case True
  with assms show ?thesis by (auto simp: nk_step_iff drop_join_def)
next
  case False
  then have "\<exists>u. service_step process t = Some u" by (auto simp: service_step_def split: service_at.split)
  then show ?thesis by (auto simp: nk_step_iff)
qed

lemma dropping_ends:
  assumes "nk_inv t" "owner t \<noteq> Running"
  shows "\<exists>n u. (nk_step process ^^ n) t u \<and> owner u = Dropped"
  using assms
proof (induction "drop_left t" arbitrary: t rule: less_induct)
  case less
  show ?case
  proof (cases "owner t = Dropped")
    case True
    then show ?thesis by (intro exI [of _ 0] exI [of _ t]) simp
  next
    case False
    with less.prems have "owner t = Joining" by (cases "owner t") simp_all
    with less.prems obtain v where v: "nk_step process t v" using never_stuck by blast
    with less.prems have "drop_left v < drop_left t \<and> owner v \<noteq> Running" "nk_inv v"
      by (simp_all add: dropping_step nk_inv_step [OF v])
    then obtain n u where "(nk_step process ^^ n) v u" "owner u = Dropped" using less.hyps by blast
    with relpowp_Suc_I2 [OF v this(1)] show ?thesis by blast
  qed
qed

text \<open>The stop message overtakes waiting calls: at most one more is served.\<close>

definition one_more :: "('s \<Rightarrow> 's option) \<Rightarrow> 's nk_threads \<Rightarrow> 's nk_threads \<Rightarrow> bool" where
  "one_more process t u \<longleftrightarrow>
     service u = service t \<or> service_at u \<in> {AtStop, Ended} \<and> process (service t) = Some (service u)"

lemma one_more_step:
  assumes "nk_step process u v" "one_more process t u" "nk_inv u" "owner u \<noteq> Running"
  shows "one_more process t v"
  using assms
proof cases
  case serve
  then show ?thesis
    using assms(2-4) by (cases rule: service_stepE) (auto simp: one_more_def nk_inv_def split: owner.splits)
qed (use assms(2,4) in \<open>auto simp: one_more_def drop_join_def split: if_splits\<close>)

lemma one_more_steps:
  assumes "(nk_step process ^^ n) t u" "nk_inv t" "owner t \<noteq> Running"
  shows "one_more process t u"
  using assms(1)
proof (induction n arbitrary: u)
  case (Suc n)
  then obtain v where v: "(nk_step process ^^ n) t v" "nk_step process v u" by auto
  with Suc.IH dropping_steps [OF v(1) assms(2,3)] show ?case by (blast intro: one_more_step)
qed (simp add: one_more_def)

section \<open>Serving\<close>

fun service_run :: "('s \<Rightarrow> 's option) \<Rightarrow> nat \<Rightarrow> 's nk_threads \<Rightarrow> 's nk_threads option" where
  "service_run process 0 t = Some t"
| "service_run process (Suc n) t = Option.bind (service_step process t) (service_run process n)"

fun process_all :: "('s \<Rightarrow> 's option) \<Rightarrow> nat \<Rightarrow> 's \<Rightarrow> 's option" where
  "process_all process 0 s = Some s"
| "process_all process (Suc n) s = Option.bind (process s) (process_all process n)"

text \<open>Calls that were sent and not yet served.\<close>

definition waiting :: "'s nk_threads \<Rightarrow> nat" where
  "waiting t = syscalls t + (if service_at t = InProcess then 1 else 0)"

definition idle :: "'s nk_threads \<Rightarrow> 's \<Rightarrow> 's nk_threads" where
  "idle t s = t\<lparr>syscalls := 0, service := s, service_at := AtStop\<rparr>"

lemma service_run_add:
  "service_run process m t = Some u \<Longrightarrow> service_run process (m + n) t = service_run process n u"
  by (induction m arbitrary: t) (auto split: Option.bind_splits)

lemma serve_from_stop:
  assumes "service_at t = AtStop" "stops t = 0" "process_all process (syscalls t) (service t) = Some s"
  shows "service_run process (3 * syscalls t) t = Some (idle t s)"
  using assms
proof (induction "syscalls t" arbitrary: t)
  case (Suc n)
  then obtain s1 where s1: "process (service t) = Some s1" "process_all process n s1 = Some s"
    by (auto simp: Option.bind_eq_Some_conv Suc.hyps(2) [symmetric])
  define u where "u = t\<lparr>syscalls := n, service := s1\<rparr>"
  have "service_run process 3 t = Some u"
    using Suc.prems(1,2) s1(1) by (simp add: numeral_3_eq_3 service_step_def u_def flip: Suc.hyps(2))
  then have "service_run process (3 + 3 * n) t = service_run process (3 * n) u" by (rule service_run_add)
  moreover have "service_run process (3 * n) u = Some (idle u s)"
    using Suc.hyps(1) [of u] Suc.prems s1(2) by (simp add: u_def)
  ultimately show ?case by (simp add: idle_def u_def flip: Suc.hyps(2))
qed (simp add: idle_def)

lemma serve_waiting:
  assumes "service_at t \<noteq> Ended" "stops t = 0" "process_all process (waiting t) (service t) = Some s"
  shows "\<exists>n \<le> 3 * waiting t + 1. service_run process n t = Some (idle t s)"
proof (cases "service_at t")
  case AtStop
  then show ?thesis
    using serve_from_stop [of t process s] assms by (intro exI [of _ "3 * syscalls t"]) (simp add: waiting_def)
next
  case AtSyscall
  show ?thesis
  proof (cases "syscalls t")
    case 0
    with AtSyscall assms(3) have "service_run process 1 t = Some (idle t s)"
      by (simp add: waiting_def service_step_def idle_def)
    then show ?thesis by (intro exI [of _ 1]) simp
  next
    case (Suc n)
    with AtSyscall assms(3) obtain s1 where s1: "process (service t) = Some s1" "process_all process n s1 = Some s"
      by (auto simp: waiting_def Option.bind_eq_Some_conv)
    define u where "u = t\<lparr>syscalls := n, service := s1, service_at := AtStop\<rparr>"
    have "service_run process 2 t = Some u"
      using AtSyscall Suc s1(1) by (simp add: numeral_2_eq_2 service_step_def u_def)
    then have "service_run process (2 + 3 * n) t = service_run process (3 * n) u" by (rule service_run_add)
    also have "\<dots> = Some (idle t s)"
      using serve_from_stop [of u process s] assms(2) s1(2) by (simp add: u_def idle_def)
    finally show ?thesis using AtSyscall Suc by (intro exI [of _ "2 + 3 * n"]) (simp add: waiting_def)
  qed
next
  case InProcess
  with assms(3) obtain s1 where s1: "process (service t) = Some s1" "process_all process (syscalls t) s1 = Some s"
    by (auto simp: waiting_def Option.bind_eq_Some_conv)
  define u where "u = t\<lparr>service := s1, service_at := AtStop\<rparr>"
  have "service_run process 1 t = Some u"
    using InProcess s1(1) by (simp add: service_step_def u_def)
  then have "service_run process (1 + 3 * syscalls t) t = service_run process (3 * syscalls t) u" by (rule service_run_add)
  also have "\<dots> = Some (idle t s)"
    using serve_from_stop [of u process s] assms(2) s1(2) by (simp add: u_def idle_def)
  finally show ?thesis using InProcess by (intro exI [of _ "1 + 3 * syscalls t"]) (simp add: waiting_def)
qed (use assms in simp)

text \<open>After a panic of the firmware the thread is gone for good: calls change nothing any more.\<close>

lemma ended_for_good:
  assumes "(nk_step process)\<^sup>*\<^sup>* t u" "service_at t = Ended"
  shows "service_at u = Ended \<and> service u = service t \<and> syscalls u = syscalls t"
  using assms
  by (induction rule: rtranclp_induct)
    (auto simp: nk_step_iff service_step_def syscall_def drop_send_def drop_join_def)

section \<open>Starting\<close>

text \<open>The key of the firmware is the same at every start, and fits; one letter of its name is cut off.\<close>

lemma hw_key_fits: "hw_key = Some ''jcecard-nk3-hwke''"
  by (simp add: hw_key_def MAX_HW_KEY_LEN_def)

lemma boot_cases:
  "nitrokey_boot X Os L F fs im =
     (case build_store X Os L fs im of
        (None, im1) \<Rightarrow> (Some None, im1)
      | (Some store, im1) \<Rightarrow>
          (map_option (\<lambda>(apps, service). if fw_spawn F then Some (apps, threads_new service) else None)
             (fw_apps F \<lparr>bd_runner = DesktopRunner, bd_store = store, bd_version = (1, 8, 3),
                bd_version_string = ''jcecard-nk3 1.8.3'', bd_has_nfc = False, bd_max_message_size = 7609\<rparr>
                (fw_service F (fw_platform F store) ''jcecard-nk3-hwke'')), im1))"
  by (auto simp: nitrokey_boot_def hw_key_fits VIRTUAL_VERSION_def VIRTUAL_VERSION_STRING_def Let_def
      split: option.split prod.split)

text \<open>The start panics only with the firmware, and fails just when the store or the thread does.\<close>

lemma nitrokey_card_starts:
  assumes "\<forall>data service. fw_apps F data service \<noteq> None"
  shows "\<exists>c. nitrokey_card_new X Os L F fs im = Some c \<and>
     (c \<noteq> None \<longleftrightarrow> fst (build_store X Os L fs im) \<noteq> None \<and> fw_spawn F)"
proof -
  define f where "f data service = the (fw_apps F data service)" for data service
  have "fw_apps F = (\<lambda>data service. Some (f data service))"
    using assms by (intro ext) (auto simp: f_def)
  then show ?thesis
    by (cases "build_store X Os L fs im")
      (auto simp: nitrokey_card_new_def boot_cases nitrokey_new_def split_beta split: option.split)
qed

text \<open>Starting twice on intact volumes mounts the same bytes and keys the firmware alike.\<close>

lemma restart_is_repeatable:
  assumes "ensure_slot1_dir X fs = Some dir"
    and "im (ifs_image dir) = Some a" "length a = VOLUME_SIZE"
    and "im (efs_image dir) = Some b" "length b = VOLUME_SIZE"
  shows "nitrokey_boot X Os L F fs (snd (nitrokey_boot X Os L F fs im)) = nitrokey_boot X Os L F fs im"
proof -
  have "snd (nitrokey_boot X Os L F fs im) = snd (build_store X Os L fs im)"
    by (simp add: boot_cases Let_def split: option.split prod.split)
  with existing_volumes_are_kept [OF assms, of Os L] show ?thesis by simp
qed

section \<open>Properties\<close>

text \<open>
  C33: \<open>drop\<close> returns: from the moment the stop message is sent, whatever the threads did before, every
  run ends within four steps, it ends with the card dropped, and it serves at most one more call, the
  calls still waiting being lost. Each step here is a call that returns, \<open>process\<close> included.
\<close>

theorem drop_returns:
  assumes "(nk_step process)\<^sup>*\<^sup>* (threads_new s) t" "owner t = Joining"
  shows "(\<exists>n u. (nk_step process ^^ n) t u \<and> owner u = Dropped) \<and>
    (\<forall>n u. (nk_step process ^^ n) t u \<longrightarrow>
       n \<le> 4 \<and> (service u = service t \<or> process (service t) = Some (service u)) \<and>
       (owner u = Dropped \<or> (\<exists>v. nk_step process u v)))"
proof -
  have inv: "nk_inv t" "owner t \<noteq> Running" using assms nk_inv_reach nk_inv_new by fastforce+
  have "n \<le> 4 \<and> (service u = service t \<or> process (service t) = Some (service u)) \<and>
      (owner u = Dropped \<or> (\<exists>v. nk_step process u v))" if run: "(nk_step process ^^ n) t u" for n u
  proof -
    have "drop_left t \<le> 4" by (simp add: drop_left_def service_left_def split: service_at.split)
    with dropping_steps [OF run inv] one_more_steps [OF run inv] never_stuck [of u process]
    show ?thesis by (cases "owner u") (auto simp: one_more_def)
  qed
  with dropping_ends [OF inv] show ?thesis by blast
qed

text \<open>One call is waiting when the card is dropped.\<close>

definition demo_threads :: "nat nk_threads" where
  "demo_threads = \<lparr>syscalls = 1, stops = 1, service_at = AtSyscall, service = 7, owner = Joining\<rparr>"

lemma demo_threads_reach: "(nk_step (\<lambda>s. Some (Suc s)))\<^sup>*\<^sup>* (threads_new 7) demo_threads"
proof -
  let ?t = "threads_new 7\<lparr>service_at := AtSyscall\<rparr>"
  have go: "nk_step (\<lambda>s. Some (Suc s)) (threads_new 7) ?t"
    by (rule serve) (simp add: service_step_def threads_new_def)
  have called: "nk_step (\<lambda>s. Some (Suc s)) ?t (syscall ?t)" by (rule call) (simp add: threads_new_def)
  have sent: "nk_step (\<lambda>s. Some (Suc s)) (syscall ?t) (drop_send (syscall ?t))"
    by (rule send) (simp add: threads_new_def syscall_def)
  have demo: "demo_threads = drop_send (syscall ?t)"
    by (simp add: drop_send_def syscall_def threads_new_def demo_threads_def)
  show ?thesis
    unfolding demo
    by (rule rtranclp.rtrancl_into_rtrancl, rule rtranclp.rtrancl_into_rtrancl, rule r_into_rtranclp,
        rule go, rule called, rule sent)
qed

theorem drop_returns_witness:
  "(\<exists>n u. (nk_step (\<lambda>s. Some (Suc s)) ^^ n) demo_threads u \<and> owner u = Dropped) \<and>
   {(n, service u) | n u. (nk_step (\<lambda>s. Some (Suc s)) ^^ n) demo_threads u} \<subseteq> {..4} \<times> {7, 8}"
proof -
  have "owner demo_threads = Joining" "service demo_threads = 7" by (simp_all add: demo_threads_def)
  with drop_returns [OF demo_threads_reach] show ?thesis by auto
qed

text \<open>
  C34: while the card is in use the service thread, left to itself, serves every call that was sent, in
  at most three steps for each: it ends up waiting with no call left and its state is that of the
  firmware after as many calls.
\<close>

theorem calls_are_served:
  assumes "(nk_step process)\<^sup>*\<^sup>* (threads_new s0) t" "owner t = Running" "service_at t \<noteq> Ended"
    and "process_all process (waiting t) (service t) = Some s"
  shows "\<exists>n \<le> 3 * waiting t + 1. service_run process n t = Some (idle t s)"
proof -
  have "nk_inv t" using nk_inv_reach [OF assms(1) nk_inv_new] .
  with assms(2) have "stops t = 0" by (simp add: nk_inv_def)
  from serve_waiting [OF assms(3) this assms(4)] show ?thesis .
qed

theorem calls_are_served_witness:
  "let t = syscall (syscall (threads_new (7 :: nat))) in
   \<exists>n \<le> 7. service_run (\<lambda>s. Some (Suc s)) n t = Some (idle t 9)"
proof -
  let ?t = "syscall (syscall (threads_new (7 :: nat)))"
  have "nk_step (\<lambda>s. Some (Suc s)) (threads_new 7) (syscall (threads_new 7))"
    "nk_step (\<lambda>s. Some (Suc s)) (syscall (threads_new 7)) ?t"
    by (rule call; simp add: threads_new_def syscall_def)+
  then have "(nk_step (\<lambda>s. Some (Suc s)))\<^sup>*\<^sup>* (threads_new 7) ?t"
    by (rule converse_rtranclp_into_rtranclp [OF _ r_into_rtranclp])
  moreover have "owner ?t = Running" "service_at ?t \<noteq> Ended" "waiting ?t = 2" "service ?t = 7"
    by (simp_all add: syscall_def threads_new_def waiting_def)
  moreover have "process_all (\<lambda>s. Some (Suc s)) 2 7 = Some (9 :: nat)" by (simp add: numeral_2_eq_2)
  ultimately show ?thesis
    using calls_are_served [of "\<lambda>s. Some (Suc s)" 7 ?t 9] by (simp add: Let_def)
qed

end
