(* ===== verification/State_Format.thy ===== *)
theory State_Format
  imports Card_Store "HOL-Library.Monad_Syntax" "HOL-Library.Multiset"
begin

text \<open>
  The format of the state file (\<open>src/card/state.rs\<close>): the JSON value that serde's derived code makes
  of each struct and reads back, with the module \<open>base64_bytes\<close> for its byte vectors. The texts of
  JSON values and of Base64 are crates, the record \<open>text_crates\<close>; an environment whose JSON fields
  are this format satisfies \<open>json_laws\<close>.
\<close>

section \<open>JSON values\<close>

text \<open>A string is its UTF-8 bytes; numbers with a fraction or exponent are never read as integers.\<close>

datatype json = JNull | JBool bool | JInt int | JFloat string | JStr "byte list"
  | JList "json list" | JObj "(string \<times> json) list"

record text_crates =
  b64_encode :: "byte list \<Rightarrow> byte list"
  b64_decode :: "byte list \<Rightarrow> byte list option"
  json_print :: "json \<Rightarrow> string option"
  json_parse :: "string \<Rightarrow> json option"

definition text_laws :: "text_crates \<Rightarrow> bool" where
  "text_laws C \<longleftrightarrow>
     (\<forall>b. b64_decode C (b64_encode C b) = Some b) \<and> b64_encode C [] = [] \<and>
     (\<forall>v t. json_print C v = Some t \<longrightarrow> json_parse C t = Some v)"

definition base64_serialize :: "text_crates \<Rightarrow> byte list \<Rightarrow> json" where
  "base64_serialize C bytes = JStr (if bytes = [] then [] else b64_encode C bytes)"

definition base64_deserialize :: "text_crates \<Rightarrow> json \<Rightarrow> byte list option" where
  "base64_deserialize C v =
     (case v of JStr s \<Rightarrow> if s = [] then Some [] else b64_decode C s | _ \<Rightarrow> None)"

definition int_value :: "'a::len word \<Rightarrow> json" where
  "int_value n = JInt (uint n)"

definition int_of_value :: "json \<Rightarrow> 'a::len word option" where
  "int_of_value v =
     (case v of JInt i \<Rightarrow> if 0 \<le> i \<and> i < 2 ^ LENGTH('a) then Some (word_of_int i) else None | _ \<Rightarrow> None)"

definition bool_of_value :: "json \<Rightarrow> bool option" where
  "bool_of_value v = (case v of JBool b \<Rightarrow> Some b | _ \<Rightarrow> None)"

definition string_of_value :: "json \<Rightarrow> byte list option" where
  "string_of_value v = (case v of JStr s \<Rightarrow> Some s | _ \<Rightarrow> None)"

text \<open>
  The derived code for a struct accepts an object, whose unknown fields it skips and whose fields may
  not be given twice, or a list with the fields in the order of the struct.
\<close>

definition struct_fields :: "string list \<Rightarrow> json \<Rightarrow> (string \<rightharpoonup> json) option" where
  "struct_fields names v =
     (case v of
        JObj kvs \<Rightarrow>
          (let known = filter (\<lambda>kv. fst kv \<in> set names) kvs in
           if distinct (map fst known) then Some (map_of known) else None)
      | JList vs \<Rightarrow> if length vs \<le> length names then Some (map_of (zip names vs)) else None
      | _ \<Rightarrow> None)"

text \<open>A field without a default has to be there.\<close>

definition field :: "(string \<rightharpoonup> json) \<Rightarrow> (json \<Rightarrow> 'b option) \<Rightarrow> string \<Rightarrow> 'b option" where
  "field f rd k = Option.bind (f k) rd"

definition field_or :: "'b \<Rightarrow> (string \<rightharpoonup> json) \<Rightarrow> (json \<Rightarrow> 'b option) \<Rightarrow> string \<Rightarrow> 'b option" where
  "field_or dflt f rd k = (case f k of None \<Rightarrow> Some dflt | Some v \<Rightarrow> rd v)"

section \<open>The structs\<close>

definition attrs_names :: "string list" where
  "attrs_names =
     [''algorithm_id'', ''param1'', ''param2'', ''param3'', ''curve_oid'']"

definition attrs_value :: "text_crates \<Rightarrow> algorithm_attributes \<Rightarrow> json" where
  "attrs_value C a = JObj
     [(''algorithm_id'', int_value (algorithm_id a)), (''param1'', int_value (param1 a)),
      (''param2'', int_value (param2 a)), (''param3'', int_value (param3 a)),
      (''curve_oid'', base64_serialize C (curve_oid a))]"

definition attrs_of_value :: "text_crates \<Rightarrow> json \<Rightarrow> algorithm_attributes option" where
  "attrs_of_value C v = do {
     f \<leftarrow> struct_fields attrs_names v;
     algorithm_id' \<leftarrow> field f int_of_value ''algorithm_id'';
     param1' \<leftarrow> field f int_of_value ''param1'';
     param2' \<leftarrow> field f int_of_value ''param2'';
     param3' \<leftarrow> field f int_of_value ''param3'';
     curve_oid' \<leftarrow> field f (base64_deserialize C) ''curve_oid'';
     Some \<lparr>algorithm_id = algorithm_id', param1 = param1', param2 = param2', param3 = param3',
            curve_oid = curve_oid'\<rparr>
   }"

definition key_slot_names :: "string list" where
  "key_slot_names =
     [''fingerprint'', ''generation_time'', ''ca_fingerprint'', ''algorithm'', ''uif'',
      ''private_key_data'', ''public_key_data'']"

definition key_slot_value :: "text_crates \<Rightarrow> key_slot \<Rightarrow> json" where
  "key_slot_value C k = JObj
     [(''fingerprint'', base64_serialize C (fingerprint k)),
      (''generation_time'', int_value (generation_time k)),
      (''ca_fingerprint'', base64_serialize C (ca_fingerprint k)),
      (''algorithm'', attrs_value C (algorithm k)), (''uif'', int_value (uif k)),
      (''private_key_data'', base64_serialize C (private_key_data k)),
      (''public_key_data'', base64_serialize C (public_key_data k))]"

definition key_slot_of_value :: "text_crates \<Rightarrow> json \<Rightarrow> key_slot option" where
  "key_slot_of_value C v = do {
     f \<leftarrow> struct_fields key_slot_names v;
     fingerprint' \<leftarrow> field f (base64_deserialize C) ''fingerprint'';
     generation_time' \<leftarrow> field f int_of_value ''generation_time'';
     ca_fingerprint' \<leftarrow> field f (base64_deserialize C) ''ca_fingerprint'';
     algorithm' \<leftarrow> field f (attrs_of_value C) ''algorithm'';
     uif' \<leftarrow> field f int_of_value ''uif'';
     private_key_data' \<leftarrow> field f (base64_deserialize C) ''private_key_data'';
     public_key_data' \<leftarrow> field f (base64_deserialize C) ''public_key_data'';
     Some \<lparr>fingerprint = fingerprint', generation_time = generation_time',
            ca_fingerprint = ca_fingerprint', algorithm = algorithm', uif = uif',
            private_key_data = private_key_data', public_key_data = public_key_data'\<rparr>
   }"

definition pin_data_names :: "string list" where
  "pin_data_names =
     [''pw1_hash'', ''pw1_length'', ''pw1_min_length'', ''pw1_max_length'', ''pw1_retry_counter'',
      ''pw1_max_retries'', ''pw1_valid_multiple'', ''pw3_hash'', ''pw3_length'', ''pw3_min_length'',
      ''pw3_max_length'', ''pw3_retry_counter'', ''pw3_max_retries'', ''rc_hash'', ''rc_length'',
      ''rc_min_length'', ''rc_max_length'', ''rc_retry_counter'', ''rc_max_retries'']"

definition pin_data_value :: "text_crates \<Rightarrow> pin_data \<Rightarrow> json" where
  "pin_data_value C p = JObj
     [(''pw1_hash'', base64_serialize C (pw1_hash p)), (''pw1_length'', int_value (pw1_length p)),
      (''pw1_min_length'', int_value (pw1_min_length p)),
      (''pw1_max_length'', int_value (pw1_max_length p)),
      (''pw1_retry_counter'', int_value (pw1_retry_counter p)),
      (''pw1_max_retries'', int_value (pw1_max_retries p)),
      (''pw1_valid_multiple'', JBool (pw1_valid_multiple p)),
      (''pw3_hash'', base64_serialize C (pw3_hash p)), (''pw3_length'', int_value (pw3_length p)),
      (''pw3_min_length'', int_value (pw3_min_length p)),
      (''pw3_max_length'', int_value (pw3_max_length p)),
      (''pw3_retry_counter'', int_value (pw3_retry_counter p)),
      (''pw3_max_retries'', int_value (pw3_max_retries p)),
      (''rc_hash'', base64_serialize C (rc_hash p)), (''rc_length'', int_value (rc_length p)),
      (''rc_min_length'', int_value (rc_min_length p)),
      (''rc_max_length'', int_value (rc_max_length p)),
      (''rc_retry_counter'', int_value (rc_retry_counter p)),
      (''rc_max_retries'', int_value (rc_max_retries p))]"

definition pin_data_of_value :: "text_crates \<Rightarrow> json \<Rightarrow> pin_data option" where
  "pin_data_of_value C v = do {
     f \<leftarrow> struct_fields pin_data_names v;
     pw1_hash' \<leftarrow> field f (base64_deserialize C) ''pw1_hash'';
     pw1_length' \<leftarrow> field f int_of_value ''pw1_length'';
     pw1_min_length' \<leftarrow> field f int_of_value ''pw1_min_length'';
     pw1_max_length' \<leftarrow> field f int_of_value ''pw1_max_length'';
     pw1_retry_counter' \<leftarrow> field f int_of_value ''pw1_retry_counter'';
     pw1_max_retries' \<leftarrow> field f int_of_value ''pw1_max_retries'';
     pw1_valid_multiple' \<leftarrow> field f bool_of_value ''pw1_valid_multiple'';
     pw3_hash' \<leftarrow> field f (base64_deserialize C) ''pw3_hash'';
     pw3_length' \<leftarrow> field f int_of_value ''pw3_length'';
     pw3_min_length' \<leftarrow> field f int_of_value ''pw3_min_length'';
     pw3_max_length' \<leftarrow> field f int_of_value ''pw3_max_length'';
     pw3_retry_counter' \<leftarrow> field f int_of_value ''pw3_retry_counter'';
     pw3_max_retries' \<leftarrow> field f int_of_value ''pw3_max_retries'';
     rc_hash' \<leftarrow> field f (base64_deserialize C) ''rc_hash'';
     rc_length' \<leftarrow> field f int_of_value ''rc_length'';
     rc_min_length' \<leftarrow> field f int_of_value ''rc_min_length'';
     rc_max_length' \<leftarrow> field f int_of_value ''rc_max_length'';
     rc_retry_counter' \<leftarrow> field f int_of_value ''rc_retry_counter'';
     rc_max_retries' \<leftarrow> field f int_of_value ''rc_max_retries'';
     Some \<lparr>pw1_hash = pw1_hash', pw1_length = pw1_length', pw1_min_length = pw1_min_length',
            pw1_max_length = pw1_max_length', pw1_retry_counter = pw1_retry_counter',
            pw1_max_retries = pw1_max_retries', pw1_valid_multiple = pw1_valid_multiple',
            pw3_hash = pw3_hash', pw3_length = pw3_length', pw3_min_length = pw3_min_length',
            pw3_max_length = pw3_max_length', pw3_retry_counter = pw3_retry_counter',
            pw3_max_retries = pw3_max_retries', rc_hash = rc_hash', rc_length = rc_length',
            rc_min_length = rc_min_length', rc_max_length = rc_max_length',
            rc_retry_counter = rc_retry_counter', rc_max_retries = rc_max_retries'\<rparr>
   }"

definition default_language :: "byte list" where
  "default_language = [0x65, 0x6E]"

definition cardholder_names :: "string list" where
  "cardholder_names =
     [''name'', ''language'', ''sex'', ''login'', ''url'']"

definition cardholder_value :: "cardholder_data \<Rightarrow> json" where
  "cardholder_value h = JObj
     [(''name'', JStr (ch_name h)), (''language'', JStr (ch_language h)),
      (''sex'', int_value (ch_sex h)), (''login'', JStr (ch_login h)), (''url'', JStr (ch_url h))]"

definition cardholder_of_value :: "json \<Rightarrow> cardholder_data option" where
  "cardholder_of_value v = do {
     f \<leftarrow> struct_fields cardholder_names v;
     name' \<leftarrow> field f string_of_value ''name'';
     language' \<leftarrow> field_or default_language f string_of_value ''language'';
     sex' \<leftarrow> field f int_of_value ''sex'';
     login' \<leftarrow> field f string_of_value ''login'';
     url' \<leftarrow> field f string_of_value ''url'';
     Some \<lparr>ch_name = name', ch_language = language', ch_sex = sex', ch_login = login', ch_url = url'\<rparr>
   }"

definition state_names :: "string list" where
  "state_names =
     [''manufacturer_id'', ''serial_number'', ''version_major'', ''version_minor'', ''pin_data'',
      ''cardholder'', ''key_sig'', ''key_dec'', ''key_aut'', ''signature_counter'', ''private_do_1'',
      ''private_do_2'', ''private_do_3'', ''private_do_4'', ''certificate'', ''terminated'']"

definition state_value :: "text_crates \<Rightarrow> card_state \<Rightarrow> json" where
  "state_value C s = JObj
     [(''manufacturer_id'', int_value (manufacturer_id s)),
      (''serial_number'', int_value (serial_number s)),
      (''version_major'', int_value (version_major s)),
      (''version_minor'', int_value (version_minor s)), (''pin_data'', pin_data_value C (pin_data s)),
      (''cardholder'', cardholder_value (cardholder s)), (''key_sig'', key_slot_value C (key_sig s)),
      (''key_dec'', key_slot_value C (key_dec s)), (''key_aut'', key_slot_value C (key_aut s)),
      (''signature_counter'', int_value (signature_counter s)),
      (''private_do_1'', base64_serialize C (private_do_1 s)),
      (''private_do_2'', base64_serialize C (private_do_2 s)),
      (''private_do_3'', base64_serialize C (private_do_3 s)),
      (''private_do_4'', base64_serialize C (private_do_4 s)),
      (''certificate'', base64_serialize C (certificate s)), (''terminated'', JBool (terminated s))]"

definition state_of_value :: "text_crates \<Rightarrow> json \<Rightarrow> card_state option" where
  "state_of_value C v = do {
     f \<leftarrow> struct_fields state_names v;
     manufacturer_id' \<leftarrow> field f int_of_value ''manufacturer_id'';
     serial_number' \<leftarrow> field f int_of_value ''serial_number'';
     version_major' \<leftarrow> field f int_of_value ''version_major'';
     version_minor' \<leftarrow> field f int_of_value ''version_minor'';
     pin_data' \<leftarrow> field f (pin_data_of_value C) ''pin_data'';
     cardholder' \<leftarrow> field f cardholder_of_value ''cardholder'';
     key_sig' \<leftarrow> field f (key_slot_of_value C) ''key_sig'';
     key_dec' \<leftarrow> field f (key_slot_of_value C) ''key_dec'';
     key_aut' \<leftarrow> field f (key_slot_of_value C) ''key_aut'';
     signature_counter' \<leftarrow> field f int_of_value ''signature_counter'';
     private_do_1' \<leftarrow> field f (base64_deserialize C) ''private_do_1'';
     private_do_2' \<leftarrow> field f (base64_deserialize C) ''private_do_2'';
     private_do_3' \<leftarrow> field f (base64_deserialize C) ''private_do_3'';
     private_do_4' \<leftarrow> field f (base64_deserialize C) ''private_do_4'';
     certificate' \<leftarrow> field f (base64_deserialize C) ''certificate'';
     terminated' \<leftarrow> field f bool_of_value ''terminated'';
     Some \<lparr>manufacturer_id = manufacturer_id', serial_number = serial_number',
            version_major = version_major', version_minor = version_minor', pin_data = pin_data',
            cardholder = cardholder', key_sig = key_sig', key_dec = key_dec', key_aut = key_aut',
            signature_counter = signature_counter', private_do_1 = private_do_1',
            private_do_2 = private_do_2', private_do_3 = private_do_3', private_do_4 = private_do_4',
            certificate = certificate', terminated = terminated'\<rparr>
   }"

text \<open>What the environment has for the state file: \<open>to_string_pretty\<close> and \<open>from_str\<close>.\<close>

definition serde_to_json :: "text_crates \<Rightarrow> card_state \<Rightarrow> string option" where
  "serde_to_json C s = json_print C (state_value C s)"

definition serde_from_json :: "text_crates \<Rightarrow> string \<Rightarrow> card_state option" where
  "serde_from_json C j = Option.bind (json_parse C j) (state_of_value C)"

definition serde_env :: "text_crates \<Rightarrow> 'k env \<Rightarrow> bool" where
  "serde_env C X \<longleftrightarrow> to_json X = serde_to_json C \<and> from_json X = serde_from_json C"

section \<open>Reading what was written\<close>

lemma int_round [simp]: "int_of_value (int_value n) = Some n"
  by (simp add: int_of_value_def int_value_def uint_lt2p)

lemma base64_round [simp]: "text_laws C \<Longrightarrow> base64_deserialize C (base64_serialize C b) = Some b"
proof -
  assume C: "text_laws C"
  then have "b64_decode C (b64_encode C b) = Some b" "b64_decode C [] = Some []"
    unfolding text_laws_def by metis+
  then show ?thesis by (auto simp: base64_deserialize_def base64_serialize_def)
qed

text \<open>The contract of a value and its JSON form, which every type of the file keeps.\<close>

locale json_codec =
  fixes wr :: "'a \<Rightarrow> json"
    and rd :: "json \<Rightarrow> 'a option"
    and good :: bool
  assumes round: "good \<Longrightarrow> rd (wr x) = Some x"
begin

lemma wr_inj: "good \<Longrightarrow> wr x = wr y \<longleftrightarrow> x = y"
  by (metis round option.inject)

text \<open>A field that was written is read, with or without a default.\<close>

lemma written_field: "good \<Longrightarrow> f k = Some (wr x) \<Longrightarrow> field f rd k = Some x"
  "good \<Longrightarrow> f k = Some (wr x) \<Longrightarrow> field_or dflt f rd k = Some x"
  by (simp_all add: field_def field_or_def round)

end

interpretation int_codec: json_codec int_value int_of_value True
  by unfold_locales simp

interpretation base64_codec: json_codec "base64_serialize C" "base64_deserialize C" "text_laws C" for C
  by unfold_locales simp

lemma struct_fields_written:
  assumes "map fst kvs = names" "distinct names"
  shows "struct_fields names (JObj kvs) = Some (map_of kvs)"
proof -
  have "filter (\<lambda>kv. fst kv \<in> set names) kvs = kvs" using assms(1) by (force simp: filter_id_conv)
  then show ?thesis using assms by (simp add: struct_fields_def)
qed

lemma field_simps [simp]:
  "f k = None \<Longrightarrow> field f rd k = None"
  "f k = None \<Longrightarrow> field_or dflt f rd k = Some dflt"
  by (simp_all add: field_def field_or_def)

interpretation bool_codec: json_codec JBool bool_of_value True
  by unfold_locales (simp add: bool_of_value_def)

interpretation string_codec: json_codec JStr string_of_value True
  by unfold_locales (simp add: string_of_value_def)

text \<open>The structs are read field by field, each by the codec of its type.\<close>

lemmas written = int_codec.written_field base64_codec.written_field bool_codec.written_field
  string_codec.written_field

lemma distinct_names [simp]:
  "distinct attrs_names" "distinct key_slot_names" "distinct pin_data_names"
  "distinct cardholder_names" "distinct state_names"
  by (simp_all add: attrs_names_def key_slot_names_def pin_data_names_def cardholder_names_def state_names_def)

interpretation attrs_codec: json_codec "attrs_value C" "attrs_of_value C" "text_laws C" for C
  by unfold_locales (simp add: attrs_of_value_def attrs_value_def struct_fields_written attrs_names_def written)

interpretation key_slot_codec: json_codec "key_slot_value C" "key_slot_of_value C" "text_laws C" for C
  by unfold_locales (simp add: key_slot_of_value_def key_slot_value_def struct_fields_written key_slot_names_def written
      attrs_codec.written_field)

interpretation pin_data_codec: json_codec "pin_data_value C" "pin_data_of_value C" "text_laws C" for C
  by unfold_locales (simp add: pin_data_of_value_def pin_data_value_def struct_fields_written pin_data_names_def written)

interpretation cardholder_codec: json_codec cardholder_value cardholder_of_value True
  by unfold_locales (simp add: cardholder_of_value_def cardholder_value_def struct_fields_written cardholder_names_def written)

interpretation state_codec: json_codec "state_value C" "state_of_value C" "text_laws C" for C
  by unfold_locales
    (simp add: state_of_value_def state_value_def struct_fields_written state_names_def written
      key_slot_codec.written_field pin_data_codec.written_field cardholder_codec.written_field)

lemma serde_json_laws: "text_laws C \<Longrightarrow> serde_env C X \<Longrightarrow> json_laws X"
  by (auto simp: json_laws_def serde_env_def serde_to_json_def serde_from_json_def text_laws_def
      intro: state_codec.round)

text \<open>A file tells the state it was written from.\<close>

lemma file_determines_state:
  assumes "text_laws C" "serde_to_json C s = Some j" "serde_to_json C t = Some j"
  shows "s = t"
proof -
  have "json_parse C j = Some (state_value C s)" "json_parse C j = Some (state_value C t)"
    using assms unfolding text_laws_def serde_to_json_def by blast+
  then have "state_value C s = state_value C t" by simp
  with assms(1) show ?thesis by (simp only: state_codec.wr_inj)
qed

section \<open>Reading what others wrote\<close>

text \<open>Order and unknown fields do not matter.\<close>

lemma distinct_keys_mset:
  assumes "mset xs = mset ys"
  shows "distinct (map fst xs) = distinct (map fst ys)"
    and "distinct (map fst ys) \<Longrightarrow> map_of xs = map_of ys"
proof -
  have "mset (map fst xs) = mset (map fst ys)" using assms by (simp only: mset_map)
  then show d: "distinct (map fst xs) = distinct (map fst ys)" by (rule mset_eq_imp_distinct_iff)
  assume "distinct (map fst ys)"
  with d have "(map_of xs = map_of ys) = (set xs = set ys)" by (intro map_of_inject_set) simp_all
  then show "map_of xs = map_of ys" using mset_eq_setD [OF assms] by (rule iffD2)
qed

definition known_fields :: "string list \<Rightarrow> (string \<times> json) list \<Rightarrow> (string \<times> json) list" where
  "known_fields names kvs = filter (\<lambda>kv. fst kv \<in> set names) kvs"

lemma struct_fields_order:
  "mset (known_fields names kvs) = mset (known_fields names lvs) \<Longrightarrow>
     struct_fields names (JObj kvs) = struct_fields names (JObj lvs)"
  using distinct_keys_mset [of "known_fields names kvs" "known_fields names lvs"]
  by (simp add: struct_fields_def known_fields_def Let_def)

lemma state_of_value_order:
  "mset (known_fields state_names kvs) = mset (known_fields state_names lvs) \<Longrightarrow>
     state_of_value C (JObj kvs) = state_of_value C (JObj lvs)"
  using struct_fields_order [of state_names kvs lvs] by (simp add: state_of_value_def)

text \<open>Every field is required, at every level, but the language.\<close>

lemma struct_fields_missing:
  "k \<notin> fst ` set kvs \<Longrightarrow> struct_fields names (JObj kvs) = Some f \<Longrightarrow> f k = None"
proof -
  assume k: "k \<notin> fst ` set kvs" and "struct_fields names (JObj kvs) = Some f"
  then have f: "f = map_of (filter (\<lambda>kv. fst kv \<in> set names) kvs)"
    by (simp add: struct_fields_def Let_def split: if_splits)
  have "k \<notin> fst ` set (filter (\<lambda>kv. fst kv \<in> set names) kvs)" using k by auto
  then show "f k = None" unfolding f map_of_eq_None_iff .
qed

lemma state_needs_all_fields:
  assumes "k \<in> set state_names" "k \<notin> fst ` set kvs"
  shows "state_of_value C (JObj kvs) = None"
proof (cases "struct_fields state_names (JObj kvs)")
  case (Some f)
  with assms(2) have "f k = None" by (rule struct_fields_missing)
  moreover have "state_of_value C (JObj kvs) = None" if "f k = None"
    using assms(1) that unfolding state_names_def list.set insert_iff empty_iff
    by (elim disjE FalseE; simp add: state_of_value_def Some Option.bind_rzero)
  ultimately show ?thesis by blast
qed (simp add: state_of_value_def)

lemma language_is_optional:
  assumes "struct_fields cardholder_names v = Some f" "f ''language'' = None"
    and "cardholder_of_value v = Some h"
  shows "ch_language h = ch_language cardholder_new"
  using assms by (auto simp: cardholder_of_value_def default_language_def cardholder_new_def split: Option.bind_splits)

section \<open>Loading such a file\<close>

lemma load_file:
  assumes "fs_laws X" "store_fs t (state_file t) = Some j"
  shows "store_load X t = (case from_json X j of
      Some st \<Rightarrow> (True, t\<lparr>state := st\<rparr>)
    | None \<Rightarrow> (False, initialize_default_pins X (t\<lparr>state := card_state_default\<rparr>)))"
proof -
  have "migrate_legacy_state X t = t"
    using assms by (simp add: migrate_legacy_state_def fs_laws_def Let_def)
  then show ?thesis using assms by (simp add: store_load_def fs_laws_def Let_def)
qed

lemma default_pins_frame:
  "store_fs (initialize_default_pins X s) = store_fs s" "state_file (initialize_default_pins X s) = state_file s"
  by (simp_all add: initialize_default_pins_def)

section \<open>A demonstration format\<close>

text \<open>
  Base64 is the identity; the texts \<open>s\<close>, \<open>r\<close> and \<open>x\<close> stand for the default state, the same state with
  its fields reversed and an unknown one in front, and an object without fields.
\<close>

definition demo_base64 :: text_crates where
  "demo_base64 = \<lparr>b64_encode = (\<lambda>b. b), b64_decode = Some, json_print = (\<lambda>v. None), json_parse = (\<lambda>t. None)\<rparr>"

definition demo_fields :: "(string \<times> json) list" where
  "demo_fields = (case state_value demo_base64 card_state_default of JObj kvs \<Rightarrow> kvs | _ \<Rightarrow> [])"

definition demo_text :: text_crates where
  "demo_text = demo_base64
     \<lparr>json_print := (\<lambda>v. if v = JObj demo_fields then Some ''s'' else None),
      json_parse := (\<lambda>t. if t = ''s'' then Some (JObj demo_fields)
        else if t = ''r'' then Some (JObj ((''comment'', JNull) # rev demo_fields))
        else if t = ''x'' then Some (JObj []) else None)\<rparr>"

definition format_env :: "demo_key env" where
  "format_env = demo_env\<lparr>to_json := serde_to_json demo_text, from_json := serde_from_json demo_text\<rparr>"

lemma demo_text_laws: "text_laws demo_text"
  by (auto simp: text_laws_def demo_text_def demo_base64_def split: if_splits)

lemma demo_value: "state_value demo_text card_state_default = JObj demo_fields"
proof -
  have "state_value demo_text s = state_value demo_base64 s" for s
    by (simp add: state_value_def pin_data_value_def key_slot_value_def attrs_value_def
        base64_serialize_def demo_text_def demo_base64_def)
  then show ?thesis by (simp add: demo_fields_def state_value_def)
qed

lemma format_env_laws: "fs_laws format_env" "serde_env demo_text format_env" "sha256 format_env = vec_resize 32"
  using demo_laws(2) by (simp_all add: fs_laws_def serde_env_def format_env_def)

lemma demo_reordered:
  "mset (known_fields state_names ((''comment'', JNull) # rev demo_fields)) = mset (known_fields state_names demo_fields)"
  by (simp add: known_fields_def state_names_def flip: rev_filter)

section \<open>Properties\<close>

text \<open>
  C28: what \<open>save\<close> writes in serde's format \<open>load\<close> reads back, and \<open>load\<close> takes any file whose
  object has the fields of a state in some order, whatever other fields it has.
\<close>

theorem state_file_format:
  assumes "fs_laws X" "text_laws C" "serde_env C X"
  shows "(store_save X s = (True, s') \<longrightarrow> state_file t = state_file s \<longrightarrow> store_fs t = store_fs s' \<longrightarrow>
      fst (store_load X t) \<and> state (snd (store_load X t)) = state s) \<and>
    (store_fs t (state_file t) = Some j \<longrightarrow> json_parse C j = Some (JObj kvs) \<longrightarrow>
      state_value C st = JObj lvs \<longrightarrow> mset (known_fields state_names kvs) = mset (known_fields state_names lvs) \<longrightarrow>
      store_load X t = (True, t\<lparr>state := st\<rparr>))"
proof (intro conjI impI)
  assume "store_save X s = (True, s')" "state_file t = state_file s" "store_fs t = store_fs s'"
  with assms show "fst (store_load X t)" "state (snd (store_load X t)) = state s"
    using load_after_save [OF assms(1) serde_json_laws] by blast+
next
  assume j: "store_fs t (state_file t) = Some j" and parse: "json_parse C j = Some (JObj kvs)"
    and "state_value C st = JObj lvs" "mset (known_fields state_names kvs) = mset (known_fields state_names lvs)"
  then have "state_of_value C (JObj kvs) = Some st"
    using state_of_value_order [of kvs lvs C] state_codec.round [OF assms(2), of st] by simp
  with assms(3) parse have "from_json X j = Some st" by (simp add: serde_env_def serde_from_json_def)
  with load_file [OF assms(1) j] show "store_load X t = (True, t\<lparr>state := st\<rparr>)" by simp
qed

theorem state_file_format_witness:
  "let t = demo_store\<lparr>store_fs := (\<lambda>p. Some ''r'')\<rparr> in
   store_load format_env t = (True, t\<lparr>state := card_state_default\<rparr>)"
proof -
  have "json_parse demo_text ''r'' = Some (JObj ((''comment'', JNull) # rev demo_fields))"
    by (simp add: demo_text_def)
  with state_file_format [OF format_env_laws(1) demo_text_laws format_env_laws(2),
      of demo_store demo_store "demo_store\<lparr>store_fs := (\<lambda>p. Some ''r'')\<rparr>" "''r''"]
  show ?thesis using demo_value demo_reordered by (simp add: Let_def)
qed

text \<open>
  C29: a state file that is not JSON, or lacks one field, is given up: the card starts from the factory
  state with the default PINs, and the next successful \<open>save\<close> overwrites the file with it.
\<close>

theorem unreadable_state_is_replaced:
  assumes "fs_laws X" "text_laws C" "serde_env C X" "store_fs s (state_file s) = Some j"
    and "json_parse C j = None \<or>
      (\<exists>kvs k. json_parse C j = Some (JObj kvs) \<and> k \<in> set state_names \<and> k \<notin> fst ` set kvs)"
  shows "fst (store_load X s) = False \<and> state (snd (store_load X s)) = factory_state X \<and>
    store_fs (snd (store_load X s)) = store_fs s \<and>
    (store_save X (snd (store_load X s)) = (True, t) \<longrightarrow>
      store_fs t (state_file s) = to_json X (factory_state X) \<and>
      from_json X (the (store_fs t (state_file s))) = Some (factory_state X))"
proof -
  have "from_json X j = None"
    using assms(3,5) state_needs_all_fields by (auto simp: serde_env_def serde_from_json_def)
  with load_file [OF assms(1,4)]
  have load: "store_load X s = (False, initialize_default_pins X (s\<lparr>state := card_state_default\<rparr>))" by simp
  have "store_fs t (state_file s) = to_json X (factory_state X) \<and>
      from_json X (the (store_fs t (state_file s))) = Some (factory_state X)"
    if "store_save X (snd (store_load X s)) = (True, t)"
    using store_save_ok [OF assms(1) that] serde_json_laws [OF assms(2,3)]
    by (auto simp: load initialize_default default_pins_frame json_laws_def)
  with load show ?thesis by (auto simp: initialize_default default_pins_frame)
qed

theorem unreadable_state_is_replaced_witness:
  "let s = demo_store\<lparr>store_fs := (\<lambda>p. Some ''x'')\<rparr> in
   fst (store_load format_env s) = False \<and> state (snd (store_load format_env s)) = factory_state format_env"
proof -
  have "json_parse demo_text ''x'' = Some (JObj [])" "''uif'' \<notin> fst ` set []" "''terminated'' \<in> set state_names"
    by (simp_all add: demo_text_def state_names_def)
  with unreadable_state_is_replaced [OF format_env_laws(1) demo_text_laws format_env_laws(2),
      of "demo_store\<lparr>store_fs := (\<lambda>p. Some ''x'')\<rparr>" "''x''"]
  show ?thesis by (auto simp: Let_def)
qed

end
