(* ===== verification/Tlv_Helpers.thy ===== *)
theory Tlv_Helpers
  imports Card_State
begin

text \<open>
  Helpers of the TLV module for readers of the card (\<open>src/tlv/mod.rs\<close>): hexadecimal output, the
  serial number in the AID, and the three fingerprints of tag C5. They invert the layouts that
  \<open>Card_State\<close> writes.
\<close>

definition hex_digit :: "nat \<Rightarrow> char" where
  "hex_digit n = (if n < 10 then char_of (n + 48) else char_of (n + 55))"

text \<open>\<open>format!("{:02X}", b)\<close>\<close>

definition hex_byte :: "byte \<Rightarrow> string" where
  "hex_byte b = [hex_digit (unat b div 16), hex_digit (unat b mod 16)]"

fun join_spaces :: "string list \<Rightarrow> string" where
  "join_spaces [] = []"
| "join_spaces [s] = s"
| "join_spaces (s # t # ss) = s @ '' '' @ join_spaces (t # ss)"

definition hexify :: "byte list \<Rightarrow> string" where
  "hexify v = join_spaces (map hex_byte v)"

definition parse_card_serial :: "byte list \<Rightarrow> string" where
  "parse_card_serial d =
     (if length d < 14 then []
      else hex_byte (d ! 10) @ hex_byte (d ! 11) @ hex_byte (d ! 12) @ hex_byte (d ! 13))"

definition parse_fingerprints :: "byte list \<Rightarrow> byte list \<times> byte list \<times> byte list" where
  "parse_fingerprints d =
     (if length d < 60 then ([], [], [])
      else (take 20 d, take 20 (drop 20 d), take 20 (drop 40 d)))"

section \<open>Hexadecimal digits\<close>

lemma hex_digit_inj: "m < 16 \<Longrightarrow> n < 16 \<Longrightarrow> hex_digit m = hex_digit n \<longleftrightarrow> m = n"
proof -
  have "char_of j = char_of k \<longleftrightarrow> j = k" if "j < 256" "k < 256" for j k :: nat
    using that by (simp add: char_of_eq_iff of_char_of take_bit_eq_mod)
  moreover assume "m < 16" "n < 16"
  ultimately show ?thesis by (auto simp: hex_digit_def simp del: char_of_eq_iff)
qed

lemma hex_byte_inj: "hex_byte a = hex_byte b \<longleftrightarrow> a = b"
proof
  assume h: "hex_byte a = hex_byte b"
  have lt: "unat x div 16 < 16" "unat x mod 16 < 16" for x :: byte
    using unat_u8_less [of x] by (simp_all add: less_mult_imp_div_less)
  from h lt [of a] lt [of b] have "unat a div 16 = unat b div 16" "unat a mod 16 = unat b mod 16"
    by (simp_all add: hex_byte_def hex_digit_inj)
  then have "unat a = unat b" by (metis div_mult_mod_eq)
  then show "a = b" by (simp add: word_unat_eq_iff)
qed simp

lemma length_hex_byte [simp]: "length (hex_byte b) = 2"
  by (simp add: hex_byte_def)

section \<open>Reading back what the card writes\<close>

text \<open>The serial number shown for an AID identifies the serial number of the card.\<close>

lemma serial_identifies:
  "parse_card_serial (get_aid s) = parse_card_serial (get_aid t) \<longleftrightarrow> serial_number s = serial_number t"
proof
  assume "parse_card_serial (get_aid s) = parse_card_serial (get_aid t)"
  then have "from_be32 (get_aid s ! 10) (get_aid s ! 11) (get_aid s ! 12) (get_aid s ! 13) =
      from_be32 (get_aid t ! 10) (get_aid t ! 11) (get_aid t ! 12) (get_aid t ! 13)"
    by (simp add: parse_card_serial_def hex_byte_inj)
  then show "serial_number s = serial_number t" by (simp add: get_aid_def from_be32_bytes)
qed (simp add: parse_card_serial_def get_aid_def)

lemma fingerprints_read_back:
  "parse_fingerprints (get_fingerprints s) =
     (fingerprint_padded (key_sig s), fingerprint_padded (key_dec s), fingerprint_padded (key_aut s))"
proof -
  have "length (fingerprint_padded k) = 20" for k by (simp add: fingerprint_padded_def)
  then show ?thesis by (simp add: parse_fingerprints_def get_fingerprints_def)
qed

end
