(* ===== verification/Tag_Constants.thy ===== *)
theory Tag_Constants
  imports Tlv_Helpers Pgp_Data
begin

text \<open>
  The module \<open>tags\<close> of \<open>src/tlv/mod.rs\<close>: names for the tags of the OpenPGP card, which its other code
  writes as numbers. The two agree, and the constants can be used as BER tags with four exceptions.
\<close>

definition tags :: "(string \<times> u32) list" where
  "tags =
     [(''AID'', 0x004F), (''HISTORICAL_BYTES'', 0x5F52), (''CARDHOLDER_RELATED_DATA'', 0x0065),
      (''NAME'', 0x005B), (''LANGUAGE'', 0x5F2D), (''SEX'', 0x5F35), (''LOGIN_DATA'', 0x005E),
      (''URL'', 0x5F50), (''APPLICATION_RELATED_DATA'', 0x006E), (''DISCRETIONARY_DOS'', 0x0073),
      (''EXTENDED_CAPABILITIES'', 0x00C0), (''ALGORITHM_ATTRIBUTES_SIG'', 0x00C1),
      (''ALGORITHM_ATTRIBUTES_DEC'', 0x00C2), (''ALGORITHM_ATTRIBUTES_AUT'', 0x00C3),
      (''PW_STATUS_BYTES'', 0x00C4), (''FINGERPRINTS'', 0x00C5), (''CA_FINGERPRINTS'', 0x00C6),
      (''KEY_TIMESTAMPS'', 0x00CD), (''FINGERPRINT_SIG'', 0x00C7), (''FINGERPRINT_DEC'', 0x00C8),
      (''FINGERPRINT_AUT'', 0x00C9), (''CA_FINGERPRINT_1'', 0x00CA), (''CA_FINGERPRINT_2'', 0x00CB),
      (''CA_FINGERPRINT_3'', 0x00CC), (''TIMESTAMP_SIG'', 0x00CE), (''TIMESTAMP_DEC'', 0x00CF),
      (''TIMESTAMP_AUT'', 0x00D0), (''SECURITY_SUPPORT_TEMPLATE'', 0x007A),
      (''DIGITAL_SIG_COUNTER'', 0x0093), (''PRIVATE_DO_1'', 0x0101), (''PRIVATE_DO_2'', 0x0102),
      (''PRIVATE_DO_3'', 0x0103), (''PRIVATE_DO_4'', 0x0104), (''CARDHOLDER_CERTIFICATE'', 0x7F21),
      (''PUBLIC_KEY_TEMPLATE'', 0x7F49), (''EXTENDED_HEADER_LIST'', 0x004D),
      (''PRIVATE_KEY_TEMPLATE'', 0x7F48), (''CONCATENATED_KEY_DATA'', 0x5F48), (''CRT_SIG'', 0xB6),
      (''CRT_DEC'', 0xB8), (''CRT_AUT'', 0xA4), (''RSA_MODULUS'', 0x81), (''RSA_EXPONENT'', 0x82),
      (''ECC_PUBLIC_KEY'', 0x86), (''PRIVATE_EXPONENT'', 0x92), (''UIF_SIG'', 0x00D6),
      (''UIF_DEC'', 0x00D7), (''UIF_AUT'', 0x00D8), (''RESET_CODE'', 0x00D3),
      (''GENERAL_FEATURE_MANAGEMENT'', 0x7F74)]"

text \<open>\<open>format!("0x{:X}", value)\<close>\<close>

fun hex_digits :: "nat \<Rightarrow> string" where
  "hex_digits n = (if n < 16 then [hex_digit n] else hex_digits (n div 16) @ [hex_digit (n mod 16)])"

declare hex_digits.simps [simp del]

definition hex :: "'a::len word \<Rightarrow> string" where
  "hex v = ''0x'' @ hex_digits (unat v)"

lemma hex_digits_inj: "hex_digits m = hex_digits n \<Longrightarrow> m = n"
proof (induction m arbitrary: n rule: less_induct)
  case (less m)
  have last: "last (hex_digits k) = hex_digit (k mod 16)" for k
    by (subst hex_digits.simps) simp
  have len: "length (hex_digits k) = 1 \<longleftrightarrow> k < 16" for k
    by (subst hex_digits.simps) (simp, subst hex_digits.simps, simp)
  have mod: "m mod 16 = n mod 16"
    using arg_cong [OF less.prems, of last] by (simp add: last hex_digit_inj)
  show ?case
  proof (cases "m < 16")
    case True
    then have "n < 16" using len [of m] len [of n] less.prems by simp
    with True mod show ?thesis by simp
  next
    case False
    then have n: "\<not> n < 16" using len [of m] len [of n] less.prems by simp
    have "hex_digits (m div 16) = hex_digits (n div 16)"
      using less.prems False n by (subst (asm) hex_digits.simps, subst (asm) (2) hex_digits.simps) simp
    then have "m div 16 = n div 16" using False by (intro less.IH) auto
    with mod show ?thesis by (metis div_mult_mod_eq)
  qed
qed

lemma hex_inj: "hex (v :: 'a::len word) = hex w \<longleftrightarrow> v = w"
  by (auto simp: hex_def word_unat_eq_iff dest: hex_digits_inj)

section \<open>The constants\<close>

definition parses_back :: "u32 \<Rightarrow> bool" where
  "parses_back t \<longleftrightarrow> parse_tag (encode_tag t) = Ok (t, length (encode_tag t))"

lemma tags_named_once: "distinct (map fst tags)" "distinct (map snd tags)"
  by (simp_all add: tags_def)

text \<open>The private objects have tags of two bytes whose first byte is a complete tag.\<close>

lemma tags_parse_back:
  "map fst (filter (\<lambda>(n, t). \<not> parses_back t) tags) =
     [''PRIVATE_DO_1'', ''PRIVATE_DO_2'', ''PRIVATE_DO_3'', ''PRIVATE_DO_4'']"
  by (simp add: tags_def parses_back_def parse_tag_def encode_tag_def)

text \<open>The templates among them, which are read recursively.\<close>

lemma constructed_tags:
  "map fst (filter (\<lambda>(n, t). parses_back t \<and> first_tag_byte t AND 0x20 \<noteq> 0) tags) =
     [''CARDHOLDER_RELATED_DATA'', ''APPLICATION_RELATED_DATA'', ''DISCRETIONARY_DOS'',
      ''SECURITY_SUPPORT_TEMPLATE'', ''CARDHOLDER_CERTIFICATE'', ''PUBLIC_KEY_TEMPLATE'',
      ''PRIVATE_KEY_TEMPLATE'', ''CRT_SIG'', ''CRT_DEC'', ''CRT_AUT'', ''GENERAL_FEATURE_MANAGEMENT'']"
  by (simp add: tags_def parses_back_def parse_tag_def encode_tag_def first_tag_byte_def)

text \<open>GET DATA serves every constant but these.\<close>

lemma unserved_tags:
  "map fst (filter (\<lambda>(n, t). get_data_object (ucast t) s = None) tags) =
     [''DISCRETIONARY_DOS'', ''PUBLIC_KEY_TEMPLATE'', ''EXTENDED_HEADER_LIST'',
      ''PRIVATE_KEY_TEMPLATE'', ''CONCATENATED_KEY_DATA'', ''CRT_SIG'', ''CRT_DEC'', ''CRT_AUT'',
      ''RSA_MODULUS'', ''RSA_EXPONENT'', ''ECC_PUBLIC_KEY'', ''PRIVATE_EXPONENT'', ''RESET_CODE'']"
  by (simp add: tags_def get_data_object_def)

end
