(* ===== verification/Installer.thy ===== *)
theory Installer
  imports Jc_Prelude
begin

text \<open>
  The installer (\<open>src/bin/ifd-jcecard-install.rs\<close>): it finds the driver, copies it into the bundle
  directory of pcscd, and writes the property list and the reader configuration. The operating system
  is a parameter: \<open>'d\<close> is its disk, the Boolean of an operation its success. Names are strings, as
  the code formats them; two of them can mean the same file.
\<close>

record 'd installer_os =
  geteuid :: nat
  env_var :: "string \<Rightarrow> string option"
  os_exists :: "string \<Rightarrow> 'd \<Rightarrow> bool"
  os_create_dir_all :: "string \<Rightarrow> 'd \<Rightarrow> bool \<times> 'd"
  os_write :: "string \<Rightarrow> string \<Rightarrow> 'd \<Rightarrow> bool \<times> 'd"
  os_copy :: "string \<Rightarrow> string \<Rightarrow> 'd \<Rightarrow> bool \<times> 'd"

section \<open>Constants\<close>

definition BUNDLE_DIR :: string where "BUNDLE_DIR = ''/usr/lib/pcsc/drivers/ifd-jcecard.bundle''"
definition CONF_DIR :: string where "CONF_DIR = ''/etc/reader.conf.d''"

definition text_lines :: "string list \<Rightarrow> string" where
  "text_lines ls = concat (map (\<lambda>l. l @ [CHR 0x0A]) ls)"

definition INFO_PLIST :: string where
  "INFO_PLIST = text_lines
     [''<?xml version=\"1.0\" encoding=\"UTF-8\"?>'',
      ''<!DOCTYPE plist PUBLIC \"-//Apple//DTD PLIST 1.0//EN\" \"http://www.apple.com/DTDs/PropertyList-1.0.dtd\">'',
      ''<plist version=\"1.0\">'',
      ''<dict>'',
      ''    <key>CFBundleDevelopmentRegion</key>'',
      ''    <string>English</string>'',
      ''    <key>CFBundleExecutable</key>'',
      ''    <string>libifd_jcecard.so</string>'',
      ''    <key>CFBundleIdentifier</key>'',
      ''    <string>org.jcecard.ifd-handler</string>'',
      ''    <key>CFBundleInfoDictionaryVersion</key>'',
      ''    <string>6.0</string>'',
      ''    <key>CFBundleName</key>'',
      ''    <string>ifd-jcecard</string>'',
      ''    <key>CFBundlePackageType</key>'',
      ''    <string>BNDL</string>'',
      ''    <key>CFBundleShortVersionString</key>'',
      ''    <string>0.1.0</string>'',
      ''    <key>CFBundleSignature</key>'',
      ''    <string>????</string>'',
      ''    <key>CFBundleVersion</key>'',
      ''    <string>0.1.0</string>'',
      ''    <key>ifdCapabilities</key>'',
      ''    <string>0x00000000</string>'',
      ''    <key>ifdProtocolSupport</key>'',
      ''    <string>0x00000003</string>'',
      ''    <key>ifdVersionNumber</key>'',
      ''    <string>0x00000001</string>'',
      ''    <key>ifdManufacturerString</key>'',
      ''    <string>jcecard</string>'',
      ''    <key>ifdProductString</key>'',
      ''    <string>jcecard Virtual Reader</string>'',
      ''    <key>ifdSerialNumber</key>'',
      ''    <string>0</string>'',
      ''    <key>Copyright</key>'',
      ''    <string>Copyright (C) 2024 jcecard</string>'',
      ''    <key>ifdLogLevel</key>'',
      ''    <string>0x0007</string>'',
      ''</dict>'',
      ''</plist>'']"

definition JCECARD_CONF :: string where
  "JCECARD_CONF = text_lines
     [''# jcecard Virtual Smart Card Reader'',
      ''# This configuration tells pcscd to load the ifd-jcecard driver'',
      '''',
      ''FRIENDLYNAME      \"Yubikey jcecard Virtual Smart Card\"'',
      ''DEVICENAME        /dev/null'',
      ''LIBPATH           /usr/lib/pcsc/drivers/ifd-jcecard.bundle/Contents/Linux/libifd_jcecard.so'',
      ''CHANNELID         0x00000001'']"

section \<open>Finding the driver\<close>

definition is_root :: "'d installer_os \<Rightarrow> bool" where
  "is_root Os \<longleftrightarrow> geteuid Os = 0"

text \<open>\<open>str::split\<close> on a character, and \<open>Path::join\<close> with a relative name.\<close>

fun split_on :: "char \<Rightarrow> string \<Rightarrow> string list" where
  "split_on c [] = [[]]"
| "split_on c (x # xs) =
     (if x = c then [] # split_on c xs
      else case split_on c xs of [] \<Rightarrow> [[x]] | w # ws \<Rightarrow> (x # w) # ws)"

definition join_name :: "string \<Rightarrow> string \<Rightarrow> string" where
  "join_name dir name = (if dir \<noteq> [] \<and> last dir \<noteq> CHR ''/'' then dir @ ''/'' @ name else dir @ name)"

fun first_existing :: "'d installer_os \<Rightarrow> 'd \<Rightarrow> string list \<Rightarrow> string option" where
  "first_existing Os d [] = None"
| "first_existing Os d (p # ps) = (if os_exists Os p d then Some p else first_existing Os d ps)"

definition common_locations :: "'d installer_os \<Rightarrow> string list" where
  "common_locations Os =
     [(case env_var Os ''HOME'' of Some h \<Rightarrow> h | None \<Rightarrow> []) @ ''/.cargo/bin/../lib/libifd_jcecard.so'',
      ''target/release/libifd_jcecard.so'',
      ''../target/release/libifd_jcecard.so'',
      ''/usr/local/lib/libifd_jcecard.so'',
      ''/usr/lib/libifd_jcecard.so'']"

definition find_library :: "'d installer_os \<Rightarrow> 'd \<Rightarrow> string option" where
  "find_library Os d =
     (case first_existing Os d (common_locations Os) of
        Some p \<Rightarrow> Some p
      | None \<Rightarrow>
          (case env_var Os ''LD_LIBRARY_PATH'' of
             Some ld_path \<Rightarrow>
               first_existing Os d (map (\<lambda>dir. join_name dir ''libifd_jcecard.so'') (split_on (CHR '':'') ld_path))
           | None \<Rightarrow> None))"

section \<open>\<open>main\<close>\<close>

text \<open>The exit code and the disk.\<close>

definition bundle_linux :: string where "bundle_linux = BUNDLE_DIR @ ''/Contents/Linux''"
definition plist_path :: string where "plist_path = BUNDLE_DIR @ ''/Contents'' @ ''/Info.plist''"
definition dest_lib :: string where "dest_lib = bundle_linux @ ''/libifd_jcecard.so''"
definition conf_path :: string where "conf_path = CONF_DIR @ ''/jcecard''"

definition installer_main :: "'d installer_os \<Rightarrow> 'd \<Rightarrow> nat \<times> 'd" where
  "installer_main Os d =
     (if \<not> is_root Os then (1, d)
      else case find_library Os d of
          None \<Rightarrow> (1, d)
        | Some lib_path \<Rightarrow>
            (let (ok, d1) = os_create_dir_all Os bundle_linux d in
             if \<not> ok then (1, d1) else
             let (ok, d2) = os_write Os plist_path INFO_PLIST d1 in
             if \<not> ok then (1, d2) else
             let (ok, d3) = os_copy Os lib_path dest_lib d2 in
             if \<not> ok then (1, d3) else
             let (ok, d4) = os_create_dir_all Os CONF_DIR d3 in
             if \<not> ok then (1, d4) else
             let (ok, d5) = os_write Os conf_path JCECARD_CONF d4 in
             if \<not> ok then (1, d5) else (0, d5)))"

section \<open>The search order\<close>

lemma first_existing_append:
  "first_existing Os d (ps @ qs) = (case first_existing Os d ps of Some p \<Rightarrow> Some p | None \<Rightarrow> first_existing Os d qs)"
  by (induction ps) auto

lemma first_existing_first:
  "first_existing Os d ps = Some p \<Longrightarrow>
     \<exists>qs rs. ps = qs @ p # rs \<and> os_exists Os p d \<and> (\<forall>q\<in>set qs. \<not> os_exists Os q d)"
proof (induction ps)
  case (Cons a ps)
  show ?case
  proof (cases "os_exists Os a d")
    case True
    with Cons.prems show ?thesis by (intro exI [of _ "[]"] exI [of _ ps]) simp
  next
    case False
    with Cons obtain qs rs where "ps = qs @ p # rs" "os_exists Os p d" "\<forall>q\<in>set qs. \<not> os_exists Os q d"
      by auto
    with False show ?thesis by (intro exI [of _ "a # qs"] exI [of _ rs]) simp
  qed
qed simp

text \<open>The places searched, in order: both loops of the code are one search.\<close>

definition all_locations :: "'d installer_os \<Rightarrow> string list" where
  "all_locations Os = common_locations Os @
     (case env_var Os ''LD_LIBRARY_PATH'' of
        Some ld_path \<Rightarrow> map (\<lambda>dir. join_name dir ''libifd_jcecard.so'') (split_on (CHR '':'') ld_path)
      | None \<Rightarrow> [])"

lemma find_library_first: "find_library Os d = first_existing Os d (all_locations Os)"
  by (simp add: find_library_def all_locations_def first_existing_append split: option.split)

lemma find_library_exists: "find_library Os d = Some p \<Longrightarrow> os_exists Os p d"
  unfolding find_library_first by (drule first_existing_first) blast

text \<open>Splitting at the colons loses nothing: joining the pieces gives the variable back.\<close>

fun join_with :: "char \<Rightarrow> string list \<Rightarrow> string" where
  "join_with c [] = []"
| "join_with c [w] = w"
| "join_with c (w # ws) = w @ c # join_with c ws"

lemma split_on_not_Nil [simp]: "split_on c xs \<noteq> []"
  by (induction xs) (auto split: list.split)

lemma split_on_join: "join_with c (split_on c xs) = xs"
proof (induction xs)
  case (Cons x xs)
  have "join_with c ((x # w) # ws) = x # join_with c (w # ws)" for w ws by (cases ws) simp_all
  moreover have "join_with c ([] # split_on c xs) = c # join_with c (split_on c xs)"
    by (cases "split_on c xs") simp_all
  ultimately show ?case using Cons by (auto split: list.split)
qed simp

lemma split_on_pieces: "w \<in> set (split_on c xs) \<Longrightarrow> c \<notin> set w"
  by (induction xs arbitrary: w) (auto split: if_splits list.splits)

section \<open>What an installation does to the disk\<close>

text \<open>
  Documented behaviour of \<open>std::fs\<close>: \<open>contents\<close> is the content of a file, \<open>same\<close> whether two names
  mean one file. An operation changes no file but its target, failed or not; a successful \<open>write\<close>
  leaves the data there, a successful \<open>copy\<close> to another file the content of its source.
\<close>

definition installer_laws ::
  "'d installer_os \<Rightarrow> (string \<Rightarrow> 'd \<Rightarrow> string option) \<Rightarrow> (string \<Rightarrow> string \<Rightarrow> bool) \<Rightarrow> bool" where
  "installer_laws Os contents same \<longleftrightarrow>
     (\<forall>p d q. contents q (snd (os_create_dir_all Os p d)) = contents q d) \<and>
     (\<forall>p c d. fst (os_write Os p c d) \<longrightarrow> contents p (snd (os_write Os p c d)) = Some c) \<and>
     (\<forall>p c d q. \<not> same p q \<longrightarrow> contents q (snd (os_write Os p c d)) = contents q d) \<and>
     (\<forall>s p d. fst (os_copy Os s p d) \<longrightarrow> contents s d \<noteq> None \<and>
        (\<not> same s p \<longrightarrow> contents p (snd (os_copy Os s p d)) = contents s d)) \<and>
     (\<forall>s p d q. \<not> same p q \<longrightarrow> contents q (snd (os_copy Os s p d)) = contents q d)"

text \<open>
  What \<open>copy\<close> does when source and target are one file: the documentation says that the file will
  likely be truncated, and on Linux, where the target is opened with \<open>truncate\<close>, it is.
\<close>

definition copy_truncates ::
  "'d installer_os \<Rightarrow> (string \<Rightarrow> 'd \<Rightarrow> string option) \<Rightarrow> (string \<Rightarrow> string \<Rightarrow> bool) \<Rightarrow> bool" where
  "copy_truncates Os contents same \<longleftrightarrow>
     (\<forall>s p d. same s p \<longrightarrow> fst (os_copy Os s p d) \<longrightarrow> contents p (snd (os_copy Os s p d)) = Some [])"

text \<open>The three files of the installation are different ones, and none but the driver's is the source.\<close>

definition separate_files :: "(string \<Rightarrow> string \<Rightarrow> bool) \<Rightarrow> string \<Rightarrow> bool" where
  "separate_files same lib \<longleftrightarrow>
     \<not> same plist_path dest_lib \<and> \<not> same plist_path conf_path \<and> \<not> same dest_lib plist_path \<and>
     \<not> same dest_lib conf_path \<and> \<not> same conf_path plist_path \<and> \<not> same conf_path dest_lib \<and>
     \<not> same plist_path lib"

text \<open>The configuration names the file the driver is copied to.\<close>

lemma conf_names_driver: "\<exists>ls. JCECARD_CONF = text_lines ls \<and> ''LIBPATH           '' @ dest_lib \<in> set ls"
  unfolding JCECARD_CONF_def
  by (rule exI, rule conjI, rule refl) (simp add: dest_lib_def bundle_linux_def BUNDLE_DIR_def)

text \<open>
  The last steps: the configuration is written after the driver was copied, or left as it was. The
  disk \<open>d2\<close> is the one the copy works on.
\<close>

lemma installer_outcome:
  assumes "installer_laws Os contents same" "separate_files same lib" "find_library Os d = Some lib"
    "is_root Os" "installer_main Os d = (code, d')"
  shows "\<exists>d2. contents lib d2 = contents lib d \<and>
    (code = 0 \<and> contents plist_path d' = Some INFO_PLIST \<and> contents conf_path d' = Some JCECARD_CONF \<and>
       fst (os_copy Os lib dest_lib d2) \<and> contents dest_lib d' = contents dest_lib (snd (os_copy Os lib dest_lib d2)) \<or>
     code = 1 \<and> (contents conf_path d' = contents conf_path d \<or>
       fst (os_copy Os lib dest_lib d2) \<and> contents dest_lib d' = contents dest_lib (snd (os_copy Os lib dest_lib d2))))"
proof -
  have dir [simp]: "contents q (snd (os_create_dir_all Os p d)) = contents q d" for p d q
    using assms(1) by (simp add: installer_laws_def)
  have written [simp]: "fst (os_write Os p c d) \<Longrightarrow> contents p (snd (os_write Os p c d)) = Some c" for p c d
    using assms(1) by (simp add: installer_laws_def)
  have elsewhere [simp]: "\<not> same p q \<Longrightarrow> contents q (snd (os_write Os p c d)) = contents q d"
    "\<not> same p q \<Longrightarrow> contents q (snd (os_copy Os s p d)) = contents q d" for p c d q s
    using assms(1) by (simp_all add: installer_laws_def)
  define d2 where "d2 = snd (os_write Os plist_path INFO_PLIST (snd (os_create_dir_all Os bundle_linux d)))"
  have lib: "contents lib d2 = contents lib d" and conf: "contents conf_path d2 = contents conf_path d"
    using assms(2) by (simp_all add: d2_def separate_files_def)
  show ?thesis
    using assms(2-5) conf
    by (intro exI [of _ d2] conjI lib)
      (simp add: installer_main_def split_beta Let_def separate_files_def flip: d2_def split: if_splits,
       auto simp: d2_def)
qed

section \<open>Properties\<close>

text \<open>
  C36: when the first driver found in the installer's places is not the installed file itself, an
  installer that reports success, which takes root, has put its content at the place of the installed
  driver, has written the property list, and a configuration that names this place; whatever fails,
  the configuration is only changed once the driver is there. When the first driver found is the
  installed file, success means something else: see \<open>reinstallation_truncates_driver\<close>.
\<close>

theorem installation:
  assumes "installer_laws Os contents same" "separate_files same lib" "\<not> same lib dest_lib"
    and "find_library Os d = Some lib" "installer_main Os d = (code, d')"
  shows "(code = 0 \<longrightarrow> is_root Os \<and> contents plist_path d' = Some INFO_PLIST \<and>
      contents conf_path d' = Some JCECARD_CONF \<and> contents lib d \<noteq> None \<and>
      contents dest_lib d' = contents lib d) \<and>
    (contents conf_path d' \<noteq> contents conf_path d \<longrightarrow>
      contents lib d \<noteq> None \<and> contents dest_lib d' = contents lib d) \<and>
    (\<exists>ls. JCECARD_CONF = text_lines ls \<and> ''LIBPATH           '' @ dest_lib \<in> set ls) \<and>
    (\<exists>qs rs. all_locations Os = qs @ lib # rs \<and> os_exists Os lib d \<and> (\<forall>q\<in>set qs. \<not> os_exists Os q d))"
proof (cases "is_root Os")
  case True
  define copied where "copied d2 = fst (os_copy Os lib dest_lib d2)" for d2
  have copy: "contents lib d2 \<noteq> None \<and> contents dest_lib (snd (os_copy Os lib dest_lib d2)) = contents lib d2"
    if "copied d2" for d2
    using assms(1,3) that unfolding installer_laws_def copied_def by blast
  obtain d2 where "contents lib d2 = contents lib d" and
    "code = 0 \<and> contents plist_path d' = Some INFO_PLIST \<and> contents conf_path d' = Some JCECARD_CONF \<and>
       copied d2 \<and> contents dest_lib d' = contents dest_lib (snd (os_copy Os lib dest_lib d2)) \<or>
     code = 1 \<and> (contents conf_path d' = contents conf_path d \<or>
       copied d2 \<and> contents dest_lib d' = contents dest_lib (snd (os_copy Os lib dest_lib d2)))"
    using installer_outcome [OF assms(1,2,4) True assms(5)] unfolding copied_def by blast
  with copy [of d2] True conf_names_driver first_existing_first [OF assms(4) [unfolded find_library_first]]
  show ?thesis by (elim disjE conjE) simp_all
next
  case False
  with assms(5) have "code = 1" "d' = d" by (auto simp: installer_main_def)
  then show ?thesis
    using conf_names_driver first_existing_first [OF assms(4) [unfolded find_library_first]] by auto
qed

text \<open>A disk of files by name; the system of a root shell in the directory of the build.\<close>

definition demo_installer :: "(string \<Rightarrow> string option) installer_os" where
  "demo_installer =
     \<lparr>geteuid = 0, env_var = (\<lambda>v. if v = ''LD_LIBRARY_PATH'' then Some (''/x:'' @ bundle_linux) else None),
      os_exists = (\<lambda>p d. d p \<noteq> None), os_create_dir_all = (\<lambda>p d. (True, d)),
      os_write = (\<lambda>p c d. (True, d(p \<mapsto> c))),
      os_copy = (\<lambda>s p d. if d s = None then (False, d) else (True, d(p := if s = p then Some [] else d s)))\<rparr>"

lemma demo_installer_laws: "installer_laws demo_installer (\<lambda>p d. d p) (=)"
  by (auto simp: installer_laws_def demo_installer_def)

lemma target_names [simp]:
  "plist_path \<noteq> dest_lib" "plist_path \<noteq> conf_path" "dest_lib \<noteq> conf_path"
  "dest_lib \<noteq> plist_path" "conf_path \<noteq> plist_path" "conf_path \<noteq> dest_lib"
  by (simp_all add: plist_path_def dest_lib_def conf_path_def bundle_linux_def BUNDLE_DIR_def CONF_DIR_def)

definition demo_driver :: string where "demo_driver = ''/x/libifd_jcecard.so''"

lemma demo_split: "split_on (CHR '':'') (''/x:'' @ bundle_linux) = [''/x'', bundle_linux]"
  by (simp add: bundle_linux_def BUNDLE_DIR_def)

lemma demo_locations: "all_locations demo_installer =
    [''/.cargo/bin/../lib/libifd_jcecard.so'', ''target/release/libifd_jcecard.so'',
     ''../target/release/libifd_jcecard.so'', ''/usr/local/lib/libifd_jcecard.so'',
     ''/usr/lib/libifd_jcecard.so'', demo_driver, dest_lib]"
proof -
  have "env_var demo_installer v = (if v = ''LD_LIBRARY_PATH'' then Some (''/x:'' @ bundle_linux) else None)" for v
    by (simp add: demo_installer_def)
  then show ?thesis
    by (simp add: all_locations_def common_locations_def demo_split [simplified] join_name_def demo_driver_def dest_lib_def)
      (simp add: bundle_linux_def)
qed

lemma demo_find:
  "find_library demo_installer [demo_driver \<mapsto> ''elf''] = Some demo_driver"
  "find_library demo_installer [dest_lib \<mapsto> ''elf''] = Some dest_lib"
  unfolding find_library_first demo_locations
  by (simp_all add: demo_installer_def demo_driver_def dest_lib_def bundle_linux_def BUNDLE_DIR_def)

theorem installation_witness:
  "snd (installer_main demo_installer [demo_driver \<mapsto> ''elf'']) dest_lib = Some ''elf'' \<and>
   snd (installer_main demo_installer [demo_driver \<mapsto> ''elf'']) conf_path = Some JCECARD_CONF"
proof -
  have names: "demo_driver \<noteq> dest_lib" "demo_driver \<noteq> plist_path"
    by (simp_all add: demo_driver_def dest_lib_def plist_path_def bundle_linux_def BUNDLE_DIR_def)
  then have sep: "separate_files (=) demo_driver" by (auto simp: separate_files_def)
  obtain d' where d': "installer_main demo_installer [demo_driver \<mapsto> ''elf''] = (0, d')"
    using demo_find(1) names by (simp add: installer_main_def is_root_def demo_installer_def Let_def)
  show ?thesis
    using installation [OF demo_installer_laws sep names(1) demo_find(1) d'] names by (simp add: d')
qed

text \<open>
  When the first driver found is the installed one, as with the bundle in \<open>LD_LIBRARY_PATH\<close>, a repeated
  installation truncates it and reports success.
\<close>

lemma reinstallation_truncates_driver:
  assumes "installer_laws Os contents same" "separate_files same lib" "same lib dest_lib"
    and "copy_truncates Os contents same" "find_library Os d = Some lib" "installer_main Os d = (0, d')"
  shows "contents dest_lib d' = Some []"
proof -
  have "is_root Os" using assms(6) by (auto simp: installer_main_def split: if_splits)
  from installer_outcome [OF assms(1,2,5) this assms(6)] show ?thesis
    using assms(3,4) unfolding copy_truncates_def by auto
qed

text \<open>It happens: in the demonstration with the bundle directory in the search path.\<close>

lemma demo_reinstallation:
  "\<exists>d'. installer_main demo_installer [dest_lib \<mapsto> ''elf''] = (0, d') \<and> d' dest_lib = Some []"
proof -
  have sep: "separate_files (=) dest_lib" by (simp add: separate_files_def)
  have trunc: "copy_truncates demo_installer (\<lambda>p d. d p) (=)" by (simp add: copy_truncates_def demo_installer_def)
  obtain d' where d': "installer_main demo_installer [dest_lib \<mapsto> ''elf''] = (0, d')"
    using demo_find(2) by (simp add: installer_main_def is_root_def demo_installer_def Let_def)
  from reinstallation_truncates_driver [OF demo_installer_laws sep refl trunc demo_find(2) d'] d'
  show ?thesis by blast
qed

end
