(* ===== verification/Spec2Isabelle.thy ===== *)
theory Spec2Isabelle
  imports Pgp_Session Pgp_Decipher Secret_Keys Pgp_Spec Pgp_Durable Piv_Spec Status_Words Ifd_Security Nitrokey_Service
    State_Format Tag_Constants Installer
begin

text \<open>
  \<^bold>\<open>jcecard: virtual smart cards behind a pcscd IFD handler\<close>

  The program (Rust, \<^verbatim>\<open>ifd-jcecard/src\<close>; paths below are relative to the crate) is a shared library
  that pcscd loads as the driver of a reader with two slots. Slot 0 holds \<open>VirtualCard\<close>, a card with an
  OpenPGP and a PIV applet written here; slot 1 holds \<open>NitrokeyCard\<close>, which drives the vendored
  Nitrokey 3 firmware. A client's bytes travel from \<open>IFDHTransmitToICC\<close> (\<^verbatim>\<open>lib.rs\<close>) through the trait
  \<open>Card\<close> to a card, are parsed to an \<open>APDU\<close>, routed to the selected applet, and come back as data and a
  status word. The OpenPGP applet keeps its state in a JSON file that it rewrites after each change.

  \<^bold>\<open>How the program is modelled\<close>

  Structs are records, enums datatypes with the source's constructors, \<open>u8\<close> to \<open>usize\<close> are words of
  their width and wrap as in the release profile, \<open>Vec<u8>\<close> is a list of bytes, a \<open>String\<close> read from
  the card its UTF-8 bytes. A method on \<open>&mut self\<close> returns the new value. \<open>Result\<close> is a sum with
  abbreviations \<open>Ok\<close> and \<open>Err\<close>; error messages for the log are left out. A panic is the outer \<open>None\<close>;
  definitions without one cannot panic, the slices of the source being within bounds.
  Logging, and the pointers of the C interface beyond being null or not, are left out.

  What the program calls and does not contain is a field of the records \<open>env\<close> (operating system, clock,
  random numbers, JSON format, cryptographic crates; theory \<open>Env\<close>), \<open>dispatcher\<close> (the firmware's
  dispatcher and interchange), \<open>firmware\<close>, \<open>disk_os\<close>, \<open>littlefs\<close>, \<open>text_crates\<close> (the texts of JSON and
  Base64) and \<open>installer_os\<close>. Every theorem holds for every such record;
  documented laws are named predicates (\<open>json_laws\<close>, \<open>fs_laws\<close>, \<open>hash_laws\<close>, \<open>rsa_laws\<close>, \<open>tdes_laws\<close> and others of \<open>Env\<close>,
  \<open>disk_works\<close>, \<open>interchange_laws\<close>, \<open>text_laws\<close>, \<open>installer_laws\<close>) that a theorem assumes where it needs them. \<open>Demo_Env\<close> and
  \<open>Demo_Disk\<close> are concrete environments in which they hold; the witnesses run there.

  \<^bold>\<open>The theories\<close>

  \<^item> \<open>Jc_Prelude\<close>: words, sums, big-endian conversions, and the locales several components share:
    \<open>prefix_codec\<close> (a decoder reads back what an encoder put in front of any input), \<open>state_machine\<close>
    (invariants of runs) and \<open>retry_guard\<close> (a secret behind a retry counter). \<open>Command_Runs\<close>:
    sequences of commands as an inductive relation, with the rules all session theories use.
  \<^item> \<open>Tlv\<close> (\<^verbatim>\<open>tlv/parser.rs\<close>, \<^verbatim>\<open>tlv/encoder.rs\<close>), \<open>Tlv_Helpers\<close>, \<open>Tag_Constants\<close>
    (\<^verbatim>\<open>tlv/mod.rs\<close>): BER-TLV. Encoded trees
    are read back, searches find the first object in preorder; tags and lengths interpret
    \<open>prefix_codec\<close>.
  \<^item> \<open>Apdu\<close> (\<^verbatim>\<open>apdu/\<close>): the parser of short and extended commands, responses, status words. Round
    trip over the seven ISO cases, bounds of parsed commands, the error for every malformed length.
  \<^item> \<open>Utf8\<close>: \<open>String::from_utf8_lossy\<close> of the standard library, through which string objects pass.
  \<^item> \<open>Card_State\<close>, \<open>Card_Store\<close> (\<^verbatim>\<open>card/state.rs\<close>, \<^verbatim>\<open>card/storage.rs\<close>): the persistent state, its
    serialised objects, loading, saving, migration and factory reset. \<open>State_Format\<close>: the JSON value of
    the state, field by field; an environment with this format satisfies \<open>json_laws\<close>.
  \<^item> \<open>Rsa_Ops\<close>, \<open>Ecc_Ops\<close>, \<open>Digest_Ops\<close> (\<^verbatim>\<open>crypto/\<close>): the program's code around the crates: key blobs,
    the extended Euclidean algorithm, length checks, fingerprints, Triple DES in ECB mode.
  \<^item> \<open>Pin_Manager\<close>, \<open>Security_State\<close> (\<^verbatim>\<open>openpgp/\<close>): PINs with retry counters, and what is verified.
    Each PIN interprets \<open>retry_guard\<close>.
  \<^item> \<open>Pgp_State\<close>, \<open>Pgp_Data\<close>, \<open>Pgp_Pins\<close>, \<open>Pgp_Keys\<close>, \<open>Pgp_Crypto\<close>, \<open>Pgp_Applet\<close>
    (\<^verbatim>\<open>openpgp/applet.rs\<close>): state and response buffering, data objects, PIN commands, key import and
    generation, cryptographic commands, and \<open>process_apdu\<close> (\<open>pgp_process\<close>) with command chaining.
    The applet interprets \<open>state_machine\<close>.
  \<^item> \<open>Pgp_Session\<close>: what sequences of commands can and cannot do. \<open>Pgp_Spec\<close>: the abstract machine of
    secrets, tries and rights that the applet refines. \<open>Pgp_Durable\<close>: what the file holds after a
    command.
  \<^item> \<open>Rsa_Math\<close>, \<open>Pgp_Signing\<close>: Fermat's little theorem and RSA, from which signatures of generated keys
    verify, and what a signature costs. \<open>Pgp_Decipher\<close>: the same for decryption.
  \<^item> \<open>Piv_Objects\<close>, \<open>Piv_Applet\<close>, \<open>Piv_Session\<close>, \<open>Piv_Spec\<close> (\<^verbatim>\<open>piv/\<close>): the PIV applet, whose PIN
    and PUK interpret \<open>retry_guard\<close> too, attackers without PIN and PUK or without the management key,
    the challenge-response protocol, and the abstract machine \<open>piv_step\<close> that the applet refines.
  \<^item> \<open>Card_Trait\<close>, \<open>Atr\<close> (\<^verbatim>\<open>card/card_trait.rs\<close>, \<^verbatim>\<open>card/atr.rs\<close>): the trait \<open>Card\<close> as the locale
    \<open>card\<close>, interpreted by both cards and by the boxed card of a slot.
  \<^item> \<open>Virtual_Card\<close> (\<^verbatim>\<open>lib.rs\<close>): the card of slot 0. \<open>Response_Types\<close>: every answer is a well-typed
    response APDU. \<open>Status_Words\<close>: the table of all status words, from which errors are taken.
    \<open>Noninterference\<close>, \<open>Secret_Keys\<close>: the locale \<open>keeps_secret\<close> of components whose answers do not
    depend on a secret, interpreted by both applets and by the card for their private keys.
  \<^item> \<open>Nitrokey_Card\<close>, \<open>Nitrokey_Storage\<close>, \<open>Nitrokey_Store\<close> (\<^verbatim>\<open>nitrokey/\<close>): the driver of slot 1, its
    volumes (the locale \<open>volume\<close>, interpreted by the image file and by the buffer in memory), and how
    they are opened. \<open>Nitrokey_Service\<close>: the start of the card, and its service thread, the channels to
    it and \<open>drop\<close> as a step relation of two threads.
  \<^item> \<open>Ifd_Handler\<close> (\<^verbatim>\<open>lib.rs\<close>): the entry points. \<open>Ifd_Session\<close>: calls of several threads, each a
    lookup under the lock of the handler followed, any time later, by the work under the lock of the
    card. \<open>Ifd_Security\<close>: the end-to-end property.
  \<^item> \<open>Installer\<close> (\<^verbatim>\<open>bin/ifd-jcecard-install.rs\<close>): the search for the driver and the installation.

  \<^bold>\<open>What is shown\<close>

  \<^item> Secrets: from the start of the handler, over any interleaving of calls, no client that neither
    presents PW3 nor sends ACTIVATE FILE changes PW3 or a private key of the OpenPGP applet, in memory
    or in the file (ACTIVATE FILE takes no PIN and erases them); the same for the applet alone, for
    PIV, and with the exact moment a right arises (\<open>verified_only_after_verify\<close>). An exhausted PIN
    stays exhausted until a factory reset or, for PW1, a RESET RETRY COUNTER that is authorised
    (\<open>exhausted_pin_stays_blocked\<close>), across restarts of the process as well (\<open>pins_are_durable\<close>).
  \<^item> Confidentiality: cards that differ in their private keys alone cannot be told apart by any sequence
    of calls in which no command uses a key under the PIN it needs.
  \<^item> The OpenPGP applet refines \<open>auth_step\<close>, the PIV applet \<open>piv_step\<close>, and facts of these machines are
    carried over: a blocked card stays blocked, until ACTIVATE FILE for OpenPGP, for good for PIV.
  \<^item> Cards: powering down locks a card, slots do not influence each other, every answer has a type and
    fits the caller's buffer, no response of an earlier command is taken for that of a later one.
  \<^item> Transport: command chaining and GET RESPONSE deliver exactly what one long command and one long
    response would, and the client's loop ends after a known number of rounds.
  \<^item> RSA: with a generated key signatures verify, and ciphertexts are deciphered, under the public key
    the card returned, through every format and computation in between; in single-use mode each
    signature takes a PIN.
  \<^item> Data: round trips of the formats the program both writes and reads, the state file included; what
    GET DATA returns of each object that PUT DATA accepts, including those that come back changed or
    not at all; what becomes of a state file that cannot be read.
  \<^item> Slot 1: the service thread serves every call, and dropping the card ends it within four steps. The
    image file and the memory buffer answer alike within the limits littlefs keeps to, and differ on
    reads past the end and on erases of partial blocks.
  \<^item> Installation: unless the driver found is the installed file itself, the configuration of pcscd is
    only changed once the driver is in place.
  \<^item> Flaws of the code, each proved of the model as it is (listed in the findings): PINs of 256 + k
    bytes, PINs with 00 or FF, unprotected ACTIVATE FILE, unpadded RSA signatures of
    INTERNAL AUTHENTICATE, unusable RSA keys and short PUKs of PIV, a
    broken PIV chain that survives a power cycle, a repeated installation that truncates the driver.

  \<^bold>\<open>Bounds and termination\<close>

  The loops of the source are recursive functions with a termination proof. Fuel appears twice.
  \<open>read_rest\<close> is the loop of the client, not of the program; it is given a bound for the number of
  rounds, and \<open>get_response_rounds\<close> shows that it returns as soon as the bound is the number of pieces
  left. \<open>poll_loop\<close> ends by a deadline; \<open>poll_rounds\<close> is how often the readings of the clock allow it
  to try, at most a thousand times when every round sleeps (\<open>poll_rounds_bound\<close>); no other theorem
  assumes how often that is.

  \<^bold>\<open>Not modelled\<close>

  The Nitrokey firmware behind \<open>firmware\<close> and \<open>dispatcher\<close>, the texts of JSON and Base64, littlefs and
  the cryptographic crates are parameters: they are other programs. So are pcscd, the vendored crates and
  the earlier Python card. Log and terminal messages, file permissions that the code sets and whose
  failure it ignores, and accessors that return a field are left out.
\<close>

section \<open>Slot 1 in the handler\<close>

text \<open>
  The handler's environment has the outcome of starting the firmware as \<open>nk_boot\<close>: with that of
  \<open>nitrokey_boot\<close> the card the handler builds for slot 1 is the one \<open>NitrokeyCard::new\<close> makes.
\<close>

lemma slot1_card_is_started:
  assumes "fst (nitrokey_boot (card_env X) Os L F fs im) = Some b"
    and "nk_boot X = map_option fst b" "nitrokey_feature X"
  shows "map_option (map_option Nitrokey) (nitrokey_card_new (card_env X) Os L F fs im) = Some (build_slot_card X fs 1)"
  using assms by (simp add: nitrokey_card_new_def build_slot_card_def)

end
